(* ===== verification/Prelude.thy ===== *)
theory Prelude
  imports Main "HOL-Library.Multiset"
begin

text \<open>
  Shared vocabulary of the development: time and results, the iteration order of a Go map,
  the number of entries of a map that satisfy a predicate, a fresh collection of rewrite rules
  (\<open>go_simps\<close>) and the contract every state machine of the development shares
  (\<open>state_machine\<close>): an invariant that holds at the start and is kept by every step holds
  after every run.
\<close>

named_theorems go_simps \<open>rewrite rules for the modelled Go library\<close>
named_theorems inv_intros \<open>preservation lemmas: every operation keeps its component's invariant\<close>

subsection \<open>Time\<close>

text \<open>
  \<open>time.Time\<close> and \<open>time.Duration\<close> are numbers of nanoseconds; \<open>time.Now()\<close> is an argument of the
  definitions that read the clock.
\<close>

type_synonym time = int
type_synonym duration = int

definition second :: duration where
  "second = 1000000000"

definition minute :: duration where
  "minute = 60 * second"

lemma second_pos [simp]: "0 < second"
  by (simp add: second_def)

lemma minute_pos [simp]: "0 < minute"
  by (simp add: minute_def)

subsection \<open>Files\<close>

text \<open>
  What \<open>os.ReadFile\<close> finds at a path, and the outcome of \<open>os.WriteFile\<close>: a failed write may leave
  anything behind.
\<close>

datatype file_read = NotExist | ReadError string | FileData string

datatype write_outcome = WriteOk | WriteError string file_read

subsection \<open>Go's truncating integer division\<close>

definition quot :: "int \<Rightarrow> int \<Rightarrow> int" where
  "quot a b = (if (0 \<le> a) = (0 < b) then \<bar>a\<bar> div \<bar>b\<bar> else - (\<bar>a\<bar> div \<bar>b\<bar>))"

lemma quot_nonneg [simp]: "0 \<le> a \<Longrightarrow> 0 < b \<Longrightarrow> quot a b = a div b"
  by (simp add: quot_def)

lemma quot_neg: "a < 0 \<Longrightarrow> 0 < b \<Longrightarrow> quot a b \<le> 0"
  by (simp add: quot_def pos_imp_zdiv_nonneg_iff)

subsection \<open>Iterating over a Go map\<close>

text \<open>
  A Go map is a partial function. \<open>range\<close> visits every key that is present once, in an order the
  runtime picks anew each time. The order is an argument: a list of distinct keys that holds at
  least the keys of the map (\<open>covers\<close>); keys that are not in the map are skipped, so one order
  can also serve the smaller map that is left after deletions.
\<close>

definition covers :: "'k list \<Rightarrow> ('k \<rightharpoonup> 'v) \<Rightarrow> bool" where
  "covers ord m \<longleftrightarrow> distinct ord \<and> dom m \<subseteq> set ord"

definition range_vals :: "'k list \<Rightarrow> ('k \<rightharpoonup> 'v) \<Rightarrow> 'v list" where
  "range_vals ord m = List.map_filter m ord"

lemma set_range_vals: "covers ord m \<Longrightarrow> set (range_vals ord m) = ran m"
  by (force simp: covers_def range_vals_def ran_def List.map_filter_def dom_def image_iff)

lemma range_vals_Nil [simp]: "range_vals [] m = []"
  by (simp add: range_vals_def List.map_filter_def)

lemma range_vals_Cons:
  "range_vals (k # ks) m = (case m k of None \<Rightarrow> range_vals ks m | Some v \<Rightarrow> v # range_vals ks m)"
  by (simp add: range_vals_def List.map_filter_def split: option.splits)

lemma covers_del: "covers ord m \<Longrightarrow> covers ord (m(k := None))"
  by (auto simp: covers_def)

lemma covers_finite: "covers ord m \<Longrightarrow> finite (dom m)"
  by (auto simp: covers_def intro: finite_subset)

text \<open>Deleting, while ranging over a map, every entry that fails a test.\<close>

definition keep_entries :: "('v \<Rightarrow> bool) \<Rightarrow> ('k \<rightharpoonup> 'v) \<Rightarrow> ('k \<rightharpoonup> 'v)" where
  "keep_entries P m = (\<lambda>k. case m k of None \<Rightarrow> None | Some v \<Rightarrow> if P v then Some v else None)"

lemma keep_entries_Some [simp]: "keep_entries P m k = Some v \<longleftrightarrow> m k = Some v \<and> P v"
  by (auto simp: keep_entries_def split: option.splits)

lemma keep_entries_None: "keep_entries P m k = None \<longleftrightarrow> (\<forall>v. m k = Some v \<longrightarrow> \<not> P v)"
  by (auto simp: keep_entries_def split: option.splits)

lemma dom_keep_entries: "dom (keep_entries P m) \<subseteq> dom m"
  by (auto simp: keep_entries_def split: option.splits)

lemma keep_entries_id:
  assumes "\<And>k v. m k = Some v \<Longrightarrow> P v"
  shows "keep_entries P m = m"
proof
  fix k
  show "keep_entries P m k = m k"
    using assms [of k] by (cases "m k") (simp_all add: keep_entries_def)
qed

lemma keep_entries_remove:
  assumes "\<And>v. m k = Some v \<Longrightarrow> \<not> P v" and "\<And>k' v. m k' = Some v \<Longrightarrow> \<not> P v \<Longrightarrow> k' = k"
  shows "keep_entries P m = m(k := None)"
proof
  fix k'
  show "keep_entries P m k' = (m(k := None)) k'"
    using assms(1) assms(2) [of k'] by (cases "m k'") (auto simp: keep_entries_def)
qed

subsection \<open>Counting entries\<close>

definition entries_with :: "('v \<Rightarrow> bool) \<Rightarrow> ('k \<rightharpoonup> 'v) \<Rightarrow> 'k set" where
  "entries_with P m = {k. \<exists>v. m k = Some v \<and> P v}"

definition count_entries :: "('v \<Rightarrow> bool) \<Rightarrow> ('k \<rightharpoonup> 'v) \<Rightarrow> nat" where
  "count_entries P m = card (entries_with P m)"

lemma entries_with_dom: "entries_with P m \<subseteq> dom m"
  by (auto simp: entries_with_def)

lemma finite_entries_with [simp]: "finite (dom m) \<Longrightarrow> finite (entries_with P m)"
  by (rule finite_subset [OF entries_with_dom])

lemma entries_with_upd:
  "entries_with P (m(k \<mapsto> v)) = (if P v then insert k (entries_with P m) else entries_with P m - {k})"
  by (auto simp: entries_with_def)

lemma entries_with_del: "entries_with P (m(k := None)) = entries_with P m - {k}"
  by (auto simp: entries_with_def)

lemma count_entries_empty [simp]: "count_entries P Map.empty = 0"
  by (simp add: count_entries_def entries_with_def)

lemma count_entries_fresh:
  assumes "finite (dom m)" and "m k = None"
  shows "count_entries P (m(k \<mapsto> v)) = count_entries P m + (if P v then 1 else 0)"
proof -
  have "k \<notin> entries_with P m" using assms(2) by (simp add: entries_with_def)
  then show ?thesis using assms(1) by (simp add: count_entries_def entries_with_upd)
qed

lemma count_entries_del:
  assumes "finite (dom m)" and "m k = Some v"
  shows "count_entries P m = count_entries P (m(k := None)) + (if P v then 1 else 0)"
proof (cases "P v")
  case True
  then have "k \<in> entries_with P m" using assms(2) by (simp add: entries_with_def)
  moreover have "finite (entries_with P m)" using assms(1) by simp
  ultimately show ?thesis using True
    by (simp add: count_entries_def entries_with_del card_Diff_singleton card_gt_0_iff)
       (metis Suc_pred card_gt_0_iff empty_iff)
next
  case False
  then have "k \<notin> entries_with P m" using assms(2) by (simp add: entries_with_def)
  then show ?thesis using False by (simp add: count_entries_def entries_with_del)
qed

lemma count_entries_upd_same:
  assumes "m k = Some v" and "P v' = P v"
  shows "count_entries P (m(k \<mapsto> v')) = count_entries P m"
proof -
  have "entries_with P (m(k \<mapsto> v')) = entries_with P m"
    using assms by (auto simp: entries_with_def)
  then show ?thesis by (simp add: count_entries_def)
qed

lemma count_entries_keep:
  "finite (dom m) \<Longrightarrow> count_entries P (keep_entries Q m) \<le> count_entries P m"
  unfolding count_entries_def
  by (rule card_mono, erule finite_entries_with) (auto simp: entries_with_def)

lemma count_entries_pos:
  "finite (dom m) \<Longrightarrow> m k = Some v \<Longrightarrow> P v \<Longrightarrow> 0 < count_entries P m"
proof -
  assume "finite (dom m)" and "m k = Some v" and "P v"
  then have "finite (entries_with P m)" and "k \<in> entries_with P m"
    by (simp_all only: finite_entries_with) (simp add: entries_with_def)
  then show ?thesis by (auto simp: count_entries_def card_gt_0_iff)
qed

lemma count_entries_0:
  "finite (dom m) \<Longrightarrow> count_entries P m = 0 \<longleftrightarrow> (\<forall>k v. m k = Some v \<longrightarrow> \<not> P v)"
  using finite_entries_with [of m P]
  by (simp add: count_entries_def card_eq_0_iff) (auto simp: entries_with_def)

text \<open>The values met while ranging, filtered, are exactly as many as the entries counted.\<close>

lemma length_filter_range_vals:
  assumes "covers ord m"
  shows "length (filter P (range_vals ord m)) = count_entries P m"
proof -
  have "length (filter P (range_vals ord m)) = card (entries_with P m \<inter> set ord)"
    if "distinct ord" for ord
    using that
  proof (induction ord)
    case Nil
    then show ?case by simp
  next
    case (Cons k ks)
    have fin: "finite (entries_with P m \<inter> set ks)" by simp
    show ?case
    proof (cases "k \<in> entries_with P m")
      case True
      then obtain v where "m k = Some v" "P v" by (auto simp: entries_with_def)
      moreover have "entries_with P m \<inter> set (k # ks) = insert k (entries_with P m \<inter> set ks)"
        using True by auto
      ultimately show ?thesis using Cons fin by (simp add: range_vals_Cons)
    next
      case False
      then have "entries_with P m \<inter> set (k # ks) = entries_with P m \<inter> set ks" by auto
      moreover have "\<not> (\<exists>v. m k = Some v \<and> P v)" using False by (simp add: entries_with_def)
      ultimately show ?thesis using Cons by (auto simp: range_vals_Cons split: option.splits)
    qed
  qed
  moreover have "entries_with P m \<inter> set ord = entries_with P m"
    using assms entries_with_dom [of P m] by (auto simp: covers_def)
  ultimately show ?thesis using assms by (simp add: covers_def count_entries_def)
qed

subsection \<open>State machines and their invariants\<close>

locale state_machine =
  fixes start :: "'s"
    and next_state :: "'s \<Rightarrow> 's \<Rightarrow> bool"
    and good :: "'s \<Rightarrow> bool"
  assumes good_start: "good start"
    and good_next: "good s \<Longrightarrow> next_state s t \<Longrightarrow> good t"
begin

lemma good_run: "next_state\<^sup>*\<^sup>* start s \<Longrightarrow> good s"
  by (induction rule: rtranclp_induct) (auto intro: good_start good_next)

lemma good_from: "good s \<Longrightarrow> next_state\<^sup>*\<^sup>* s t \<Longrightarrow> good t"
  by (rotate_tac 1, induction rule: rtranclp_induct) (auto intro: good_next)

end

end
