(* ===== verification/Go_Strings.thy ===== *)
theory Go_Strings
  imports Prelude
begin

text \<open>
  The functions of Go's \<open>strings\<close> package the program calls, on byte strings (\<open>string\<close> is a list of
  8-bit characters, so \<open>length\<close> is \<open>len\<close>, and a slice \<open>s[i:j]\<close> is \<open>take\<close> and \<open>drop\<close>).
  \<open>strings.ToLower\<close> takes its ASCII path when every byte is below 0x80; the Unicode tables of the
  other path are the argument \<open>ulow\<close>.
\<close>

subsection \<open>Prefixes and suffixes\<close>

definition HasPrefix :: "string \<Rightarrow> string \<Rightarrow> bool" where
  "HasPrefix s p \<longleftrightarrow> length p \<le> length s \<and> take (length p) s = p"

definition HasSuffix :: "string \<Rightarrow> string \<Rightarrow> bool" where
  "HasSuffix s p \<longleftrightarrow> length p \<le> length s \<and> drop (length s - length p) s = p"

definition TrimPrefix :: "string \<Rightarrow> string \<Rightarrow> string" where
  "TrimPrefix s p = (if HasPrefix s p then drop (length p) s else s)"

definition TrimSuffix :: "string \<Rightarrow> string \<Rightarrow> string" where
  "TrimSuffix s p = (if HasSuffix s p then take (length s - length p) s else s)"

lemma HasPrefix_append [simp, go_simps]: "HasPrefix (p @ s) p"
  by (simp add: HasPrefix_def)

lemma HasPrefix_iff: "HasPrefix s p \<longleftrightarrow> (\<exists>r. s = p @ r)"
  by (auto simp: HasPrefix_def) (metis append_take_drop_id)

lemma HasSuffix_append [simp, go_simps]: "HasSuffix (s @ p) p"
  by (simp add: HasSuffix_def)

lemma HasSuffix_iff: "HasSuffix s p \<longleftrightarrow> (\<exists>r. s = r @ p)"
  by (auto simp: HasSuffix_def) (metis append_take_drop_id)

lemma TrimPrefix_append [simp, go_simps]: "TrimPrefix (p @ s) p = s"
  by (simp add: TrimPrefix_def)

lemma TrimSuffix_append [simp, go_simps]: "TrimSuffix (s @ p) p = s"
  by (simp add: TrimSuffix_def)

lemma HasPrefix_Nil [simp]: "HasPrefix s []"
  by (simp add: HasPrefix_def)

subsection \<open>Searching\<close>

text \<open>\<open>strings.LastIndex(s, c)\<close> for a one-byte \<open>c\<close>, and \<open>strings.SplitN(s, c, 2)\<close>.\<close>

fun LastIndex :: "string \<Rightarrow> char \<Rightarrow> int" where
  "LastIndex [] c = - 1"
| "LastIndex (x # xs) c =
     (let i = LastIndex xs c in if 0 \<le> i then i + 1 else if x = c then 0 else - 1)"

definition SplitN2 :: "string \<Rightarrow> char \<Rightarrow> string list" where
  "SplitN2 s c =
     (let a = takeWhile (\<lambda>x. x \<noteq> c) s; r = drop (length a) s
      in case r of [] \<Rightarrow> [a] | _ # b \<Rightarrow> [a, b])"

lemma LastIndex_neg [go_simps]: "c \<notin> set s \<Longrightarrow> LastIndex s c = - 1"
  by (induction s) (auto simp: Let_def)

lemma LastIndex_last [go_simps]: "c \<notin> set t \<Longrightarrow> LastIndex (s @ c # t) c = int (length s)"
  by (induction s) (auto simp: Let_def LastIndex_neg)

lemma SplitN2_nosep [go_simps]: "c \<notin> set s \<Longrightarrow> SplitN2 s c = [s]"
proof -
  assume "c \<notin> set s"
  then have "takeWhile (\<lambda>x. x \<noteq> c) s = s" by (auto simp: takeWhile_eq_all_conv)
  then show ?thesis by (simp add: SplitN2_def Let_def del: takeWhile_eq_all_conv)
qed

lemma SplitN2_sep [go_simps]: "c \<notin> set a \<Longrightarrow> SplitN2 (a @ c # b) c = [a, b]"
proof -
  assume "c \<notin> set a"
  then have "takeWhile (\<lambda>x. x \<noteq> c) (a @ c # b) = a"
    by (subst takeWhile_append2) auto
  then show ?thesis by (simp add: SplitN2_def Let_def)
qed

lemma SplitN2_hd: "SplitN2 s c = a # r \<Longrightarrow> c \<notin> set a"
  by (auto simp: SplitN2_def Let_def split: list.splits dest: set_takeWhileD)

text \<open>\<open>strings.Split(s, c)\<close> for a one-byte separator.\<close>

fun Split :: "string \<Rightarrow> char \<Rightarrow> string list" where
  "Split [] c = [[]]"
| "Split (x # xs) c =
     (if x = c then [] # Split xs c
      else case Split xs c of [] \<Rightarrow> [[x]] | p # ps \<Rightarrow> (x # p) # ps)"

lemma Split_not_Nil [simp]: "Split s c \<noteq> []"
  by (induction s) (auto split: list.splits)

lemma Split_nosep: "p \<in> set (Split s c) \<Longrightarrow> c \<notin> set p"
  by (induction s arbitrary: p) (auto split: list.splits if_splits)

text \<open>\<open>strings.Contains\<close>, and \<open>strings.ReplaceAll\<close> for a one-byte pattern.\<close>

fun Contains :: "string \<Rightarrow> string \<Rightarrow> bool" where
  "Contains [] t = (t = [])"
| "Contains (c # cs) t = (HasPrefix (c # cs) t \<or> Contains cs t)"

definition ReplaceAll :: "string \<Rightarrow> char \<Rightarrow> string \<Rightarrow> string" where
  "ReplaceAll s c new = concat (map (\<lambda>x. if x = c then new else [x]) s)"

lemma Contains_append: "Contains (a @ t @ b) t"
proof (induction a)
  case Nil
  have "HasPrefix (t @ b) t" by simp
  then show ?case by (cases "t @ b") auto
qed simp

subsection \<open>Case and white space\<close>

definition lower_char :: "char \<Rightarrow> char" where
  "lower_char c = (if 65 \<le> (of_char c :: nat) \<and> (of_char c :: nat) \<le> 90
                   then char_of ((of_char c :: nat) + 32) else c)"

definition ascii :: "string \<Rightarrow> bool" where
  "ascii s \<longleftrightarrow> (\<forall>c \<in> set s. (of_char c :: nat) < 128)"

definition ToLower :: "(string \<Rightarrow> string) \<Rightarrow> string \<Rightarrow> string" where
  "ToLower ulow s = (if ascii s then map lower_char s else ulow s)"

definition white :: "char \<Rightarrow> bool" where
  "white c \<longleftrightarrow> (of_char c :: nat) \<in> {9, 10, 11, 12, 13, 32}"

text \<open>\<open>strings.TrimSpace\<close>: the ASCII path, and again an argument for text with other bytes.\<close>

definition TrimSpace :: "(string \<Rightarrow> string) \<Rightarrow> string \<Rightarrow> string" where
  "TrimSpace utrim s = (if ascii s then rev (dropWhile white (rev (dropWhile white s))) else utrim s)"

lemma TrimSpace_id:
  "ascii s \<Longrightarrow> s = [] \<or> \<not> white (hd s) \<and> \<not> white (last s) \<Longrightarrow> TrimSpace utrim s = s"
  by (auto simp: TrimSpace_def) (metis dropWhile_eq_self_iff hd_rev rev_rev_ident)

subsection \<open>Decimal numbers\<close>

text \<open>\<open>strconv.Atoi\<close>: an optional sign, at least one digit, and a value that fits an \<open>int64\<close>.\<close>

definition digit :: "char \<Rightarrow> bool" where
  "digit c \<longleftrightarrow> 48 \<le> (of_char c :: nat) \<and> (of_char c :: nat) \<le> 57"

definition digits_value :: "string \<Rightarrow> int" where
  "digits_value ds = foldl (\<lambda>n d. 10 * n + (of_char d - 48)) 0 ds"

definition in_int64 :: "int \<Rightarrow> bool" where
  "in_int64 n \<longleftrightarrow> - (2 ^ 63) \<le> n \<and> n < 2 ^ 63"

definition Atoi :: "string \<Rightarrow> int option" where
  "Atoi s =
     (let neg = (s \<noteq> [] \<and> hd s = CHR ''-'');
          ds = (if s \<noteq> [] \<and> (hd s = CHR ''-'' \<or> hd s = CHR ''+'') then tl s else s);
          n = (if neg then - digits_value ds else digits_value ds)
      in if ds \<noteq> [] \<and> list_all digit ds \<and> in_int64 n then Some n else None)"

lemma Atoi_bounded: "Atoi s = Some n \<Longrightarrow> in_int64 n"
  by (auto simp: Atoi_def Let_def split: if_splits)

lemma digits_value_nonneg: "list_all digit ds \<Longrightarrow> 0 \<le> digits_value ds"
proof (induction ds rule: rev_induct)
  case (snoc d ds)
  then have "(48::int) \<le> of_char d" by (auto simp: digit_def) (metis of_nat_le_iff of_nat_numeral of_nat_of_char)
  then show ?case using snoc by (simp add: digits_value_def)
qed (simp add: digits_value_def)

subsection \<open>Addresses\<close>

text \<open>\<open>net.SplitHostPort\<close>; \<open>None\<close> is its error.\<close>

definition IndexByte :: "string \<Rightarrow> char \<Rightarrow> nat option" where
  "IndexByte s c = (let n = length (takeWhile (\<lambda>x. x \<noteq> c) s) in if n < length s then Some n else None)"

definition SplitHostPort :: "string \<Rightarrow> (string \<times> string) option" where
  "SplitHostPort hp =
     (let i = LastIndex hp CHR '':'' in
      if i < 0 then None
      else if hd hp = CHR ''['' then
        (case IndexByte hp CHR '']'' of
           None \<Rightarrow> None
         | Some e \<Rightarrow>
             if int (e + 1) \<noteq> i then None
             else if CHR ''['' \<in> set (drop 1 hp) \<or> CHR '']'' \<in> set (drop (e + 1) hp) then None
             else Some (take (e - 1) (drop 1 hp), drop (nat i + 1) hp))
      else if CHR '':'' \<in> set (take (nat i) hp) then None
      else if CHR ''['' \<in> set hp \<or> CHR '']'' \<in> set hp then None
      else Some (take (nat i) hp, drop (nat i + 1) hp))"

lemma SplitHostPort_plain:
  assumes "CHR '':'' \<notin> set h" and "CHR ''['' \<notin> set h" and "CHR '']'' \<notin> set h"
    and "CHR '':'' \<notin> set p" and "CHR ''['' \<notin> set p" and "CHR '']'' \<notin> set p"
  shows "SplitHostPort (h @ CHR '':'' # p) = Some (h, p)"
proof -
  have "hd (h @ CHR '':'' # p) \<noteq> CHR ''[''" using assms(2) by (cases h) auto
  then show ?thesis using assms by (simp add: SplitHostPort_def LastIndex_last Let_def)
qed

subsection \<open>Numbers in decimal\<close>

text \<open>The digits of a positive number, as a user types it.\<close>

definition digit_char :: "nat \<Rightarrow> char" where
  "digit_char d = char_of (48 + d)"

lemma digit_char_facts:
  assumes "d < 10"
  shows "digit (digit_char d)" "(of_char (digit_char d) :: int) - 48 = int d" "digit_char d \<noteq> CHR '':''"
    "digit_char d \<noteq> CHR ''-''" "digit_char d \<noteq> CHR ''+''"
proof -
  have n: "(of_char (digit_char d) :: nat) = 48 + d" using assms by (simp add: digit_char_def)
  then show "digit (digit_char d)" using assms by (simp add: digit_def)
  have "(of_char (digit_char d) :: int) = int (of_char (digit_char d))" by (rule of_nat_of_char [symmetric])
  then show "(of_char (digit_char d) :: int) - 48 = int d" by (simp only: n)
  show "digit_char d \<noteq> CHR '':''" "digit_char d \<noteq> CHR ''-''" "digit_char d \<noteq> CHR ''+''"
    using n assms by (auto dest: arg_cong [where f = "of_char :: char \<Rightarrow> nat"])
qed

fun Itoa :: "nat \<Rightarrow> string" where
  "Itoa n = (if n < 10 then [digit_char n] else Itoa (n div 10) @ [digit_char (n mod 10)])"

declare Itoa.simps [simp del]

lemma Itoa_facts:
  "Itoa n \<noteq> [] \<and> list_all digit (Itoa n) \<and> digits_value (Itoa n) = int n \<and> CHR '':'' \<notin> set (Itoa n) \<and>
   hd (Itoa n) \<noteq> CHR ''-'' \<and> hd (Itoa n) \<noteq> CHR ''+''"
proof (induction n rule: Itoa.induct)
  case (1 n)
  show ?case
  proof (cases "n < 10")
    case True
    then show ?thesis using digit_char_facts [OF True] by (subst (1 2 3 4 5 6) Itoa.simps) (simp add: digits_value_def)
  next
    case False
    have r: "Itoa n = Itoa (n div 10) @ [digit_char (n mod 10)]" using False by (subst Itoa.simps) simp
    have d: "n mod 10 < 10" by simp
    have "digits_value (Itoa n) = 10 * digits_value (Itoa (n div 10)) + (of_char (digit_char (n mod 10)) - 48)"
      by (simp add: r digits_value_def)
    also have "\<dots> = 10 * int (n div 10) + int (n mod 10)" using 1 [OF False] digit_char_facts(2) [OF d] by simp
    also have "\<dots> = int n" by presburger
    finally show ?thesis using 1 [OF False] digit_char_facts [OF d] by (simp add: r)
  qed
qed

lemma Atoi_Itoa: "n < 2 ^ 63 \<Longrightarrow> Atoi (Itoa n) = Some (int n)"
  using Itoa_facts [of n] by (simp add: Atoi_def in_int64_def Let_def)

text \<open>\<open>%d\<close>\<close>

definition FormatInt :: "int \<Rightarrow> string" where
  "FormatInt n = (if n < 0 then CHR ''-'' # Itoa (nat (- n)) else Itoa (nat n))"

lemma FormatInt_plain: "c \<in> set (FormatInt n) \<Longrightarrow> digit c \<or> c = CHR ''-''"
  using Itoa_facts [of "nat n"] Itoa_facts [of "nat (- n)"] by (auto simp: FormatInt_def list_all_iff split: if_splits)

end
