(* ===== verification/Protocol.thy ===== *)
theory Protocol
  imports Prelude "HOL-Library.Word"
begin

text \<open>
  The wire protocol (\<open>internal/protocol/message.go\<close> and \<open>codec.go\<close>): message types, message records,
  the length-prefixed frames of the encoder and the decoder that reads them back.
  Bytes are \<open>8 word\<close>, the length field is a \<open>32 word\<close> whose conversion from the payload length wraps
  as in Go. \<open>json.Marshal\<close> and \<open>json.Unmarshal\<close> act on opaque payload values and are arguments.
\<close>

subsection \<open>Messages\<close>

type_synonym byte = "8 word"
type_synonym bytes = "8 word list"
type_synonym msg_type = "8 word"

definition ProtocolVersion :: byte where
  "ProtocolVersion = 0x01"

definition MaxMessageSize :: int where
  "MaxMessageSize = 2 ^ 20"

definition MsgAuth :: msg_type where "MsgAuth = 0x01"
definition MsgAuthResponse :: msg_type where "MsgAuthResponse = 0x02"
definition MsgTunnelReq :: msg_type where "MsgTunnelReq = 0x03"
definition MsgTunnelResp :: msg_type where "MsgTunnelResp = 0x04"
definition MsgHeartbeat :: msg_type where "MsgHeartbeat = 0x05"
definition MsgHeartbeatAck :: msg_type where "MsgHeartbeatAck = 0x06"
definition MsgRegister :: msg_type where "MsgRegister = 0x0A"
definition MsgRegisterResp :: msg_type where "MsgRegisterResp = 0x0B"
definition MsgAccountInfo :: msg_type where "MsgAccountInfo = 0x0E"
definition MsgAccountInfoResp :: msg_type where "MsgAccountInfoResp = 0x0F"
definition MsgRequestLog :: msg_type where "MsgRequestLog = 0x10"

lemmas msg_type_defs = MsgAuth_def MsgAuthResponse_def MsgTunnelReq_def MsgTunnelResp_def
  MsgHeartbeat_def MsgHeartbeatAck_def MsgRegister_def MsgRegisterResp_def MsgAccountInfo_def
  MsgAccountInfoResp_def MsgRequestLog_def

record auth_msg =
  am_Token :: string

definition TunnelHTTP :: string where "TunnelHTTP = ''http''"
definition TunnelTCP :: string where "TunnelTCP = ''tcp''"

record tunnel_request =
  rq_Type :: string
  rq_Subdomain :: string
  rq_LocalPort :: int

record register_msg =
  rm_Name :: string
  rm_Subdomain :: string

record request_log_msg =
  rl_Method :: string
  rl_Path :: string
  rl_Status :: int
  rl_Duration :: int
  rl_Size :: int

subsection \<open>Frames\<close>

text \<open>\<open>binary.BigEndian.PutUint32\<close> and \<open>Uint32\<close>.\<close>

definition put_uint32 :: "32 word \<Rightarrow> bytes" where
  "put_uint32 v = [ucast (drop_bit 24 v), ucast (drop_bit 16 v), ucast (drop_bit 8 v), ucast v]"

fun get_uint32 :: "bytes \<Rightarrow> 32 word" where
  "get_uint32 [b0, b1, b2, b3] =
     or (push_bit 24 (ucast b0)) (or (push_bit 16 (ucast b1)) (or (push_bit 8 (ucast b2)) (ucast b3)))"
| "get_uint32 _ = 0"

lemma length_put_uint32 [simp]: "length (put_uint32 v) = 4"
  by (simp add: put_uint32_def)

lemma get_put_uint32 [simp]: "get_uint32 (put_uint32 v) = v"
  unfolding put_uint32_def get_uint32.simps
proof (rule bit_word_eqI)
  fix n assume "n < LENGTH(32)"
  then consider "n < 8" | "8 \<le> n" "n < 16" | "16 \<le> n" "n < 24" | "24 \<le> n" "n < 32"
    by fastforce
  then show "bit (or (push_bit 24 (ucast (ucast (drop_bit 24 v) :: byte)))
      (or (push_bit 16 (ucast (ucast (drop_bit 16 v) :: byte)))
        (or (push_bit 8 (ucast (ucast (drop_bit 8 v) :: byte)))
          (ucast (ucast v :: byte)))) :: 32 word) n = bit v n"
    by cases (auto simp: bit_simps)
qed

lemma bit_byte_ge [simp]: "8 \<le> n \<Longrightarrow> \<not> bit (b :: byte) n"
  using bit_imp_le_length [of b n] by auto

lemma put_get_uint32:
  assumes "length b = 4"
  shows "put_uint32 (get_uint32 b) = b"
proof -
  from assms obtain b0 b1 b2 b3 where b: "b = [b0, b1, b2, b3]"
    by (auto simp: length_Suc_conv numeral_eq_Suc)
  show ?thesis unfolding b put_uint32_def get_uint32.simps
    by (auto intro!: bit_word_eqI simp: bit_simps)
qed

definition frame_header :: "msg_type \<Rightarrow> bytes \<Rightarrow> bytes" where
  "frame_header t payload =
     put_uint32 (word_of_nat (2 + length payload)) @ [ProtocolVersion, t]"

definition frame :: "msg_type \<Rightarrow> bytes \<Rightarrow> bytes" where
  "frame t payload = frame_header t payload @ payload"

lemma length_frame_header [simp]: "length (frame_header t p) = 6"
  by (simp add: frame_header_def)

lemma length_frame [simp]: "length (frame t p) = 6 + length p"
  by (simp add: frame_def)

subsection \<open>The encoder\<close>

text \<open>
  \<open>Encode\<close> marshals the payload (a \<open>nil\<close> payload gives no bytes), then makes one \<open>Write\<close> for the
  header and, when there are payload bytes, one for the payload. The \<open>io.Writer\<close> is a state with
  its write operation, which returns an error or none.
\<close>

datatype io_err = EOF | ErrUnexpectedEOF | IoErr string

datatype encode_error = MarshalErr string | WriteHeaderErr io_err | WritePayloadErr io_err

definition Encode :: "('p \<Rightarrow> string + bytes) \<Rightarrow> ('w \<Rightarrow> bytes \<Rightarrow> 'w \<times> io_err option) \<Rightarrow>
    'w \<Rightarrow> msg_type \<Rightarrow> 'p option \<Rightarrow> 'w \<times> encode_error option" where
  "Encode marshal write w t payload =
     (case (case payload of None \<Rightarrow> Inr [] | Some v \<Rightarrow> marshal v) of
        Inl e \<Rightarrow> (w, Some (MarshalErr e))
      | Inr payloadBytes \<Rightarrow>
          (case write w (frame_header t payloadBytes) of
             (w1, Some e) \<Rightarrow> (w1, Some (WriteHeaderErr e))
           | (w1, None) \<Rightarrow>
               if 0 < length payloadBytes
               then (case write w1 payloadBytes of
                       (w2, Some e) \<Rightarrow> (w2, Some (WritePayloadErr e))
                     | (w2, None) \<Rightarrow> (w2, None))
               else (w1, None)))"

text \<open>A writer that never fails, such as \<open>bytes.Buffer\<close>.\<close>

definition buffer_write :: "bytes \<Rightarrow> bytes \<Rightarrow> bytes \<times> io_err option" where
  "buffer_write w bs = (w @ bs, None)"

lemma Encode_buffer:
  "(case payload of None \<Rightarrow> Inr [] | Some v \<Rightarrow> marshal v) = Inr p \<Longrightarrow>
     Encode marshal buffer_write w t payload = (w @ frame t p, None)"
  by (simp add: Encode_def buffer_write_def frame_def)

subsection \<open>The decoder\<close>

text \<open>
  An \<open>io.Reader\<close> is the bytes that will still arrive and the error the read after them returns
  (\<open>EOF\<close> for a closed connection or an exhausted buffer, another error for a deadline).
  \<open>io.ReadFull\<close> turns an end of file in the middle of the wanted bytes into \<open>ErrUnexpectedEOF\<close>.
\<close>

record reader =
  rd_data :: bytes
  rd_end :: io_err

definition ReadFull :: "nat \<Rightarrow> reader \<Rightarrow> (io_err + bytes) \<times> reader" where
  "ReadFull n r =
     (if n \<le> length (rd_data r) then (Inr (take n (rd_data r)), r\<lparr>rd_data := drop n (rd_data r)\<rparr>)
      else (Inl (if rd_end r = EOF \<and> rd_data r \<noteq> [] then ErrUnexpectedEOF else rd_end r),
            r\<lparr>rd_data := []\<rparr>))"

datatype decode_error =
    ReadLength io_err
  | FrameTooShort "32 word"
  | MessageTooLarge int
  | ReadMeta io_err
  | UnsupportedVersion byte
  | ReadPayload io_err

definition Decode :: "reader \<Rightarrow> (decode_error + msg_type \<times> bytes) \<times> reader" where
  "Decode d =
     (case ReadFull 4 d of
        (Inl e, d1) \<Rightarrow> (Inl (ReadLength e), d1)
      | (Inr lenBuf, d1) \<Rightarrow>
          let frameLen = get_uint32 lenBuf in
          if frameLen < 2 then (Inl (FrameTooShort frameLen), d1)
          else let payloadLen = uint frameLen - 2 in
          if payloadLen > MaxMessageSize then (Inl (MessageTooLarge payloadLen), d1)
          else (case ReadFull 2 d1 of
             (Inl e, d2) \<Rightarrow> (Inl (ReadMeta e), d2)
           | (Inr meta, d2) \<Rightarrow>
               let version = meta ! 0; msgType = meta ! 1 in
               if version \<noteq> ProtocolVersion then (Inl (UnsupportedVersion version), d2)
               else if payloadLen > 0
               then (case ReadFull (nat payloadLen) d2 of
                       (Inl e, d3) \<Rightarrow> (Inl (ReadPayload e), d3)
                     | (Inr payload, d3) \<Rightarrow> (Inr (msgType, payload), d3))
               else (Inr (msgType, []), d2)))"

datatype decode_into_error = DecodeErr decode_error | UnmarshalErr msg_type string

text \<open>\<open>DecodeInto\<close> keeps the target as it was when the payload is empty or the target is nil.\<close>

definition DecodeInto ::
    "(bytes \<Rightarrow> string + 'v) \<Rightarrow> reader \<Rightarrow> 'v option \<Rightarrow>
     (decode_into_error + msg_type \<times> 'v option) \<times> reader" where
  "DecodeInto unmarshal d v =
     (case Decode d of
        (Inl e, d') \<Rightarrow> (Inl (DecodeErr e), d')
      | (Inr (t, raw), d') \<Rightarrow>
          if 0 < length raw \<and> v \<noteq> None
          then (case unmarshal raw of
                  Inl e \<Rightarrow> (Inl (UnmarshalErr t e), d')
                | Inr v' \<Rightarrow> (Inr (t, Some v'), d'))
          else (Inr (t, v), d'))"

end
