(* ===== verification/Codec_Proofs.thy ===== *)
theory Codec_Proofs
  imports Protocol
begin

text \<open>
  What the codec guarantees: a decoded frame is exactly the encoded one (\<open>Decode_frame\<close>,
  \<open>Decode_sound\<close>), the contract of a self-delimiting framing (locale \<open>framing\<close>) with its
  consequences for whole streams, and its interpretation on \<open>frame\<close> and \<open>Decode\<close>.
\<close>

subsection \<open>One frame\<close>

lemma uint_of_small: "n < 2 ^ 32 \<Longrightarrow> uint (word_of_nat n :: 32 word) = int n"
  by (simp add: unsigned_of_nat take_bit_nat_eq_self)

lemma ReadFull_append [simp]:
  "length a = n \<Longrightarrow> rd_data d = a @ b \<Longrightarrow> ReadFull n d = (Inr a, d\<lparr>rd_data := b\<rparr>)"
  by (simp add: ReadFull_def)

lemma ReadFull_Inr:
  "ReadFull n d = (Inr a, d') \<Longrightarrow>
     rd_data d = a @ rd_data d' \<and> length a = n \<and> rd_end d' = rd_end d"
  by (auto simp: ReadFull_def split: if_splits)

lemma Decode_frame:
  assumes data: "rd_data d = frame t p @ rest" and small: "length p + 2 < 2 ^ 32"
  shows "Decode d =
    (if int (length p) \<le> MaxMessageSize then (Inr (t, p), d\<lparr>rd_data := rest\<rparr>)
     else (Inl (MessageTooLarge (int (length p))), d\<lparr>rd_data := [ProtocolVersion, t] @ p @ rest\<rparr>))"
proof -
  define w where "w = (word_of_nat (2 + length p) :: 32 word)"
  define d1 where "d1 = d\<lparr>rd_data := [ProtocolVersion, t] @ p @ rest\<rparr>"
  have r1: "ReadFull 4 d = (Inr (put_uint32 w), d1)"
    unfolding d1_def by (rule ReadFull_append) (simp_all add: data frame_def frame_header_def w_def)
  have u: "uint w = int (length p) + 2"
    using small uint_of_small [of "2 + length p"] by (simp add: w_def)
  have ge: "\<not> w < 2" using u by (simp add: word_less_def)
  have r2: "ReadFull 2 d1 = (Inr [ProtocolVersion, t], d\<lparr>rd_data := p @ rest\<rparr>)"
    by (rule trans [OF ReadFull_append [where a = "[ProtocolVersion, t]" and b = "p @ rest"]])
      (simp_all add: d1_def)
  have r3: "ReadFull (length p) (d\<lparr>rd_data := p @ rest\<rparr>) = (Inr p, d\<lparr>rd_data := rest\<rparr>)"
    by (rule trans [OF ReadFull_append [where a = p and b = rest]]) simp_all
  show ?thesis
  proof (cases "int (length p) \<le> MaxMessageSize")
    case True
    then show ?thesis
      unfolding Decode_def r1 using ge r2 r3 u by (cases "p = []") (simp_all add: Let_def)
  next
    case False
    then show ?thesis
      unfolding Decode_def r1 using ge u by (simp add: Let_def d1_def)
  qed
qed

text \<open>The payload part of \<open>Decode\<close>, on its own.\<close>

lemma Decode_cases:
  assumes "Decode d = (Inr (t, p), d')"
  obtains lenBuf d1 d2 where
    "ReadFull 4 d = (Inr lenBuf, d1)" "\<not> get_uint32 lenBuf < 2"
    "uint (get_uint32 lenBuf) - 2 \<le> MaxMessageSize"
    "ReadFull 2 d1 = (Inr [ProtocolVersion, t], d2)"
    "if uint (get_uint32 lenBuf) - 2 > 0
     then ReadFull (nat (uint (get_uint32 lenBuf) - 2)) d2 = (Inr p, d') else p = [] \<and> d' = d2"
proof -
  obtain x d1 where r1: "ReadFull 4 d = (x, d1)" by fastforce
  obtain y d2 where r2: "ReadFull 2 d1 = (y, d2)" by fastforce
  from assms r1 obtain lenBuf where x: "x = Inr lenBuf" by (cases x) (simp_all add: Decode_def)
  define w where "w = get_uint32 lenBuf"
  from assms r1 x have ge: "\<not> w < 2" by (simp add: Decode_def w_def Let_def split: if_splits)
  from assms r1 x ge have le: "\<not> uint w - 2 > MaxMessageSize"
    by (simp add: Decode_def w_def Let_def split: if_splits)
  from assms r1 r2 x ge le obtain meta where y: "y = Inr meta"
    by (cases y) (simp_all add: Decode_def w_def Let_def)
  with r2 ReadFull_Inr [of 2 d1 meta d2] obtain v t' where m: "meta = [v, t']"
    by (auto simp: length_Suc_conv numeral_eq_Suc)
  from assms r1 r2 x y m ge le have v: "v = ProtocolVersion"
    by (simp add: Decode_def w_def Let_def split: if_splits)
  obtain z d3 where r3: "ReadFull (nat (uint w - 2)) d2 = (z, d3)" by fastforce
  from assms r1 r2 r3 x y m v ge le have
    "t' = t \<and> (if uint w - 2 > 0 then z = Inr p \<and> d' = d3 else p = [] \<and> d' = d2)"
    by (cases z) (auto simp: Decode_def w_def Let_def split: if_splits)
  then have tail: "if uint w - 2 > 0 then ReadFull (nat (uint w - 2)) d2 = (Inr p, d')
      else p = [] \<and> d' = d2" and t: "t' = t"
    using r3 by (simp_all split: if_splits)
  show thesis
  proof (rule that [of lenBuf d1 d2])
    show "ReadFull 4 d = (Inr lenBuf, d1)" using r1 x by simp
    show "\<not> get_uint32 lenBuf < 2" "uint (get_uint32 lenBuf) - 2 \<le> MaxMessageSize"
      using ge le by (simp_all add: w_def)
    show "ReadFull 2 d1 = (Inr [ProtocolVersion, t], d2)" using r2 y m v t by simp
  qed (rule tail [unfolded w_def])
qed

lemma Decode_sound:
  assumes "Decode d = (Inr (t, p), d')"
  shows "rd_data d = frame t p @ rd_data d' \<and> int (length p) \<le> MaxMessageSize
    \<and> rd_end d' = rd_end d"
proof -
  from assms obtain lenBuf d1 d2 where r1: "ReadFull 4 d = (Inr lenBuf, d1)"
    and ge: "\<not> get_uint32 lenBuf < 2" and le: "uint (get_uint32 lenBuf) - 2 \<le> MaxMessageSize"
    and r2: "ReadFull 2 d1 = (Inr [ProtocolVersion, t], d2)"
    and r3: "if uint (get_uint32 lenBuf) - 2 > 0
       then ReadFull (nat (uint (get_uint32 lenBuf) - 2)) d2 = (Inr p, d') else p = [] \<and> d' = d2"
    by (rule Decode_cases)
  have two: "2 \<le> uint (get_uint32 lenBuf)" using ge by (simp add: word_less_def)
  have len: "int (length p) = uint (get_uint32 lenBuf) - 2"
    and d2: "rd_data d2 = p @ rd_data d'" "rd_end d' = rd_end d2"
    using r3 two by (auto split: if_splits dest!: ReadFull_Inr)
  have "word_of_int (int (2 + length p)) = get_uint32 lenBuf" using len by simp
  then have "word_of_nat (2 + length p) = get_uint32 lenBuf" by simp
  then have "lenBuf = put_uint32 (word_of_nat (2 + length p))"
    using ReadFull_Inr [OF r1] put_get_uint32 [of lenBuf] by simp
  moreover have "rd_end d1 = rd_end d" "rd_end d2 = rd_end d1"
    using ReadFull_Inr [OF r1] ReadFull_Inr [OF r2] by simp_all
  ultimately show ?thesis
    using ReadFull_Inr [OF r1] ReadFull_Inr [OF r2] d2 len le
    by (simp add: frame_def frame_header_def)
qed

lemma Decode_consumes: "Decode d = (Inr m, d') \<Longrightarrow> length (rd_data d') < length (rd_data d)"
  by (cases m) (auto dest!: Decode_sound)

subsection \<open>Self-delimiting framings\<close>

text \<open>
  What a client of the codec relies on: rendered messages can be parsed off the front of any
  stream, and only rendered messages can. The lemmas say that a stream has at most one reading.
\<close>

locale framing =
  fixes render :: "'m \<Rightarrow> bytes"
    and parse :: "bytes \<Rightarrow> ('m \<times> bytes) option"
    and ok :: "'m \<Rightarrow> bool"
  assumes parse_render: "ok m \<Longrightarrow> parse (render m @ rest) = Some (m, rest)"
    and parse_sound: "parse bs = Some (m, rest) \<Longrightarrow> bs = render m @ rest \<and> ok m"
    and render_nonempty: "render m \<noteq> []"
begin

lemma front_unique:
  assumes "ok m" and "ok m'" and "render m @ r = render m' @ r'"
  shows "m = m' \<and> r = r'"
proof -
  have "Some (m, r) = parse (render m @ r)" using parse_render [OF assms(1)] by (rule sym)
  also have "\<dots> = Some (m', r')" unfolding assms(3) by (rule parse_render [OF assms(2)])
  finally show ?thesis by simp
qed

lemma stream_unique:
  assumes "list_all ok ms" and "list_all ok ms'"
    and "concat (map render ms) = concat (map render ms')"
  shows "ms = ms'"
  using assms
proof (induction ms arbitrary: ms')
  case Nil
  then show ?case by (cases ms') (simp_all add: render_nonempty)
next
  case (Cons m ms)
  have "ms' \<noteq> []"
  proof
    assume "ms' = []"
    with Cons.prems(3) have "render m @ concat (map render ms) = []" by simp
    then show False using render_nonempty [of m] by simp
  qed
  then obtain m' ms2 where ms': "ms' = m' # ms2" by (cases ms') blast+
  have ok: "ok m" "list_all ok ms" "ok m'" "list_all ok ms2"
    using Cons.prems(1,2) ms' by simp_all
  have "render m @ concat (map render ms) = render m' @ concat (map render ms2)"
    using Cons.prems(3) unfolding ms' by (simp only: list.map concat.simps)
  then have "m = m' \<and> concat (map render ms) = concat (map render ms2)"
    by (rule front_unique [OF ok(1,3)])
  then show ?case using Cons.IH [of ms2] ok ms' by simp
qed

end

definition frame_parse :: "bytes \<Rightarrow> ((msg_type \<times> bytes) \<times> bytes) option" where
  "frame_parse bs =
     (case Decode \<lparr>rd_data = bs, rd_end = EOF\<rparr> of
        (Inl e, d') \<Rightarrow> None
      | (Inr m, d') \<Rightarrow> Some (m, rd_data d'))"

definition frame_ok :: "msg_type \<times> bytes \<Rightarrow> bool" where
  "frame_ok m \<longleftrightarrow> int (length (snd m)) \<le> MaxMessageSize"

lemma frame_ok_small: "frame_ok m \<Longrightarrow> length (snd m) + 2 < 2 ^ 32"
proof -
  assume "frame_ok m"
  then have "int (length (snd m)) \<le> 1048576" by (simp add: frame_ok_def MaxMessageSize_def)
  then have "length (snd m) \<le> 1048576" by linarith
  then show ?thesis by simp
qed

lemma Decode_frame_ok:
  assumes "frame_ok (t, p)" and "rd_data d = frame t p @ rest"
  shows "Decode d = (Inr (t, p), d\<lparr>rd_data := rest\<rparr>)"
  using Decode_frame [OF assms(2)] frame_ok_small [OF assms(1)] assms(1) by (simp add: frame_ok_def)

interpretation codec: framing "\<lambda>(t, p). frame t p" frame_parse frame_ok
proof unfold_locales
  fix m :: "msg_type \<times> bytes" and rest
  assume "frame_ok m"
  then show "frame_parse ((case m of (t, p) \<Rightarrow> frame t p) @ rest) = Some (m, rest)"
    by (cases m) (simp add: frame_parse_def Decode_frame_ok [where rest = rest])
next
  fix bs and m :: "msg_type \<times> bytes" and rest
  assume "frame_parse bs = Some (m, rest)"
  then show "bs = (case m of (t, p) \<Rightarrow> frame t p) @ rest \<and> frame_ok m"
    by (cases m) (auto simp: frame_parse_def frame_ok_def split: prod.splits sum.splits
        dest!: Decode_sound)
next
  fix m :: "msg_type \<times> bytes"
  show "(case m of (t, p) \<Rightarrow> frame t p) \<noteq> []"
    by (cases m) (simp add: frame_def frame_header_def put_uint32_def)
qed

subsection \<open>The receive loop\<close>

text \<open>
  The loop both ends run on a connection: decode messages until an error ends it. Every message
  takes bytes off the stream, so it stops.
\<close>

function receive_loop :: "reader \<Rightarrow> (msg_type \<times> bytes) list \<times> decode_error \<times> reader" where
  "receive_loop d =
     (case Decode d of
        (Inl e, d') \<Rightarrow> ([], e, d')
      | (Inr m, d') \<Rightarrow> (case receive_loop d' of (ms, e, d'') \<Rightarrow> (m # ms, e, d'')))"
  by pat_completeness auto
termination
  by (relation "measure (\<lambda>d. length (rd_data d))") (auto dest!: Decode_consumes [OF sym])

declare receive_loop.simps [simp del]

lemma receive_loop_frames:
  assumes "list_all frame_ok ms"
  shows "receive_loop \<lparr>rd_data = concat (map (\<lambda>(t, p). frame t p) ms) @ rest, rd_end = e\<rparr> =
    (let (ms', err, d') = receive_loop \<lparr>rd_data = rest, rd_end = e\<rparr> in (ms @ ms', err, d'))"
  using assms
proof (induction ms)
  case Nil
  then show ?case by (simp add: Let_def split: prod.splits)
next
  case (Cons m ms)
  obtain t p where m: "m = (t, p)" by fastforce
  have "Decode \<lparr>rd_data = frame t p @ concat (map (\<lambda>(t, p). frame t p) ms) @ rest, rd_end = e\<rparr> =
      (Inr (t, p), \<lparr>rd_data = concat (map (\<lambda>(t, p). frame t p) ms) @ rest, rd_end = e\<rparr>)"
    using Cons.prems m by (subst Decode_frame_ok) simp_all
  then show ?case using Cons m
    by (subst receive_loop.simps) (simp add: Let_def split: prod.splits)
qed

lemma receive_loop_end: "receive_loop \<lparr>rd_data = [], rd_end = e\<rparr> = ([], ReadLength e, \<lparr>rd_data = [], rd_end = e\<rparr>)"
  by (subst receive_loop.simps) (simp add: Decode_def ReadFull_def)

subsection \<open>Properties\<close>

text \<open>
  C4: A message whose JSON payload has at most \<open>MaxMessageSize\<close> bytes and which \<open>Encode\<close> has
  written is what \<open>Decode\<close> returns, whatever follows it on the stream, and nothing of what follows
  is consumed; a larger payload is still written by \<open>Encode\<close> without an error, and \<open>Decode\<close>
  refuses it after reading only the length field.
\<close>

theorem encode_decode_roundtrip:
  assumes "(case payload of None \<Rightarrow> Inr [] | Some v \<Rightarrow> marshal v) = Inr p"
    and "length p + 2 < 2 ^ 32"
  shows "\<exists>out. Encode marshal buffer_write w t payload = (w @ out, None) \<and>
    Decode \<lparr>rd_data = out @ rest, rd_end = e\<rparr> =
      (if int (length p) \<le> MaxMessageSize then (Inr (t, p), \<lparr>rd_data = rest, rd_end = e\<rparr>)
       else (Inl (MessageTooLarge (int (length p))),
             \<lparr>rd_data = [ProtocolVersion, t] @ p @ rest, rd_end = e\<rparr>))"
proof (intro exI conjI)
  show "Encode marshal buffer_write w t payload = (w @ frame t p, None)"
    using assms(1) by (rule Encode_buffer)
  show "Decode \<lparr>rd_data = frame t p @ rest, rd_end = e\<rparr> =
      (if int (length p) \<le> MaxMessageSize then (Inr (t, p), \<lparr>rd_data = rest, rd_end = e\<rparr>)
       else (Inl (MessageTooLarge (int (length p))),
             \<lparr>rd_data = [ProtocolVersion, t] @ p @ rest, rd_end = e\<rparr>))"
    using Decode_frame [of "\<lparr>rd_data = frame t p @ rest, rd_end = e\<rparr>" t p rest] assms(2) by simp
qed

theorem encode_decode_roundtrip_witness:
  "\<exists>out. Encode (\<lambda>v. Inr v) buffer_write [7] MsgAuth (Some [123, 125]) = ([7] @ out, None) \<and>
    Decode \<lparr>rd_data = out @ [9], rd_end = EOF\<rparr> =
      (Inr (MsgAuth, [123, 125]), \<lparr>rd_data = [9], rd_end = EOF\<rparr>)"
  using encode_decode_roundtrip [where payload = "Some [123, 125]" and marshal = "\<lambda>v. Inr v"
      and p = "[123, 125]" and w = "[7]" and t = MsgAuth and rest = "[9]" and e = EOF]
  by (simp add: MaxMessageSize_def)

text \<open>
  C29: \<open>Decode\<close> accepts exactly the encoder's frames: it succeeds with type \<open>t\<close> and payload \<open>p\<close> if
  and only if the stream starts with the frame of \<open>t\<close> and \<open>p\<close> (right version, exact length field)
  and \<open>p\<close> is within the limit; then exactly that frame is consumed.
\<close>

theorem decode_exact:
  "Decode d = (Inr (t, p), d') \<longleftrightarrow>
     rd_data d = frame t p @ rd_data d' \<and> int (length p) \<le> MaxMessageSize \<and> rd_end d' = rd_end d"
  (is "?L \<longleftrightarrow> ?R")
proof
  assume ?L
  then show ?R by (rule Decode_sound)
next
  assume r: ?R
  then have "frame_ok (t, p)" by (simp add: frame_ok_def)
  with r Decode_frame_ok [of t p d "rd_data d'"] show ?L by simp
qed

text \<open>
  The receive loop returns every message of a stream of encoded frames, in order, and then
  stops with the connection's own error; no other list of messages has the same bytes.
\<close>

theorem receive_loop_returns_stream:
  assumes "list_all frame_ok ms"
  shows "receive_loop \<lparr>rd_data = concat (map (\<lambda>(t, p). frame t p) ms), rd_end = e\<rparr> =
      (ms, ReadLength e, \<lparr>rd_data = [], rd_end = e\<rparr>) \<and>
    (list_all frame_ok ms' \<and>
      concat (map (\<lambda>(t, p). frame t p) ms') = concat (map (\<lambda>(t, p). frame t p) ms) \<longrightarrow> ms' = ms)"
  using receive_loop_frames [OF assms, of "[]" e] receive_loop_end [of e]
    codec.stream_unique [of ms' ms] assms
  by simp

theorem receive_loop_returns_stream_witness:
  "receive_loop \<lparr>rd_data = concat (map (\<lambda>(t, p). frame t p) [(MsgHeartbeat, []), (MsgAuth, [123, 125])]),
      rd_end = EOF\<rparr> =
    ([(MsgHeartbeat, []), (MsgAuth, [123, 125])], ReadLength EOF, \<lparr>rd_data = [], rd_end = EOF\<rparr>)"
  using receive_loop_returns_stream [of "[(MsgHeartbeat, []), (MsgAuth, [123, 125])]" EOF]
  by (simp add: frame_ok_def MaxMessageSize_def)

text \<open>
  \<open>Decode\<close> is bounded: whatever arrives, it takes at most six bytes and one maximal payload off
  the stream, and a length field above the limit costs four bytes and no buffer.
\<close>

theorem decode_bounded:
  "int (length (rd_data d)) - int (length (rd_data (snd (Decode d)))) \<le> 6 + MaxMessageSize \<and>
   (fst (Decode d) = Inl (MessageTooLarge n) \<longrightarrow>
      length (rd_data d) = 4 + length (rd_data (snd (Decode d))) \<and> MaxMessageSize < n)"
proof -
  have RF: "int (length (rd_data d1)) - int (length (rd_data d2)) \<le> int k"
    if "ReadFull k d1 = (x, d2)" for k d1 x d2
    using that by (auto simp: ReadFull_def split: if_splits)
  obtain x d1 where r1: "ReadFull 4 d = (x, d1)" by fastforce
  show ?thesis
  proof (cases x)
    case (Inl e)
    then show ?thesis using RF [OF r1] r1 by (simp add: Decode_def MaxMessageSize_def)
  next
    case (Inr lenBuf)
    define k where "k = uint (get_uint32 lenBuf) - 2"
    have four: "length (rd_data d) = 4 + length (rd_data d1)"
      using r1 Inr by (auto dest!: ReadFull_Inr)
    obtain y d2 where r2: "ReadFull 2 d1 = (y, d2)" by fastforce
    obtain z d3 where r3: "ReadFull (nat k) d2 = (z, d3)" by fastforce
    show ?thesis
      using RF [OF r2] RF [OF r3] four r1 r2 r3 Inr
      by (auto simp: Decode_def Let_def k_def [symmetric] MaxMessageSize_def split: sum.splits)
  qed
qed

theorem decode_bounded_witness:
  "length (rd_data \<lparr>rd_data = [255, 255, 255, 255, 1, 1], rd_end = EOF\<rparr>) =
   4 + length (rd_data (snd (Decode \<lparr>rd_data = [255, 255, 255, 255, 1, 1], rd_end = EOF\<rparr>)))"
  using decode_bounded [of "\<lparr>rd_data = [255, 255, 255, 255, 1, 1], rd_end = EOF\<rparr>" 4294967293]
  by (simp add: Decode_def ReadFull_def MaxMessageSize_def Let_def)

end
