(* ===== verification/Encoder_Lock.thy ===== *)
theory Encoder_Lock
  imports Codec_Proofs
begin

text \<open>
  Concurrent calls of \<open>Encoder.Encode\<close> (\<open>internal/protocol/codec.go\<close>): any number of goroutines, one
  mutex, and a write of the header and a write of the payload that are separate steps. A write may
  fail after an arbitrary part of its bytes has gone out; then \<open>Encode\<close> returns and unlocks.
\<close>

datatype enc_pc =
    Outside
  | Locked msg_type bytes
  | HeaderWritten msg_type bytes
  | Returning

record encoder =
  e_out :: bytes
  e_mu :: "nat option"
  e_pc :: "nat \<Rightarrow> enc_pc"
  e_sent :: "(msg_type \<times> bytes) list"
  e_failed :: bool

definition encoder_init :: encoder where
  "encoder_init = \<lparr>e_out = [], e_mu = None, e_pc = (\<lambda>_. Outside), e_sent = [], e_failed = False\<rparr>"

text \<open>
  \<open>e_sent\<close> records the messages whose \<open>Encode\<close> returned without an error, in the order of their
  unlocking; the code has no such variable.
\<close>

inductive encoder_step :: "encoder \<Rightarrow> encoder \<Rightarrow> bool" where
  lock: "e_pc s i = Outside \<Longrightarrow> e_mu s = None \<Longrightarrow>
    encoder_step s (s\<lparr>e_mu := Some i, e_pc := (e_pc s)(i := Locked t p)\<rparr>)"
| write_header: "e_pc s i = Locked t p \<Longrightarrow> p \<noteq> [] \<Longrightarrow>
    encoder_step s (s\<lparr>e_out := e_out s @ frame_header t p, e_pc := (e_pc s)(i := HeaderWritten t p)\<rparr>)"
| write_header_only: "e_pc s i = Locked t [] \<Longrightarrow>
    encoder_step s (s\<lparr>e_out := e_out s @ frame_header t [], e_pc := (e_pc s)(i := Returning),
      e_sent := e_sent s @ [(t, [])]\<rparr>)"
| write_payload: "e_pc s i = HeaderWritten t p \<Longrightarrow>
    encoder_step s (s\<lparr>e_out := e_out s @ p, e_pc := (e_pc s)(i := Returning),
      e_sent := e_sent s @ [(t, p)]\<rparr>)"
| header_error: "e_pc s i = Locked t p \<Longrightarrow>
    encoder_step s (s\<lparr>e_out := e_out s @ take n (frame_header t p), e_pc := (e_pc s)(i := Returning),
      e_failed := True\<rparr>)"
| payload_error: "e_pc s i = HeaderWritten t p \<Longrightarrow>
    encoder_step s (s\<lparr>e_out := e_out s @ take n p, e_pc := (e_pc s)(i := Returning),
      e_failed := True\<rparr>)"
| unlock: "e_pc s i = Returning \<Longrightarrow>
    encoder_step s (s\<lparr>e_mu := None, e_pc := (e_pc s)(i := Outside)\<rparr>)"

definition frames_of :: "(msg_type \<times> bytes) list \<Rightarrow> bytes" where
  "frames_of ms = concat (map (\<lambda>(t, p). frame t p) ms)"

lemma frames_of_simps [simp]:
  "frames_of [] = []" "frames_of (ms @ [(t, p)]) = frames_of ms @ frame t p"
  by (simp_all add: frames_of_def)

text \<open>
  The invariant: only the holder of the mutex is inside, and until a write fails the output is the
  complete frames of the messages sent, plus the header the holder has already written.
\<close>

definition encoder_inv :: "encoder \<Rightarrow> bool" where
  "encoder_inv s \<longleftrightarrow>
     (\<forall>i. e_pc s i \<noteq> Outside \<longleftrightarrow> e_mu s = Some i) \<and>
     (\<not> e_failed s \<longrightarrow>
        e_out s = frames_of (e_sent s) @
          (case e_mu s of
             None \<Rightarrow> []
           | Some i \<Rightarrow> (case e_pc s i of HeaderWritten t p \<Rightarrow> frame_header t p | _ \<Rightarrow> [])))"

lemma encoder_inv_holder: "encoder_inv s \<Longrightarrow> e_pc s i \<noteq> Outside \<Longrightarrow> e_mu s = Some i"
  by (simp add: encoder_inv_def)

lemma encoder_inv_start: "encoder_inv encoder_init"
  by (simp add: encoder_inv_def encoder_init_def)

lemma encoder_inv_step:
  assumes "encoder_inv s" and "encoder_step s s'"
  shows "encoder_inv s'"
  using assms(2)
proof cases
  case (lock i t p)
  then show ?thesis using assms(1) by (simp add: encoder_inv_def)
next
  case (write_header i t p)
  then have "e_mu s = Some i" using assms(1) by (simp add: encoder_inv_holder)
  then show ?thesis using assms(1) write_header by (auto simp: encoder_inv_def)
next
  case (write_header_only i t)
  then have "e_mu s = Some i" using assms(1) by (simp add: encoder_inv_holder)
  then show ?thesis using assms(1) write_header_only by (auto simp: encoder_inv_def frame_def)
next
  case (write_payload i t p)
  then have "e_mu s = Some i" using assms(1) by (simp add: encoder_inv_holder)
  then show ?thesis using assms(1) write_payload by (auto simp: encoder_inv_def frame_def)
next
  case (header_error i t p n)
  then have "e_mu s = Some i" using assms(1) by (simp add: encoder_inv_holder)
  then show ?thesis using assms(1) header_error by (auto simp: encoder_inv_def)
next
  case (payload_error i t p n)
  then have "e_mu s = Some i" using assms(1) by (simp add: encoder_inv_holder)
  then show ?thesis using assms(1) payload_error by (auto simp: encoder_inv_def)
next
  case (unlock i)
  then have "e_mu s = Some i" using assms(1) by (simp add: encoder_inv_holder)
  then show ?thesis using assms(1) unlock by (auto simp: encoder_inv_def)
qed

interpretation enc_lock: state_machine encoder_init encoder_step encoder_inv
  by unfold_locales (fact encoder_inv_start, fact encoder_inv_step)

text \<open>
  C25: Frames written by concurrent goroutines never interleave: whenever the mutex is free and no
  write has failed, the bytes on the stream are the complete frames of the messages whose \<open>Encode\<close>
  returned, in the order of their unlocking, and a receiver decodes exactly these messages.
\<close>

theorem concurrent_encode_atomic:
  assumes "encoder_step\<^sup>*\<^sup>* encoder_init s" and "e_mu s = None" and "\<not> e_failed s"
    and "list_all frame_ok (e_sent s)"
  shows "e_out s = frames_of (e_sent s) \<and>
    fst (receive_loop \<lparr>rd_data = e_out s, rd_end = e\<rparr>) = e_sent s"
proof -
  have "encoder_inv s" using assms(1) by (rule enc_lock.good_run)
  then have out: "e_out s = frames_of (e_sent s)"
    using assms(2,3) by (simp add: encoder_inv_def)
  then show ?thesis
    using receive_loop_frames [OF assms(4), of "[]" e] receive_loop_end [of e]
    by (simp add: frames_of_def)
qed

lemma encoder_example:
  "\<exists>s. encoder_step\<^sup>*\<^sup>* encoder_init s \<and> e_mu s = None \<and> \<not> e_failed s \<and>
     e_sent s = [(MsgAuth, [123, 125]), (MsgHeartbeat, [])]"
proof -
  let ?s0 = encoder_init
  let ?s1 = "?s0\<lparr>e_mu := Some 0, e_pc := (e_pc ?s0)(0 := Locked MsgAuth [123, 125])\<rparr>"
  let ?s2 = "?s1\<lparr>e_out := e_out ?s1 @ frame_header MsgAuth [123, 125],
    e_pc := (e_pc ?s1)(0 := HeaderWritten MsgAuth [123, 125])\<rparr>"
  let ?s3 = "?s2\<lparr>e_out := e_out ?s2 @ [123, 125], e_pc := (e_pc ?s2)(0 := Returning),
    e_sent := e_sent ?s2 @ [(MsgAuth, [123, 125])]\<rparr>"
  let ?s4 = "?s3\<lparr>e_mu := None, e_pc := (e_pc ?s3)(0 := Outside)\<rparr>"
  let ?s5 = "?s4\<lparr>e_mu := Some 1, e_pc := (e_pc ?s4)(1 := Locked MsgHeartbeat [])\<rparr>"
  let ?s6 = "?s5\<lparr>e_out := e_out ?s5 @ frame_header MsgHeartbeat [], e_pc := (e_pc ?s5)(1 := Returning),
    e_sent := e_sent ?s5 @ [(MsgHeartbeat, [])]\<rparr>"
  let ?s7 = "?s6\<lparr>e_mu := None, e_pc := (e_pc ?s6)(1 := Outside)\<rparr>"
  have "encoder_step ?s0 ?s1" by (rule lock) (simp_all add: encoder_init_def)
  moreover have "encoder_step ?s1 ?s2" by (rule write_header) simp_all
  moreover have "encoder_step ?s2 ?s3" by (rule write_payload) simp
  moreover have "encoder_step ?s3 ?s4" by (rule unlock) simp
  moreover have "encoder_step ?s4 ?s5" by (rule lock) (simp_all add: encoder_init_def)
  moreover have "encoder_step ?s5 ?s6" by (rule write_header_only) simp
  moreover have "encoder_step ?s6 ?s7" by (rule unlock) simp
  ultimately have "encoder_step\<^sup>*\<^sup>* ?s0 ?s7"
    by (meson converse_rtranclp_into_rtranclp rtranclp.rtrancl_refl)
  moreover have "e_mu ?s7 = None \<and> \<not> e_failed ?s7 \<and>
      e_sent ?s7 = [(MsgAuth, [123, 125]), (MsgHeartbeat, [])]"
    by (simp add: encoder_init_def)
  ultimately show ?thesis by blast
qed

theorem concurrent_encode_atomic_witness:
  "\<exists>s. encoder_step\<^sup>*\<^sup>* encoder_init s \<and>
     e_out s = frames_of [(MsgAuth, [123, 125]), (MsgHeartbeat, [])]"
proof -
  obtain s where s: "encoder_step\<^sup>*\<^sup>* encoder_init s" "e_mu s = None" "\<not> e_failed s"
      "e_sent s = [(MsgAuth, [123, 125]), (MsgHeartbeat, [])]"
    using encoder_example by blast
  then have "list_all frame_ok (e_sent s)" by (simp add: frame_ok_def MaxMessageSize_def)
  from concurrent_encode_atomic [OF s(1-3) this] s(1,4) show ?thesis by auto
qed

end
