(* ===== verification/Subdomain.thy ===== *)
theory Subdomain
  imports Go_Strings
begin

text \<open>
  Subdomain labels (\<open>internal/server/tunnel_manager.go\<close>): the regular expression, the reserved names,
  \<open>ValidateSubdomain\<close> and the random label generator.
\<close>

subsection \<open>The part of \<open>regexp\<close> the program uses\<close>

text \<open>
  Character classes, concatenation and bounded repetition; \<open>rx_rest\<close> lists what may be left of the
  text after a match at its front. Between \<open>^\<close> and \<open>$\<close> the whole text has to be matched.
\<close>

datatype rx = Class "char \<Rightarrow> bool" | Seq rx rx | Repeat nat nat rx

fun rx_rest :: "rx \<Rightarrow> string \<Rightarrow> string list"
  and rx_repeat :: "nat \<Rightarrow> nat \<Rightarrow> rx \<Rightarrow> string \<Rightarrow> string list" where
  "rx_rest (Class p) s = (case s of [] \<Rightarrow> [] | c # cs \<Rightarrow> if p c then [cs] else [])"
| "rx_rest (Seq a b) s = concat (map (rx_rest b) (rx_rest a s))"
| "rx_rest (Repeat m n r) s = rx_repeat m n r s"
| "rx_repeat m 0 r s = (if m = 0 then [s] else [])"
| "rx_repeat m (Suc n) r s =
     (if m = 0 then [s] else []) @ concat (map (rx_repeat (m - 1) n r) (rx_rest r s))"

definition MatchString :: "rx \<Rightarrow> string \<Rightarrow> bool" where
  "MatchString r s \<longleftrightarrow> [] \<in> set (rx_rest r s)"

definition lower_alnum :: "char \<Rightarrow> bool" where
  "lower_alnum c \<longleftrightarrow>
     (let n = of_char c :: nat in 97 \<le> n \<and> n \<le> 122 \<or> 48 \<le> n \<and> n \<le> 57)"

definition lower_alnum_hyphen :: "char \<Rightarrow> bool" where
  "lower_alnum_hyphen c \<longleftrightarrow> lower_alnum c \<or> c = CHR ''-''"

text \<open>\<open>^[a-z0-9][a-z0-9-]{1,61}[a-z0-9]$\<close>\<close>

definition subdomainRe :: rx where
  "subdomainRe =
     Seq (Class lower_alnum) (Seq (Repeat 1 61 (Class lower_alnum_hyphen)) (Class lower_alnum))"

lemma rx_repeat_class:
  "r \<in> set (rx_repeat m n (Class p) s) \<longleftrightarrow>
     (\<exists>a. s = a @ r \<and> m \<le> length a \<and> length a \<le> n \<and> list_all p a)"
proof (induction n arbitrary: m s)
  case 0
  then show ?case by auto
next
  case (Suc n)
  show ?case
  proof (cases s)
    case Nil
    then show ?thesis by auto
  next
    case (Cons c cs)
    have "(\<exists>a. s = a @ r \<and> m \<le> length a \<and> length a \<le> Suc n \<and> list_all p a) \<longleftrightarrow>
        m = 0 \<and> s = r \<or>
        (p c \<and> (\<exists>a. cs = a @ r \<and> m - 1 \<le> length a \<and> length a \<le> n \<and> list_all p a))"
      (is "?A \<longleftrightarrow> ?B")
    proof
      assume ?A
      then obtain a where a: "s = a @ r" "m \<le> length a" "length a \<le> Suc n" "list_all p a" by blast
      then show ?B using Cons by (cases a) auto
    next
      assume ?B
      then show ?A
      proof
        assume "m = 0 \<and> s = r"
        then show ?A by (intro exI [of _ "[]"]) simp
      next
        assume "p c \<and> (\<exists>a. cs = a @ r \<and> m - 1 \<le> length a \<and> length a \<le> n \<and> list_all p a)"
        then obtain a where "p c" "cs = a @ r" "m - 1 \<le> length a" "length a \<le> n" "list_all p a"
          by blast
        then show ?A using Cons by (intro exI [of _ "c # a"]) auto
      qed
    qed
    then show ?thesis using Cons by (auto simp: Suc.IH)
  qed
qed

text \<open>The regular expression, read off character by character.\<close>

definition label_shape :: "string \<Rightarrow> bool" where
  "label_shape s \<longleftrightarrow> 3 \<le> length s \<and> length s \<le> 63 \<and> lower_alnum (hd s) \<and> lower_alnum (last s) \<and>
     list_all lower_alnum_hyphen s"

lemma subdomainRe_label_shape: "MatchString subdomainRe s \<longleftrightarrow> label_shape s"
proof -
  have "MatchString subdomainRe s \<longleftrightarrow>
      (\<exists>c a d. s = c # a @ [d] \<and> lower_alnum c \<and> lower_alnum d \<and>
        1 \<le> length a \<and> length a \<le> 61 \<and> list_all lower_alnum_hyphen a)"
    (is "_ \<longleftrightarrow> ?R")
  proof (cases s)
    case Nil
    then show ?thesis by (simp add: MatchString_def subdomainRe_def)
  next
    case (Cons c cs)
    have "MatchString subdomainRe s \<longleftrightarrow>
      (lower_alnum c \<and> (\<exists>r \<in> set (rx_repeat 1 61 (Class lower_alnum_hyphen) cs).
        [] \<in> set (rx_rest (Class lower_alnum) r)))"
      using Cons by (simp add: MatchString_def subdomainRe_def del: rx_repeat.simps)
    also have "\<dots> \<longleftrightarrow> ?R"
      using Cons by (auto simp: rx_repeat_class split: list.splits)
    finally show ?thesis .
  qed
  also have "\<dots> \<longleftrightarrow> label_shape s"
  proof
    assume ?R
    then show "label_shape s"
      by (auto simp: label_shape_def lower_alnum_hyphen_def list_all_iff)
  next
    assume L: "label_shape s"
    then obtain c cs where s: "s = c # cs" by (cases s) (auto simp: label_shape_def)
    with L obtain a d where cs: "cs = a @ [d]" by (cases cs rule: rev_cases) (auto simp: label_shape_def)
    show ?R using L unfolding s cs
      by (intro exI [of _ c] exI [of _ a] exI [of _ d]) (auto simp: label_shape_def)
  qed
  finally show ?thesis .
qed

subsection \<open>Validation\<close>

definition reservedSubdomains :: "string set" where
  "reservedSubdomains =
     {''www'', ''api'', ''admin'', ''mail'', ''ftp'', ''localhost'', ''tunnel'', ''dashboard''}"

datatype sub_error = BadLength string | BadLabel string | ReservedName string

definition ValidateSubdomain :: "string \<Rightarrow> sub_error option" where
  "ValidateSubdomain sub =
     (if length sub < 3 \<or> length sub > 63 then Some (BadLength sub)
      else if \<not> MatchString subdomainRe sub then Some (BadLabel sub)
      else if sub \<in> reservedSubdomains then Some (ReservedName sub)
      else None)"

lemma ValidateSubdomain_None:
  "ValidateSubdomain sub = None \<longleftrightarrow> label_shape sub \<and> sub \<notin> reservedSubdomains"
  by (auto simp: ValidateSubdomain_def subdomainRe_label_shape label_shape_def)

lemma lower_alnum_hyphen_facts:
  "lower_alnum_hyphen c \<Longrightarrow> c \<noteq> CHR ''.'' \<and> c \<noteq> CHR '':'' \<and> (of_char c :: nat) < 128 \<and> lower_char c = c"
  by (auto simp: lower_alnum_hyphen_def lower_alnum_def lower_char_def Let_def)

lemma label_shape_facts:
  assumes "label_shape s"
  shows "CHR ''.'' \<notin> set s" "CHR '':'' \<notin> set s" "ascii s" "map lower_char s = s" "s \<noteq> []"
  using assms lower_alnum_hyphen_facts
  by (auto simp: label_shape_def list_all_iff ascii_def intro!: map_idI)

lemma valid_sub_lower [go_simps]:
  "ValidateSubdomain s = None \<Longrightarrow> ToLower ulow s = s"
  using label_shape_facts(3,4) [of s] by (simp add: ValidateSubdomain_None ToLower_def)

subsection \<open>Random labels\<close>

definition label_chars :: string where
  "label_chars = ''abcdefghijklmnopqrstuvwxyz0123456789''"

text \<open>
  \<open>rand.Intn(n)\<close> returns a number below \<open>n\<close>: the random source is a function from the number of the draw
  to a natural, and a draw takes it modulo \<open>n\<close>, so every sequence of draws is some source's.
\<close>

definition RandomSubdomain :: "(nat \<Rightarrow> nat) \<Rightarrow> string" where
  "RandomSubdomain rnd = map (\<lambda>i. label_chars ! (rnd i mod length label_chars)) [0..<8]"

lemma label_chars_alnum: "list_all lower_alnum label_chars"
  by (simp add: label_chars_def lower_alnum_def Let_def)

lemma length_label_chars: "length label_chars = 36"
  by (simp add: label_chars_def)

lemma label_chars_nth: "lower_alnum (label_chars ! (n mod length label_chars))"
  using label_chars_alnum by (simp add: list_all_length length_label_chars)

lemma length_RandomSubdomain [simp]: "length (RandomSubdomain rnd) = 8"
  by (simp add: RandomSubdomain_def)

lemma reserved_not_8: "s \<in> reservedSubdomains \<Longrightarrow> length s \<noteq> 8"
  by (auto simp: reservedSubdomains_def)

lemma random_valid: "ValidateSubdomain (RandomSubdomain rnd) = None"
proof -
  have "list_all lower_alnum (RandomSubdomain rnd)"
    by (simp add: RandomSubdomain_def list_all_iff label_chars_nth)
  then have "label_shape (RandomSubdomain rnd)"
    by (auto simp: label_shape_def list_all_iff lower_alnum_hyphen_def
        dest: hd_in_set last_in_set)
       (metis hd_in_set last_in_set length_RandomSubdomain length_0_conv zero_neq_numeral)+
  then show ?thesis
    using reserved_not_8 [of "RandomSubdomain rnd"] by (auto simp: ValidateSubdomain_None)
qed

text \<open>
  Every label \<open>RandomSubdomain\<close> can produce passes \<open>ValidateSubdomain\<close>: a random tunnel never
  fails on its own name, only on a collision.
\<close>

theorem random_subdomain_valid: "ValidateSubdomain (RandomSubdomain rnd) = None"
  by (rule random_valid)

text \<open>
  C39: \<open>ValidateSubdomain\<close> accepts exactly the DNS labels of 3 to 63 characters made of lower-case
  letters, digits and inner hyphens that are not reserved; its regular expression, executed by the
  matcher, agrees with this reading.
\<close>

theorem validate_subdomain_spec:
  "ValidateSubdomain sub = None \<longleftrightarrow>
     3 \<le> length sub \<and> length sub \<le> 63 \<and>
     lower_alnum (hd sub) \<and> lower_alnum (last sub) \<and>
     list_all (\<lambda>c. lower_alnum c \<or> c = CHR ''-'') sub \<and> sub \<notin> reservedSubdomains"
  by (auto simp: ValidateSubdomain_None label_shape_def lower_alnum_hyphen_def list_all_iff)

end
