(* ===== verification/Masking.thy ===== *)
theory Masking
  imports Go_Strings
begin

text \<open>
  Keys and their masked forms: \<open>GenerateAPIKey\<close>, \<open>IsAPIKey\<close> and \<open>MaskKey\<close>
  (\<open>internal/server/key_store.go\<close>), \<open>maskToken\<close> and \<open>randomHex\<close> (\<open>internal/server/server.go\<close>) and
  \<open>maskKey\<close> (\<open>internal/dashboard/handler.go\<close>).
\<close>

subsection \<open>Keys\<close>

definition hex_digit :: "nat \<Rightarrow> char" where
  "hex_digit n = ''0123456789abcdef'' ! (n mod 16)"

text \<open>\<open>hex.EncodeToString\<close> (and \<open>%x\<close>) of \<open>n\<close> random bytes; byte \<open>i\<close> is \<open>rnd i\<close> modulo 256.\<close>

definition hex_string :: "nat \<Rightarrow> (nat \<Rightarrow> nat) \<Rightarrow> string" where
  "hex_string n rnd = concat (map (\<lambda>i. [hex_digit (rnd i mod 256 div 16), hex_digit (rnd i mod 256)]) [0..<n])"

definition GenerateAPIKey :: "(nat \<Rightarrow> nat) \<Rightarrow> string" where
  "GenerateAPIKey rnd = ''htk_'' @ hex_string 16 rnd"

definition randomHex :: "nat \<Rightarrow> (nat \<Rightarrow> nat) \<Rightarrow> string" where
  "randomHex n rnd = hex_string n rnd"

definition IsAPIKey :: "string \<Rightarrow> bool" where
  "IsAPIKey token \<longleftrightarrow> HasPrefix token ''htk_''"

lemma length_hex_string [simp]: "length (hex_string n rnd) = 2 * n"
  by (induction n) (simp_all add: hex_string_def)

lemma length_GenerateAPIKey [simp]: "length (GenerateAPIKey rnd) = 36"
  by (simp add: GenerateAPIKey_def)

lemma IsAPIKey_Generate [simp]: "IsAPIKey (GenerateAPIKey rnd)"
  by (simp add: IsAPIKey_def GenerateAPIKey_def HasPrefix_def)

lemma GenerateAPIKey_not_Nil [simp]: "GenerateAPIKey rnd \<noteq> []"
  by (simp add: GenerateAPIKey_def)

subsection \<open>Anonymous tokens\<close>

definition anon_token :: "string \<Rightarrow> string" where
  "anon_token ip = ''anon:'' @ ip"

definition is_anon :: "string \<Rightarrow> bool" where
  "is_anon token \<longleftrightarrow> HasPrefix token ''anon:''"

lemma is_anon_anon_token [simp]: "is_anon (anon_token ip)"
  by (simp add: is_anon_def anon_token_def HasPrefix_def)

lemma anon_not_key: "is_anon t \<Longrightarrow> \<not> IsAPIKey t"
  by (auto simp: is_anon_def IsAPIKey_def HasPrefix_iff)

lemma anon_token_inj: "anon_token a = anon_token b \<longleftrightarrow> a = b"
  by (simp add: anon_token_def)

subsection \<open>Masks\<close>

definition MaskKey :: "string \<Rightarrow> string" where
  "MaskKey key = (if length key < 12 then key else take 8 key @ ''...'' @ drop (length key - 4) key)"

definition maskToken :: "string \<Rightarrow> string" where
  "maskToken t = (if length t \<le> 8 then ''***'' else take 4 t @ ''...'' @ drop (length t - 4) t)"

definition maskKey :: "string \<Rightarrow> string" where
  "maskKey key = (if length key \<le> 8 then ''***'' else take 4 key @ ''...'' @ drop (length key - 4) key)"

lemma length_maskKey: "length (maskKey k) \<le> 11"
  by (auto simp: maskKey_def)

lemma length_MaskKey: "12 \<le> length k \<Longrightarrow> length (MaskKey k) = 15"
  by (auto simp: MaskKey_def)

lemma maskKey_not_MaskKey: "12 \<le> length k' \<Longrightarrow> MaskKey k' \<noteq> maskKey k"
  using length_maskKey [of k] length_MaskKey [of k'] by auto

lemma maskKey_maskToken: "maskKey = maskToken"
  by (rule ext) (simp add: maskKey_def maskToken_def)

text \<open>A mask shows at most eight characters of the secret, and none of a short one.\<close>

lemma mask_hides_middle:
  "length m = length m' \<Longrightarrow> length a = 4 \<Longrightarrow> length b = 4 \<Longrightarrow> m \<noteq> [] \<Longrightarrow>
     maskToken (a @ m @ b) = maskToken (a @ m' @ b)"
  by (auto simp: maskToken_def)

end
