(* ===== verification/Tunnel_Manager.thy ===== *)
theory Tunnel_Manager
  imports Prelude Subdomain Masking
begin

text \<open>
  The registry of tunnels (\<open>internal/server/tunnel_manager.go\<close>) and the TCP proxy's calls of it
  (\<open>internal/server/tcp_proxy.go\<close>). Every operation that takes the lock is one definition on the
  manager's state; \<open>RegisterTCP\<close>, which takes it twice in each attempt, lets other goroutines act in
  between. Pointers to yamux sessions and encoders are numbers; a listener is the port it is bound
  to. Two fields are not the struct's: the ports this process listens on and the yamux sessions it
  has closed, which are the operating system's and yamux's side of the same operations.
\<close>

record tunnel_session =
  ts_ID :: string
  ts_Token :: string
  ts_Type :: string
  ts_Subdomain :: string
  ts_Port :: int
  ts_LocalPort :: int
  ts_Session :: "nat option"
  ts_Listener :: "int option"
  ts_ControlEnc :: "nat option"
  ts_CreatedAt :: time
  ts_BytesIn :: int
  ts_BytesOut :: int
  ts_Reserved :: bool
  ts_ReservedUntil :: time

record tunnel_manager =
  httpTunnels :: "string \<rightharpoonup> tunnel_session"
  tcpTunnels :: "int \<rightharpoonup> tunnel_session"
  portMin :: int
  portMax :: int
  tm_listening :: "int set"
  tm_closed :: "nat set"

definition NewTunnelManager :: "int \<Rightarrow> int \<Rightarrow> tunnel_manager" where
  "NewTunnelManager lo hi =
     \<lparr>httpTunnels = Map.empty, tcpTunnels = Map.empty, portMin = lo, portMax = hi,
      tm_listening = {}, tm_closed = {}\<rparr>"

datatype reg_error = InvalidSubdomain sub_error | SubdomainInUse string | NoTCPPort nat | RandPanic

subsection \<open>HTTP tunnels\<close>

definition RegisterHTTP ::
    "string \<Rightarrow> tunnel_session \<Rightarrow> time \<Rightarrow> tunnel_manager \<Rightarrow> reg_error option \<times> tunnel_manager" where
  "RegisterHTTP subdomain session now tm =
     (case ValidateSubdomain subdomain of
        Some e \<Rightarrow> (Some (InvalidSubdomain e), tm)
      | None \<Rightarrow>
          let stored = tm\<lparr>httpTunnels := (httpTunnels tm)(subdomain \<mapsto> session\<lparr>ts_CreatedAt := now\<rparr>)\<rparr> in
          (case httpTunnels tm subdomain of
             Some existing \<Rightarrow>
               if ts_Reserved existing \<and> ts_Token existing = ts_Token session \<and>
                  now < ts_ReservedUntil existing
               then (None, stored)
               else (Some (SubdomainInUse subdomain), tm)
           | None \<Rightarrow> (None, stored)))"

definition UnregisterHTTP :: "string \<Rightarrow> tunnel_manager \<Rightarrow> tunnel_manager" where
  "UnregisterHTTP subdomain tm = tm\<lparr>httpTunnels := (httpTunnels tm)(subdomain := None)\<rparr>"

definition ReserveHTTP :: "string \<Rightarrow> duration \<Rightarrow> time \<Rightarrow> tunnel_manager \<Rightarrow> tunnel_manager" where
  "ReserveHTTP subdomain ttl now tm =
     (case httpTunnels tm subdomain of
        None \<Rightarrow> tm
      | Some s \<Rightarrow> tm\<lparr>httpTunnels := (httpTunnels tm)
                       (subdomain \<mapsto> s\<lparr>ts_Reserved := True, ts_ReservedUntil := now + ttl\<rparr>)\<rparr>)"

definition LookupHTTP :: "tunnel_manager \<Rightarrow> string \<Rightarrow> tunnel_session option" where
  "LookupHTTP tm subdomain =
     (case httpTunnels tm subdomain of
        None \<Rightarrow> None
      | Some s \<Rightarrow> if ts_Reserved s then None else Some s)"

text \<open>One tick of \<open>reservationReaper\<close>.\<close>

definition reservationReaper :: "time \<Rightarrow> tunnel_manager \<Rightarrow> tunnel_manager" where
  "reservationReaper now tm =
     tm\<lparr>httpTunnels := keep_entries (\<lambda>s. \<not> (ts_Reserved s \<and> ts_ReservedUntil s < now)) (httpTunnels tm)\<rparr>"

subsection \<open>TCP tunnels\<close>

text \<open>
  One attempt of \<open>RegisterTCP\<close>: the random draw, the ports some other process holds, and what other
  goroutines do to the manager between the attempt's two critical sections.
\<close>

record tcp_attempt =
  at_draw :: nat
  at_busy :: "int set"
  at_env :: "tunnel_manager \<Rightarrow> tunnel_manager"

definition maxAttempts :: nat where
  "maxAttempts = 100"

fun register_tcp_from :: "nat \<Rightarrow> (nat \<Rightarrow> tcp_attempt) \<Rightarrow> tunnel_session \<Rightarrow> time \<Rightarrow> tunnel_manager \<Rightarrow>
    (reg_error + int) \<times> tunnel_manager" where
  "register_tcp_from 0 att session now tm = (Inl (NoTCPPort maxAttempts), tm)"
| "register_tcp_from (Suc n) att session now tm =
     (let a = att n; span = portMax tm - portMin tm + 1 in
      if span \<le> 0 then (Inl RandPanic, tm)
      else
        let port = portMin tm + int (at_draw a mod nat span); tm1 = at_env a tm in
        if tcpTunnels tm port \<noteq> None then register_tcp_from n att session now tm1
        else if port \<in> at_busy a \<or> port \<in> tm_listening tm1 then register_tcp_from n att session now tm1
        else if tcpTunnels tm1 port \<noteq> None then register_tcp_from n att session now tm1
        else (Inr port,
              tm1\<lparr>tcpTunnels := (tcpTunnels tm1)
                    (port \<mapsto> session\<lparr>ts_Port := port, ts_Listener := Some port, ts_CreatedAt := now\<rparr>),
                  tm_listening := insert port (tm_listening tm1)\<rparr>))"

definition RegisterTCP :: "(nat \<Rightarrow> tcp_attempt) \<Rightarrow> tunnel_session \<Rightarrow> time \<Rightarrow> tunnel_manager \<Rightarrow>
    (reg_error + int) \<times> tunnel_manager" where
  "RegisterTCP att session now tm = register_tcp_from maxAttempts att session now tm"

definition close_listener :: "int option \<Rightarrow> tunnel_manager \<Rightarrow> tunnel_manager" where
  "close_listener l tm =
     (case l of None \<Rightarrow> tm | Some p \<Rightarrow> tm\<lparr>tm_listening := tm_listening tm - {p}\<rparr>)"

definition close_session :: "nat option \<Rightarrow> tunnel_manager \<Rightarrow> tunnel_manager" where
  "close_session y tm =
     (case y of None \<Rightarrow> tm | Some s \<Rightarrow> tm\<lparr>tm_closed := insert s (tm_closed tm)\<rparr>)"

definition UnregisterTCP :: "int \<Rightarrow> tunnel_manager \<Rightarrow> tunnel_manager" where
  "UnregisterTCP port tm =
     (let tm1 = tm\<lparr>tcpTunnels := (tcpTunnels tm)(port := None)\<rparr> in
      case tcpTunnels tm port of None \<Rightarrow> tm1 | Some s \<Rightarrow> close_listener (ts_Listener s) tm1)"

definition LookupTCP :: "tunnel_manager \<Rightarrow> int \<Rightarrow> tunnel_session option" where
  "LookupTCP tm port = tcpTunnels tm port"

text \<open>\<open>TCPProxy.StartTCPTunnel\<close> and \<open>StopTCPTunnel\<close>; the accept loop of the listener is in theory \<open>Relay\<close>.\<close>

definition StartTCPTunnel :: "(nat \<Rightarrow> tcp_attempt) \<Rightarrow> tunnel_session \<Rightarrow> time \<Rightarrow> tunnel_manager \<Rightarrow>
    (reg_error + int) \<times> tunnel_manager" where
  "StartTCPTunnel att session now tm =
     (case RegisterTCP att session now tm of
        (Inl err, tm') \<Rightarrow> (Inl err, tm')
      | (Inr port, tm') \<Rightarrow> (Inr port, tm'))"

definition StopTCPTunnel :: "int \<Rightarrow> tunnel_manager \<Rightarrow> tunnel_manager" where
  "StopTCPTunnel port tm = UnregisterTCP port tm"

subsection \<open>Queries\<close>

definition SessionTunnels :: "string list \<Rightarrow> int list \<Rightarrow> nat \<Rightarrow> tunnel_manager \<Rightarrow> tunnel_session list" where
  "SessionTunnels oh ot y tm =
     filter (\<lambda>s. ts_Session s = Some y) (range_vals oh (httpTunnels tm)) @
     filter (\<lambda>s. ts_Session s = Some y) (range_vals ot (tcpTunnels tm))"

definition TunnelsForAnon :: "string list \<Rightarrow> int list \<Rightarrow> string \<Rightarrow> tunnel_manager \<Rightarrow> tunnel_session list" where
  "TunnelsForAnon oh ot token tm =
     filter (\<lambda>s. ts_Token s = token \<and> \<not> ts_Reserved s) (range_vals oh (httpTunnels tm)) @
     filter (\<lambda>s. ts_Token s = token) (range_vals ot (tcpTunnels tm))"

definition ListTunnels :: "string list \<Rightarrow> int list \<Rightarrow> tunnel_manager \<Rightarrow> tunnel_session list" where
  "ListTunnels oh ot tm =
     filter (\<lambda>s. \<not> ts_Reserved s) (range_vals oh (httpTunnels tm)) @ range_vals ot (tcpTunnels tm)"

record dashboard_stats =
  ActiveHTTP :: int
  ActiveTCP :: int
  TotalTunnels :: int
  st_BytesIn :: int
  st_BytesOut :: int

fun stats_http :: "dashboard_stats \<Rightarrow> tunnel_session list \<Rightarrow> dashboard_stats" where
  "stats_http s [] = s"
| "stats_http s (t # ts) =
     stats_http
       (if \<not> ts_Reserved t
        then s\<lparr>ActiveHTTP := ActiveHTTP s + 1, st_BytesIn := st_BytesIn s + ts_BytesIn t,
               st_BytesOut := st_BytesOut s + ts_BytesOut t\<rparr>
        else s) ts"

fun stats_tcp :: "dashboard_stats \<Rightarrow> tunnel_session list \<Rightarrow> dashboard_stats" where
  "stats_tcp s [] = s"
| "stats_tcp s (t # ts) =
     stats_tcp (s\<lparr>ActiveTCP := ActiveTCP s + 1, st_BytesIn := st_BytesIn s + ts_BytesIn t,
                  st_BytesOut := st_BytesOut s + ts_BytesOut t\<rparr>) ts"

definition Stats :: "string list \<Rightarrow> int list \<Rightarrow> tunnel_manager \<Rightarrow> dashboard_stats" where
  "Stats oh ot tm =
     (let s0 = \<lparr>ActiveHTTP = 0, ActiveTCP = 0, TotalTunnels = 0, st_BytesIn = 0, st_BytesOut = 0\<rparr>;
          s1 = stats_http s0 (range_vals oh (httpTunnels tm));
          s2 = stats_tcp s1 (range_vals ot (tcpTunnels tm))
      in s2\<lparr>TotalTunnels := ActiveHTTP s2 + ActiveTCP s2\<rparr>)"

text \<open>
  What the dashboard is shown; \<open>Uptime\<close> is the duration truncated to seconds, before its
  formatting.
\<close>

record tunnel_stats =
  tst_ID :: string
  tst_Type :: string
  tst_Subdomain :: string
  tst_Port :: int
  tst_LocalPort :: int
  tst_Token :: string
  tst_Uptime :: duration
  tst_BytesIn :: int
  tst_BytesOut :: int
  tst_CreatedAt :: time

definition tunnel_stats_of :: "time \<Rightarrow> tunnel_session \<Rightarrow> tunnel_stats" where
  "tunnel_stats_of now t =
     \<lparr>tst_ID = ts_ID t, tst_Type = ts_Type t, tst_Subdomain = ts_Subdomain t, tst_Port = ts_Port t,
      tst_LocalPort = ts_LocalPort t, tst_Token = maskToken (ts_Token t),
      tst_Uptime = quot (now - ts_CreatedAt t) second * second,
      tst_BytesIn = ts_BytesIn t, tst_BytesOut = ts_BytesOut t, tst_CreatedAt = ts_CreatedAt t\<rparr>"

definition ListTunnelsForDashboard :: "string list \<Rightarrow> int list \<Rightarrow> time \<Rightarrow> tunnel_manager \<Rightarrow> tunnel_stats list" where
  "ListTunnelsForDashboard oh ot now tm = map (tunnel_stats_of now) (ListTunnels oh ot tm)"

definition TunnelsForToken :: "string list \<Rightarrow> int list \<Rightarrow> time \<Rightarrow> string \<Rightarrow> tunnel_manager \<Rightarrow> tunnel_stats list" where
  "TunnelsForToken oh ot now token tm =
     map (tunnel_stats_of now) (filter (\<lambda>t. ts_Token t = token) (ListTunnels oh ot tm))"

record aggregate_stats =
  ag_ActiveHTTP :: int
  ag_ActiveTCP :: int
  ag_TotalTunnels :: int
  ag_BytesIn :: int
  ag_BytesOut :: int

definition StatsForDashboard :: "string list \<Rightarrow> int list \<Rightarrow> tunnel_manager \<Rightarrow> aggregate_stats" where
  "StatsForDashboard oh ot tm =
     (let s = Stats oh ot tm in
      \<lparr>ag_ActiveHTTP = ActiveHTTP s, ag_ActiveTCP = ActiveTCP s, ag_TotalTunnels = TotalTunnels s,
       ag_BytesIn = st_BytesIn s, ag_BytesOut = st_BytesOut s\<rparr>)"

subsection \<open>Killing tunnels\<close>

definition has_ID :: "string \<Rightarrow> ('k \<rightharpoonup> tunnel_session) \<Rightarrow> 'k \<Rightarrow> bool" where
  "has_ID i m k \<longleftrightarrow> (case m k of None \<Rightarrow> False | Some s \<Rightarrow> ts_ID s = i)"

definition KillTunnelByID :: "string list \<Rightarrow> int list \<Rightarrow> string \<Rightarrow> tunnel_manager \<Rightarrow> bool \<times> tunnel_manager" where
  "KillTunnelByID oh ot i tm =
     (case find (has_ID i (httpTunnels tm)) oh of
        Some sub \<Rightarrow>
          (case httpTunnels tm sub of
             None \<Rightarrow> (False, tm)
           | Some s \<Rightarrow>
               (True, (close_session (ts_Session s) tm)\<lparr>httpTunnels := (httpTunnels tm)(sub := None)\<rparr>))
      | None \<Rightarrow>
          (case find (has_ID i (tcpTunnels tm)) ot of
             Some port \<Rightarrow>
               (case tcpTunnels tm port of
                  None \<Rightarrow> (False, tm)
                | Some s \<Rightarrow>
                    (True, (close_session (ts_Session s) (close_listener (ts_Listener s) tm))
                             \<lparr>tcpTunnels := (tcpTunnels tm)(port := None)\<rparr>))
           | None \<Rightarrow> (False, tm)))"

text \<open>
  One tick of the goroutine of \<open>StartAnonymousExpiry\<close>: collect the IDs of the anonymous tunnels
  older than \<open>ttl\<close> under the read lock, then kill them one by one; each kill ranges over the maps in
  an order of its own.
\<close>

definition expired_anon :: "string list \<Rightarrow> int list \<Rightarrow> duration \<Rightarrow> time \<Rightarrow> tunnel_manager \<Rightarrow> string list" where
  "expired_anon oh ot ttl now tm =
     map ts_ID (filter (\<lambda>s. is_anon (ts_Token s) \<and> \<not> ts_Reserved s \<and> now - ts_CreatedAt s > ttl)
                 (range_vals oh (httpTunnels tm))) @
     map ts_ID (filter (\<lambda>s. is_anon (ts_Token s) \<and> now - ts_CreatedAt s > ttl)
                 (range_vals ot (tcpTunnels tm)))"

fun kill_each :: "(string \<Rightarrow> string list \<times> int list) \<Rightarrow> string list \<Rightarrow> tunnel_manager \<Rightarrow> tunnel_manager" where
  "kill_each ords [] tm = tm"
| "kill_each ords (i # is) tm =
     kill_each ords is (snd (KillTunnelByID (fst (ords i)) (snd (ords i)) i tm))"

definition AnonymousExpiry ::
    "string list \<Rightarrow> int list \<Rightarrow> (string \<Rightarrow> string list \<times> int list) \<Rightarrow> duration \<Rightarrow> time \<Rightarrow>
     tunnel_manager \<Rightarrow> tunnel_manager" where
  "AnonymousExpiry oh ot ords ttl now tm = kill_each ords (expired_anon oh ot ttl now tm) tm"

subsection \<open>Byte counters\<close>

text \<open>
  When a proxied connection of a tunnel ends, \<open>handleTCPConn\<close> adds what it copied to the session
  (\<open>BytesIn\<close> and \<open>BytesOut\<close>), and \<open>streamCloser.Close\<close> adds the response body to \<open>BytesOut\<close>. The code
  holds a pointer to the session, so the identifier goes with the request: an entry that has been
  replaced or removed meanwhile is not touched. The counters stay far below the 63 bits of an \<open>int64\<close>.
\<close>

definition count_tcp_bytes :: "string \<Rightarrow> int \<Rightarrow> int \<Rightarrow> int \<Rightarrow> tunnel_manager \<Rightarrow> tunnel_manager" where
  "count_tcp_bytes ident port n_in n_out tm =
     (case tcpTunnels tm port of
        None \<Rightarrow> tm
      | Some s \<Rightarrow>
          if ts_ID s = ident
          then tm\<lparr>tcpTunnels := (tcpTunnels tm)
                 (port \<mapsto> s\<lparr>ts_BytesIn := ts_BytesIn s + n_in, ts_BytesOut := ts_BytesOut s + n_out\<rparr>)\<rparr>
          else tm)"

definition count_http_bytes :: "string \<Rightarrow> string \<Rightarrow> int \<Rightarrow> tunnel_manager \<Rightarrow> tunnel_manager" where
  "count_http_bytes ident sub n_read tm =
     (case httpTunnels tm sub of
        None \<Rightarrow> tm
      | Some s \<Rightarrow>
          if ts_ID s = ident
          then tm\<lparr>httpTunnels := (httpTunnels tm)(sub \<mapsto> s\<lparr>ts_BytesOut := ts_BytesOut s + n_read\<rparr>)\<rparr>
          else tm)"

end
