(* ===== verification/Tunnel_Proofs.thy ===== *)
theory Tunnel_Proofs
  imports Tunnel_Manager
begin

text \<open>
  The registry's invariant and its preservation by every operation, the contract of a name
  registry (locale \<open>name_registry\<close>) with the HTTP side of the manager as its interpretation, and the
  functional behaviour of registration, reservation, lookup, statistics and killing.
\<close>

subsection \<open>The invariant\<close>

definition http_entry_ok :: "string \<Rightarrow> tunnel_session \<Rightarrow> bool" where
  "http_entry_ok sub s \<longleftrightarrow>
     ts_Subdomain s = sub \<and> ts_Type s = ''http'' \<and> ValidateSubdomain sub = None"

definition tcp_entry_ok :: "int \<Rightarrow> int \<Rightarrow> int \<Rightarrow> tunnel_session \<Rightarrow> bool" where
  "tcp_entry_ok lo hi port s \<longleftrightarrow>
     ts_Port s = port \<and> ts_Type s = ''tcp'' \<and> ts_Listener s = Some port \<and> lo \<le> port \<and> port \<le> hi"

definition tm_inv :: "tunnel_manager \<Rightarrow> bool" where
  "tm_inv tm \<longleftrightarrow>
     finite (dom (httpTunnels tm)) \<and> finite (dom (tcpTunnels tm)) \<and>
     (\<forall>sub s. httpTunnels tm sub = Some s \<longrightarrow> http_entry_ok sub s) \<and>
     (\<forall>port s. tcpTunnels tm port = Some s \<longrightarrow> tcp_entry_ok (portMin tm) (portMax tm) port s) \<and>
     tm_listening tm = dom (tcpTunnels tm)"

lemma tm_inv_finite: "tm_inv tm \<Longrightarrow> finite (dom (httpTunnels tm))" "tm_inv tm \<Longrightarrow> finite (dom (tcpTunnels tm))"
  by (simp_all add: tm_inv_def)

lemma tm_inv_http: "tm_inv tm \<Longrightarrow> httpTunnels tm sub = Some s \<Longrightarrow> http_entry_ok sub s"
  by (simp add: tm_inv_def)

lemma tm_inv_tcp:
  "tm_inv tm \<Longrightarrow> tcpTunnels tm port = Some s \<Longrightarrow> tcp_entry_ok (portMin tm) (portMax tm) port s"
  by (simp add: tm_inv_def)

lemma tm_inv_new [inv_intros]: "tm_inv (NewTunnelManager lo hi)"
  by (simp add: tm_inv_def NewTunnelManager_def)

text \<open>Three shapes of change keep it: store an HTTP entry, drop HTTP entries, drop a TCP entry.\<close>

lemma tm_inv_store_http:
  "tm_inv tm \<Longrightarrow> http_entry_ok sub s \<Longrightarrow> tm_inv (tm\<lparr>httpTunnels := (httpTunnels tm)(sub \<mapsto> s)\<rparr>)"
  by (simp add: tm_inv_def)

lemma tm_inv_drop_http:
  assumes "tm_inv tm" and "\<And>k v. m k = Some v \<Longrightarrow> httpTunnels tm k = Some v"
  shows "tm_inv (tm\<lparr>httpTunnels := m\<rparr>)"
proof -
  have "dom m \<subseteq> dom (httpTunnels tm)" using assms(2) by auto
  then have "finite (dom m)" using tm_inv_finite(1) [OF assms(1)] by (rule finite_subset)
  then show ?thesis using assms by (simp add: tm_inv_def)
qed

lemma tm_inv_drop_tcp:
  "tm_inv tm \<Longrightarrow> tm_inv (tm\<lparr>tcpTunnels := (tcpTunnels tm)(port := None),
     tm_listening := tm_listening tm - {port}\<rparr>)"
  by (auto simp: tm_inv_def)

lemma tm_inv_closed [simp]: "tm_inv (tm\<lparr>tm_closed := c\<rparr>) = tm_inv tm"
  by (simp add: tm_inv_def)

lemma tm_inv_UnregisterHTTP [inv_intros]: "tm_inv tm \<Longrightarrow> tm_inv (UnregisterHTTP sub tm)"
  unfolding UnregisterHTTP_def by (rule tm_inv_drop_http) (auto split: if_splits)

lemma tm_inv_RegisterHTTP [inv_intros]:
  assumes "tm_inv tm" and "ts_Subdomain s = sub" and "ts_Type s = ''http''"
  shows "tm_inv (snd (RegisterHTTP sub s now tm))"
  using assms tm_inv_store_http [of tm sub "s\<lparr>ts_CreatedAt := now\<rparr>"]
  by (auto simp: RegisterHTTP_def http_entry_ok_def Let_def split: option.splits)

lemma tm_inv_ReserveHTTP [inv_intros]: "tm_inv tm \<Longrightarrow> tm_inv (ReserveHTTP sub ttl now tm)"
  by (auto simp: ReserveHTTP_def http_entry_ok_def intro!: tm_inv_store_http
      dest: tm_inv_http split: option.splits)

lemma tm_inv_reaper [inv_intros]: "tm_inv tm \<Longrightarrow> tm_inv (reservationReaper now tm)"
  unfolding reservationReaper_def by (rule tm_inv_drop_http) auto

lemma UnregisterTCP_eq:
  "tm_inv tm \<Longrightarrow> UnregisterTCP port tm =
     tm\<lparr>tcpTunnels := (tcpTunnels tm)(port := None), tm_listening := tm_listening tm - {port}\<rparr>"
proof (cases "tcpTunnels tm port")
  case None
  assume "tm_inv tm"
  then have "port \<notin> tm_listening tm" using None by (auto simp: tm_inv_def)
  then show ?thesis using None by (simp add: UnregisterTCP_def Let_def)
next
  case (Some s)
  assume "tm_inv tm"
  then show ?thesis using Some tm_inv_tcp [of tm port s]
    by (simp add: UnregisterTCP_def Let_def tcp_entry_ok_def close_listener_def)
qed

lemma tm_inv_UnregisterTCP [inv_intros]: "tm_inv tm \<Longrightarrow> tm_inv (UnregisterTCP port tm)"
  by (simp add: UnregisterTCP_eq tm_inv_drop_tcp)

lemma tm_inv_count_tcp [inv_intros]: "tm_inv tm \<Longrightarrow> tm_inv (count_tcp_bytes ident port i out tm)"
  by (auto simp: count_tcp_bytes_def tm_inv_def tcp_entry_ok_def split: option.splits)

lemma tm_inv_count_http [inv_intros]: "tm_inv tm \<Longrightarrow> tm_inv (count_http_bytes ident sub n tm)"
  by (auto simp: count_http_bytes_def http_entry_ok_def intro!: tm_inv_store_http
      dest: tm_inv_http split: option.splits)

subsection \<open>Killing\<close>

lemma find_has_ID:
  "find (has_ID i m) ks = Some k \<Longrightarrow> \<exists>s. m k = Some s \<and> ts_ID s = i"
  by (auto simp: find_Some_iff has_ID_def split: option.splits)

lemma find_has_ID_None:
  "covers ks m \<Longrightarrow> find (has_ID i m) ks = None \<longleftrightarrow> (\<forall>k s. m k = Some s \<longrightarrow> ts_ID s \<noteq> i)"
  by (auto simp: find_None_iff has_ID_def covers_def split: option.splits)

text \<open>A kill has three outcomes.\<close>

lemma KillTunnelByID_cases:
  assumes "KillTunnelByID oh ot i tm = (b, tm')"
  obtains
    (http) sub s where "b" "httpTunnels tm sub = Some s" "ts_ID s = i"
      "tm' = (close_session (ts_Session s) tm)\<lparr>httpTunnels := (httpTunnels tm)(sub := None)\<rparr>"
  | (tcp) port s where "b" "tcpTunnels tm port = Some s" "ts_ID s = i"
      "find (has_ID i (httpTunnels tm)) oh = None"
      "tm' = (close_session (ts_Session s) (close_listener (ts_Listener s) tm))
               \<lparr>tcpTunnels := (tcpTunnels tm)(port := None)\<rparr>"
  | (none) "\<not> b" "tm' = tm" "find (has_ID i (httpTunnels tm)) oh = None"
      "find (has_ID i (tcpTunnels tm)) ot = None"
proof (cases "find (has_ID i (httpTunnels tm)) oh")
  case (Some sub)
  with find_has_ID [OF Some] assms http show thesis
    by (auto simp: KillTunnelByID_def)
next
  case noHttp: None
  show thesis
  proof (cases "find (has_ID i (tcpTunnels tm)) ot")
    case (Some port)
    with find_has_ID [OF Some] noHttp assms tcp show thesis
      by (auto simp: KillTunnelByID_def)
  next
    case None
    with noHttp assms none show thesis by (auto simp: KillTunnelByID_def)
  qed
qed

lemma close_session_sel [simp]:
  "httpTunnels (close_session y tm) = httpTunnels tm" "tcpTunnels (close_session y tm) = tcpTunnels tm"
  "portMin (close_session y tm) = portMin tm" "portMax (close_session y tm) = portMax tm"
  "tm_listening (close_session y tm) = tm_listening tm"
  by (simp_all add: close_session_def split: option.splits)

lemma close_listener_sel [simp]:
  "httpTunnels (close_listener y tm) = httpTunnels tm" "tcpTunnels (close_listener y tm) = tcpTunnels tm"
  "portMin (close_listener y tm) = portMin tm" "portMax (close_listener y tm) = portMax tm"
  "tm_closed (close_listener y tm) = tm_closed tm"
  by (simp_all add: close_listener_def split: option.splits)

lemma tm_inv_Kill [inv_intros]: "tm_inv tm \<Longrightarrow> tm_inv (snd (KillTunnelByID oh ot i tm))"
proof -
  assume inv: "tm_inv tm"
  obtain b tm' where k: "KillTunnelByID oh ot i tm = (b, tm')" by fastforce
  then show ?thesis
  proof (cases rule: KillTunnelByID_cases)
    case (http sub s)
    then show ?thesis using inv k by (auto simp: tm_inv_def)
  next
    case (tcp port s)
    then have "ts_Listener s = Some port" using tm_inv_tcp [OF inv] by (simp add: tcp_entry_ok_def)
    then show ?thesis using inv k tcp
      by (auto simp: tm_inv_def close_session_def close_listener_def split: option.splits)
  next
    case none
    then show ?thesis using inv k by simp
  qed
qed

lemma tm_inv_kill_each [inv_intros]: "tm_inv tm \<Longrightarrow> tm_inv (kill_each ords is tm)"
  by (induction ords "is" tm rule: kill_each.induct) (simp_all add: tm_inv_Kill)

lemma tm_inv_AnonymousExpiry [inv_intros]: "tm_inv tm \<Longrightarrow> tm_inv (AnonymousExpiry oh ot ords ttl now tm)"
  by (simp add: AnonymousExpiry_def tm_inv_kill_each)

subsection \<open>Allocating a TCP port\<close>

text \<open>What other goroutines may do between the critical sections: keep the invariant and the range.\<close>

definition env_ok :: "(nat \<Rightarrow> tcp_attempt) \<Rightarrow> bool" where
  "env_ok att \<longleftrightarrow> (\<forall>n tm. tm_inv tm \<longrightarrow> tm_inv (at_env (att n) tm) \<and>
     portMin (at_env (att n) tm) = portMin tm \<and> portMax (at_env (att n) tm) = portMax tm)"

definition quiet :: "(nat \<Rightarrow> tcp_attempt) \<Rightarrow> bool" where
  "quiet att \<longleftrightarrow> (\<forall>n. at_env (att n) = id)"

lemma quiet_env_ok: "quiet att \<Longrightarrow> env_ok att"
  by (simp add: quiet_def env_ok_def)

text \<open>
  The outcome of the attempts, whatever the others do: some state \<open>tm1\<close> of the manager, in which the
  port was free for this process and for the registry, was extended by the new tunnel.
\<close>

lemma register_tcp_from_spec:
  assumes "env_ok att" and "tm_inv tm" and "ts_Type s = ''tcp''"
    and "register_tcp_from n att s now tm = (r, tm')"
  shows "tm_inv tm' \<and> portMin tm' = portMin tm \<and> portMax tm' = portMax tm \<and>
    (\<forall>port. r = Inr port \<longrightarrow> portMin tm \<le> port \<and> port \<le> portMax tm \<and>
       (\<exists>tm1. tm_inv tm1 \<and> tcpTunnels tm1 port = None \<and> port \<notin> tm_listening tm1 \<and>
          tm' = tm1\<lparr>tcpTunnels := (tcpTunnels tm1)
                      (port \<mapsto> s\<lparr>ts_Port := port, ts_Listener := Some port, ts_CreatedAt := now\<rparr>),
                    tm_listening := insert port (tm_listening tm1)\<rparr>))"
  using assms(2,4)
proof (induction n arbitrary: tm)
  case 0
  then show ?case by auto
next
  case (Suc n)
  define port where "port = portMin tm + int (at_draw (att n) mod nat (portMax tm - portMin tm + 1))"
  define tm1 where "tm1 = at_env (att n) tm"
  have tm1: "tm_inv tm1" "portMin tm1 = portMin tm" "portMax tm1 = portMax tm"
    using assms(1) Suc.prems(1) by (auto simp: env_ok_def tm1_def)
  show ?case
  proof (cases "portMax tm - portMin tm + 1 \<le> 0")
    case True
    then show ?thesis using Suc.prems by (auto simp: Let_def)
  next
    case pos: False
    then have "at_draw (att n) mod nat (portMax tm - portMin tm + 1) < nat (portMax tm - portMin tm + 1)"
      by simp
    then have range: "portMin tm \<le> port" "port \<le> portMax tm"
      unfolding port_def by linarith+
    have retry: "register_tcp_from n att s now tm1 = (r, tm') \<Longrightarrow> ?thesis"
      using Suc.IH [OF tm1(1)] tm1(2,3) by simp
    show ?thesis
    proof (cases "tcpTunnels tm port \<noteq> None \<or> port \<in> at_busy (att n) \<or> port \<in> tm_listening tm1 \<or>
        tcpTunnels tm1 port \<noteq> None")
      case True
      then have "register_tcp_from n att s now tm1 = (r, tm')"
        using Suc.prems(2) pos by (auto simp: Let_def port_def tm1_def split: if_splits)
      then show ?thesis by (rule retry)
    next
      case False
      let ?s = "s\<lparr>ts_Port := port, ts_Listener := Some port, ts_CreatedAt := now\<rparr>"
      let ?tm = "tm1\<lparr>tcpTunnels := (tcpTunnels tm1)(port \<mapsto> ?s), tm_listening := insert port (tm_listening tm1)\<rparr>"
      have res: "r = Inr port \<and> tm' = ?tm"
        using Suc.prems(2) pos False by (auto simp: Let_def port_def tm1_def split: if_splits)
      have "tm_inv ?tm"
        using tm1 range assms(3) by (auto simp: tm_inv_def tcp_entry_ok_def)
      moreover have "tcpTunnels tm1 port = None" "port \<notin> tm_listening tm1" using False by auto
      ultimately show ?thesis using res range tm1 by (auto intro!: exI [of _ tm1] simp: fun_upd_def)
    qed
  qed
qed

lemma tm_inv_RegisterTCP [inv_intros]:
  assumes "env_ok att" and "tm_inv tm" and "ts_Type s = ''tcp''"
  shows "tm_inv (snd (RegisterTCP att s now tm))"
  using register_tcp_from_spec [OF assms, of maxAttempts now] by (cases "RegisterTCP att s now tm")
    (simp add: RegisterTCP_def)

text \<open>Without interference, a failed allocation leaves the manager as it was.\<close>

lemma register_tcp_from_quiet:
  assumes "quiet att"
  shows "register_tcp_from n att s now tm = (Inl e, tm') \<Longrightarrow> tm' = tm"
proof (induction n)
  case 0
  then show ?case by simp
next
  case (Suc n)
  have "at_env (att n) = id" using assms by (simp add: quiet_def)
  with Suc show ?case by (auto simp: Let_def split: if_splits)
qed

lemma register_tcp_from_panic:
  assumes "quiet att"
  shows "fst (register_tcp_from (Suc n) att s now tm) = Inl RandPanic \<longleftrightarrow> portMax tm < portMin tm"
proof (induction n)
  case 0
  have "at_env (att 0) = id" using assms by (simp add: quiet_def)
  then show ?case by (auto simp: Let_def)
next
  case (Suc n)
  have "at_env (att (Suc n)) = id" using assms by (simp add: quiet_def)
  then show ?case using Suc.IH
    by (subst register_tcp_from.simps) (auto simp: Let_def simp del: register_tcp_from.simps)
qed

lemma register_tcp_from_found:
  assumes "quiet att" and "portMin tm \<le> portMax tm" and "k < n"
    and free: "let port = portMin tm + int (at_draw (att k) mod nat (portMax tm - portMin tm + 1)) in
      tcpTunnels tm port = None \<and> port \<notin> at_busy (att k) \<and> port \<notin> tm_listening tm"
  shows "\<exists>port tm'. register_tcp_from n att s now tm = (Inr port, tm')"
  using assms(3)
proof (induction n)
  case 0
  then show ?case by simp
next
  case (Suc n)
  have idn: "at_env (att n) = id" using assms(1) by (simp add: quiet_def)
  show ?case
  proof (cases "k = n")
    case True
    then show ?thesis using free assms(2) idn by (simp add: Let_def)
  next
    case False
    then have "\<exists>port tm'. register_tcp_from n att s now tm = (Inr port, tm')"
      using Suc by simp
    then show ?thesis using assms(2) idn by (simp add: Let_def)
  qed
qed

lemma register_tcp_stores:
  assumes "quiet att" and "register_tcp_from n att s now tm = (Inr port, tm')"
  shows "tcpTunnels tm port = None \<and> portMin tm \<le> port \<and> port \<le> portMax tm \<and>
    tm' = tm\<lparr>tcpTunnels := (tcpTunnels tm)
                (port \<mapsto> s\<lparr>ts_Port := port, ts_Listener := Some port, ts_CreatedAt := now\<rparr>),
              tm_listening := insert port (tm_listening tm)\<rparr>"
  using assms(2)
proof (induction n)
  case (Suc n)
  have idn: "at_env (att n) = id" using assms(1) by (simp add: quiet_def)
  define p where "p = portMin tm + int (at_draw (att n) mod nat (portMax tm - portMin tm + 1))"
  show ?case
  proof (cases "portMax tm - portMin tm + 1 \<le> 0")
    case False
    then have "at_draw (att n) mod nat (portMax tm - portMin tm + 1) < nat (portMax tm - portMin tm + 1)" by simp
    then have range: "portMin tm \<le> p" "p \<le> portMax tm" unfolding p_def by linarith+
    have "register_tcp_from n att s now tm = (Inr port, tm') \<or> port = p \<and> tcpTunnels tm p = None \<and>
        tm' = tm\<lparr>tcpTunnels := (tcpTunnels tm)(p \<mapsto> s\<lparr>ts_Port := p, ts_Listener := Some p, ts_CreatedAt := now\<rparr>),
                tm_listening := insert p (tm_listening tm)\<rparr>"
      using Suc.prems False idn by (auto simp: Let_def p_def split: if_splits)
    then show ?thesis
    proof (elim disjE conjE)
      assume "register_tcp_from n att s now tm = (Inr port, tm')"
      then show ?thesis by (rule Suc.IH)
    next
      assume "port = p" "tcpTunnels tm p = None"
        "tm' = tm\<lparr>tcpTunnels := (tcpTunnels tm)(p \<mapsto> s\<lparr>ts_Port := p, ts_Listener := Some p, ts_CreatedAt := now\<rparr>),
                tm_listening := insert p (tm_listening tm)\<rparr>"
      then show ?thesis using range by (simp only: simp_thms)
    qed
  qed (use Suc.prems in \<open>simp add: Let_def\<close>)
qed simp

subsection \<open>Name registries\<close>

text \<open>
  The contract the server and the HTTP proxy rely on: a registration either fails and changes
  nothing, or it makes its own session the active one of a name that had none; other names are not
  touched; nothing but unregistering frees an active name.
\<close>

fun register_all :: "('n \<Rightarrow> 's \<Rightarrow> 'r \<Rightarrow> 'e option \<times> 'r) \<Rightarrow> ('n \<times> 's) list \<Rightarrow> 'r \<Rightarrow> 'r" where
  "register_all reg [] r = r"
| "register_all reg ((n, s) # reqs) r = register_all reg reqs (snd (reg n s r))"

locale name_registry =
  fixes register :: "'n \<Rightarrow> 's \<Rightarrow> 'r \<Rightarrow> 'e option \<times> 'r"
    and unregister :: "'n \<Rightarrow> 'r \<Rightarrow> 'r"
    and active :: "'r \<Rightarrow> 'n \<Rightarrow> 't option"
    and stamped :: "'s \<Rightarrow> 't"
    and fresh :: "'s \<Rightarrow> bool"
  assumes register_fails: "register n s r = (Some e, r') \<Longrightarrow> r' = r"
    and register_active: "fresh s \<Longrightarrow> register n s r = (None, r') \<Longrightarrow> active r' n = Some (stamped s)"
    and register_other: "register n s r = (res, r') \<Longrightarrow> m \<noteq> n \<Longrightarrow> active r' m = active r m"
    and register_free: "register n s r = (None, r') \<Longrightarrow> active r n = None"
    and unregister_active: "active (unregister n r) = (active r)(n := None)"
begin

lemma register_keeps:
  assumes "active r m = Some t" and "register n s r = (res, r')"
  shows "active r' m = Some t"
proof (cases res)
  case None
  then have "m \<noteq> n" using register_free assms by fastforce
  then show ?thesis using register_other assms by metis
next
  case (Some e)
  then show ?thesis using register_fails assms by metis
qed

lemma register_all_keeps: "active r m = Some t \<Longrightarrow> active (register_all register reqs r) m = Some t"
proof (induction reqs arbitrary: r)
  case (Cons q reqs)
  obtain n s where q: "q = (n, s)" by fastforce
  have "active (snd (register n s r)) m = Some t"
    using register_keeps [OF Cons.prems] by (metis prod.collapse)
  then show ?case using Cons.IH q by simp
qed simp

lemma second_register_fails: "active r n = Some t \<Longrightarrow> fst (register n s r) \<noteq> None"
  using register_free [of n s r "snd (register n s r)"] by (cases "register n s r") auto

lemma freed_by_unregister:
  "active (unregister n (register_all register reqs r)) n = None"
  by (simp add: unregister_active)

end

definition unreserved :: "tunnel_session \<Rightarrow> bool" where
  "unreserved s \<longleftrightarrow> \<not> ts_Reserved s"

definition register_request :: "string \<Rightarrow> tunnel_session \<times> time \<Rightarrow> tunnel_manager \<Rightarrow>
    reg_error option \<times> tunnel_manager" where
  "register_request n q = RegisterHTTP n (fst q) (snd q)"

definition stamp :: "tunnel_session \<times> time \<Rightarrow> tunnel_session" where
  "stamp q = (fst q)\<lparr>ts_CreatedAt := snd q\<rparr>"

lemmas register_request_defs = register_request_def RegisterHTTP_def LookupHTTP_def unreserved_def
  stamp_def Let_def

interpretation http_names: name_registry
  register_request UnregisterHTTP LookupHTTP stamp "\<lambda>q. unreserved (fst q)"
proof unfold_locales
  fix n s r e r'
  assume "register_request n s r = (Some e, r')"
  then show "r' = r" by (auto simp: register_request_defs split: option.splits if_splits)
next
  fix n s r r'
  assume "unreserved (fst s)" and "register_request n s r = (None, r')"
  then show "LookupHTTP r' n = Some (stamp s)"
    by (auto simp: register_request_defs split: option.splits if_splits)
next
  fix n s r res r' m
  assume "register_request n s r = (res, r')" and "m \<noteq> n"
  then show "LookupHTTP r' m = LookupHTTP r m"
    by (auto simp: register_request_defs split: option.splits if_splits)
next
  fix n s r r'
  assume "register_request n s r = (None, r')"
  then show "LookupHTTP r n = None"
    by (auto simp: register_request_defs split: option.splits if_splits)
next
  fix n r
  show "LookupHTTP (UnregisterHTTP n r) = (LookupHTTP r)(n := None)"
    by (rule ext) (simp add: UnregisterHTTP_def LookupHTTP_def)
qed

subsection \<open>Order of iteration\<close>

lemma mset_range_vals:
  assumes "covers a m" and "covers b m"
  shows "mset (range_vals a m) = mset (range_vals b m)"
proof (rule multiset_eqI)
  fix v
  have "count (mset xs) v = length (filter (\<lambda>x. x = v) xs)" for xs :: "'b list"
    by (induction xs) auto
  then show "count (mset (range_vals a m)) v = count (mset (range_vals b m)) v"
    using length_filter_range_vals [OF assms(1), of "\<lambda>x. x = v"]
      length_filter_range_vals [OF assms(2), of "\<lambda>x. x = v"] by simp
qed

lemma stats_http_eq:
  "stats_http s xs = (let ys = filter (\<lambda>t. \<not> ts_Reserved t) xs in
     s\<lparr>ActiveHTTP := ActiveHTTP s + int (length ys),
       st_BytesIn := st_BytesIn s + sum_mset (image_mset ts_BytesIn (mset ys)),
       st_BytesOut := st_BytesOut s + sum_mset (image_mset ts_BytesOut (mset ys))\<rparr>)"
  by (induction xs arbitrary: s) (simp_all add: Let_def)

lemma stats_tcp_eq:
  "stats_tcp s xs =
     s\<lparr>ActiveTCP := ActiveTCP s + int (length xs),
       st_BytesIn := st_BytesIn s + sum_mset (image_mset ts_BytesIn (mset xs)),
       st_BytesOut := st_BytesOut s + sum_mset (image_mset ts_BytesOut (mset xs))\<rparr>"
  by (induction xs arbitrary: s) simp_all

end
