(* ===== verification/Tunnel_Properties.thy ===== *)
theory Tunnel_Properties
  imports Tunnel_Proofs
begin

text \<open>
  The properties of the tunnel registry: well-formed in every reachable state, first come first
  served, the life of a reservation, port allocation under interference, killing, expiry of
  anonymous tunnels, and statistics that do not depend on the order of iteration.
\<close>

subsection \<open>The registry as a state machine\<close>

text \<open>One rule per operation of the manager, with every argument the callers can choose.\<close>

inductive tm_step :: "tunnel_manager \<Rightarrow> tunnel_manager \<Rightarrow> bool" where
  register_http: "ts_Subdomain s = sub \<Longrightarrow> ts_Type s = ''http'' \<Longrightarrow>
     tm_step tm (snd (RegisterHTTP sub s now tm))"
| unregister_http: "tm_step tm (UnregisterHTTP sub tm)"
| reserve_http: "tm_step tm (ReserveHTTP sub ttl now tm)"
| reap: "tm_step tm (reservationReaper now tm)"
| start_tcp: "env_ok att \<Longrightarrow> ts_Type s = ''tcp'' \<Longrightarrow> tm_step tm (snd (StartTCPTunnel att s now tm))"
| stop_tcp: "tm_step tm (StopTCPTunnel port tm)"
| kill: "tm_step tm (snd (KillTunnelByID oh ot i tm))"
| expire: "tm_step tm (AnonymousExpiry oh ot ords ttl now tm)"
| tcp_bytes: "tm_step tm (count_tcp_bytes ident port n_in n_out tm)"
| http_bytes: "tm_step tm (count_http_bytes ident sub n_read tm)"

lemma snd_StartTCPTunnel [simp]: "StartTCPTunnel att s now tm = RegisterTCP att s now tm"
  by (auto simp: StartTCPTunnel_def split: prod.splits sum.splits)

lemma tm_inv_step: "tm_inv tm \<Longrightarrow> tm_step tm tm' \<Longrightarrow> tm_inv tm'"
  by (erule tm_step.cases) (auto simp: StopTCPTunnel_def intro: inv_intros)

interpretation registry: state_machine "NewTunnelManager lo hi" tm_step tm_inv for lo hi
  by unfold_locales (fact tm_inv_new, fact tm_inv_step)

text \<open>
  C9: In every state the registry can reach, an HTTP entry is stored under its own, valid and not
  reserved name (so \<open>dashboard\<close>, \<open>admin\<close> and \<open>www\<close> never belong to a tunnel), a TCP entry under its
  own port, and the ports this process listens on are exactly the ports of the TCP entries: no
  listener is leaked and none is missing.
\<close>

theorem registry_well_formed:
  assumes "tm_step\<^sup>*\<^sup>* (NewTunnelManager lo hi) tm"
  shows "(httpTunnels tm sub = Some s \<longrightarrow>
      ts_Subdomain s = sub \<and> ts_Type s = ''http'' \<and> label_shape sub \<and> sub \<notin> reservedSubdomains) \<and>
    (tcpTunnels tm port = Some t \<longrightarrow> ts_Port t = port \<and> ts_Listener t = Some port) \<and>
    tm_listening tm = dom (tcpTunnels tm)"
proof -
  have inv: "tm_inv tm" using assms by (rule registry.good_run)
  then show ?thesis
    using tm_inv_http [OF inv, of sub s] tm_inv_tcp [OF inv, of port t]
    by (auto simp: http_entry_ok_def tcp_entry_ok_def ValidateSubdomain_None tm_inv_def)
qed

definition a_session :: tunnel_session where
  "a_session = \<lparr>ts_ID = ''id1'', ts_Token = ''tok'', ts_Type = ''http'', ts_Subdomain = ''myapp'',
     ts_Port = 0, ts_LocalPort = 3000, ts_Session = Some 1, ts_Listener = None, ts_ControlEnc = Some 1,
     ts_CreatedAt = 0, ts_BytesIn = 0, ts_BytesOut = 0, ts_Reserved = False, ts_ReservedUntil = 0\<rparr>"

lemma a_session_sel [simp]:
  "ts_Token a_session = ''tok''" "ts_Type a_session = ''http''" "ts_Subdomain a_session = ''myapp''"
  "ts_Reserved a_session = False" "ts_Session a_session = Some 1" "ts_ID a_session = ''id1''"
  by (simp_all add: a_session_def)

lemma valid_myapp: "ValidateSubdomain ''myapp'' = None"
  by (simp add: ValidateSubdomain_None label_shape_def lower_alnum_def lower_alnum_hyphen_def Let_def
      reservedSubdomains_def)

definition a_manager :: tunnel_manager where
  "a_manager = snd (RegisterHTTP ''myapp'' a_session 5 (NewTunnelManager 10000 65535))"

lemma a_manager_reachable: "tm_step\<^sup>*\<^sup>* (NewTunnelManager 10000 65535) a_manager"
  unfolding a_manager_def
  by (rule r_into_rtranclp, rule tm_step.register_http) (simp_all add: a_session_def)

lemma a_manager_eq: "a_manager = (NewTunnelManager 10000 65535)
    \<lparr>httpTunnels := [''myapp'' \<mapsto> a_session\<lparr>ts_CreatedAt := 5\<rparr>]\<rparr>"
  by (simp add: a_manager_def RegisterHTTP_def valid_myapp NewTunnelManager_def Let_def)

lemma a_manager_simps:
  "httpTunnels a_manager = [''myapp'' \<mapsto> a_session\<lparr>ts_CreatedAt := 5\<rparr>]"
  "tcpTunnels a_manager = Map.empty" "tm_listening a_manager = {}" "tm_closed a_manager = {}"
  "portMin a_manager = 10000" "portMax a_manager = 65535"
  by (simp_all add: a_manager_eq NewTunnelManager_def)

theorem registry_well_formed_witness:
  "httpTunnels a_manager ''myapp'' = Some (a_session\<lparr>ts_CreatedAt := 5\<rparr>) \<and>
   label_shape ''myapp'' \<and> tm_listening a_manager = dom (tcpTunnels a_manager)"
  using registry_well_formed [OF a_manager_reachable, of "''myapp''" "a_session\<lparr>ts_CreatedAt := 5\<rparr>"]
  by (simp add: a_manager_simps)

subsection \<open>First come, first served\<close>

text \<open>
  C20: An active name belongs to its session until that session is unregistered: whatever
  registrations arrive, with whatever tokens and at whatever times, a lookup of the name still
  returns the same session, and a registration of the name is refused and changes nothing.
\<close>

theorem active_name_kept:
  assumes "LookupHTTP tm sub = Some t"
  shows "LookupHTTP (register_all register_request reqs tm) sub = Some t \<and>
    (\<exists>e. RegisterHTTP sub s now tm = (Some e, tm))"
proof -
  obtain res tm' where r: "register_request sub (s, now) tm = (res, tm')" by fastforce
  then have "res \<noteq> None" using http_names.second_register_fails [OF assms, of "(s, now)"] by simp
  then obtain e where "res = Some e" by blast
  with r http_names.register_fails [of sub "(s, now)" tm e tm']
  show ?thesis using http_names.register_all_keeps [OF assms] by (simp add: register_request_def)
qed

theorem active_name_kept_witness:
  "LookupHTTP (register_all register_request
      [(''myapp'', (a_session\<lparr>ts_Token := ''other''\<rparr>, 6)), (''other-app'', (a_session, 7))] a_manager) ''myapp'' =
    Some (a_session\<lparr>ts_CreatedAt := 5\<rparr>)"
proof -
  have h: "LookupHTTP a_manager ''myapp'' = Some (a_session\<lparr>ts_CreatedAt := 5\<rparr>)"
    by (simp add: LookupHTTP_def a_manager_simps a_session_def)
  show ?thesis by (rule active_name_kept [OF h, THEN conjunct1])
qed

subsection \<open>Reservations\<close>

text \<open>
  C31: The life of a reservation. \<open>ReserveHTTP\<close> hides the tunnel from lookups but keeps its name
  taken. Before it expires only a session with the same token can register the name, and then takes
  it over; once it has expired nobody can, its owner included, until the reaper runs; the reaper
  leaves it alone up to the expiry and frees the name afterwards.
\<close>

theorem reservation_life:
  assumes "httpTunnels tm sub = Some old" and "ValidateSubdomain sub = None" and "unreserved s"
    and r: "r = ReserveHTTP sub ttl since tm"
  shows "LookupHTTP r sub = None \<and>
    (if now < since + ttl \<and> ts_Token s = ts_Token old
     then \<exists>r'. RegisterHTTP sub s now r = (None, r') \<and> LookupHTTP r' sub = Some (s\<lparr>ts_CreatedAt := now\<rparr>)
     else RegisterHTTP sub s now r = (Some (SubdomainInUse sub), r)) \<and>
    (if since + ttl < now
     then fst (RegisterHTTP sub s now (reservationReaper now r)) = None
     else httpTunnels (reservationReaper now r) sub = httpTunnels r sub)"
  using assms
  by (auto simp: ReserveHTTP_def LookupHTTP_def RegisterHTTP_def reservationReaper_def unreserved_def
      keep_entries_def Let_def)

theorem reservation_life_witness:
  "(\<exists>r'. RegisterHTTP ''myapp'' a_session 9 (ReserveHTTP ''myapp'' 60 5 a_manager) = (None, r')) \<and>
   RegisterHTTP ''myapp'' (a_session\<lparr>ts_Token := ''other''\<rparr>) 9 (ReserveHTTP ''myapp'' 60 5 a_manager) =
     (Some (SubdomainInUse ''myapp''), ReserveHTTP ''myapp'' 60 5 a_manager)"
proof -
  have h: "httpTunnels a_manager ''myapp'' = Some (a_session\<lparr>ts_CreatedAt := 5\<rparr>)"
    by (simp add: a_manager_simps)
  have u: "unreserved a_session" "unreserved (a_session\<lparr>ts_Token := ''other''\<rparr>)"
    by (simp_all add: unreserved_def)
  show ?thesis
    using reservation_life [OF h valid_myapp u(1) refl, where ttl = 60 and since = 5 and now = 9]
      reservation_life [OF h valid_myapp u(2) refl, where ttl = 60 and since = 5 and now = 9]
    by auto
qed

subsection \<open>TCP ports\<close>

text \<open>
  C32: Port allocation under any interference that keeps the registry well-formed: a port that
  \<open>RegisterTCP\<close> returns lies in the configured range, had neither a tunnel nor a listener of this
  process when it was stored, and now carries the caller's session with its listener; the storing
  changes nothing else, and the registry stays well-formed.
\<close>

theorem register_tcp_allocates:
  assumes "env_ok att" and "tm_inv tm" and "ts_Type s = ''tcp''"
    and "RegisterTCP att s now tm = (Inr port, tm')"
  shows "portMin tm \<le> port \<and> port \<le> portMax tm \<and> tm_inv tm' \<and>
    (\<exists>tm1. tm_inv tm1 \<and> tcpTunnels tm1 port = None \<and> port \<notin> tm_listening tm1 \<and>
      tm' = tm1\<lparr>tcpTunnels := (tcpTunnels tm1)
                  (port \<mapsto> s\<lparr>ts_Port := port, ts_Listener := Some port, ts_CreatedAt := now\<rparr>),
                tm_listening := insert port (tm_listening tm1)\<rparr>)"
  using register_tcp_from_spec [OF assms(1-3), of maxAttempts now "Inr port" tm'] assms(4)
  unfolding RegisterTCP_def by blast

definition first_free :: "nat \<Rightarrow> tcp_attempt" where
  "first_free n = \<lparr>at_draw = n, at_busy = {}, at_env = id\<rparr>"

lemma first_free_quiet: "quiet first_free"
  by (simp add: quiet_def first_free_def)

lemma first_free_result:
  "\<exists>tm'. RegisterTCP first_free s now (NewTunnelManager 10000 65535) = (Inr 10099, tm')"
proof -
  have m: "maxAttempts = Suc 99" by (simp add: maxAttempts_def)
  show ?thesis
    unfolding RegisterTCP_def m register_tcp_from.simps
    by (simp add: first_free_def NewTunnelManager_def Let_def)
qed

theorem register_tcp_allocates_witness:
  "\<exists>tm'. RegisterTCP first_free (a_session\<lparr>ts_Type := ''tcp''\<rparr>) 7 (NewTunnelManager 10000 65535) =
      (Inr 10099, tm') \<and> tm_inv tm'"
proof -
  obtain tm' where r: "RegisterTCP first_free (a_session\<lparr>ts_Type := ''tcp''\<rparr>) 7
      (NewTunnelManager 10000 65535) = (Inr 10099, tm')"
    using first_free_result by blast
  have "ts_Type (a_session\<lparr>ts_Type := ''tcp''\<rparr>) = ''tcp''" by simp
  from register_tcp_allocates [OF quiet_env_ok [OF first_free_quiet] tm_inv_new this r] r
  show ?thesis by blast
qed

text \<open>
  Undisturbed, the outcome of \<open>RegisterTCP\<close> is decided by the range and the draws: it panics
  exactly when the configured range is empty, it returns a port whenever one of its 100 draws finds a
  port without a tunnel and without another owner, and when it fails it leaves the registry as it was.
\<close>

theorem register_tcp_outcome:
  assumes "quiet att" and "tm_inv tm"
  shows "((\<exists>tm'. RegisterTCP att s now tm = (Inl RandPanic, tm')) \<longleftrightarrow> portMax tm < portMin tm) \<and>
    (portMin tm \<le> portMax tm \<and> k < 100 \<and>
       p = portMin tm + int (at_draw (att k) mod nat (portMax tm - portMin tm + 1)) \<and>
       tcpTunnels tm p = None \<and> p \<notin> at_busy (att k) \<longrightarrow>
     (\<exists>q tm'. RegisterTCP att s now tm = (Inr q, tm'))) \<and>
    (RegisterTCP att s now tm = (Inl e, tm2) \<longrightarrow> tm2 = tm)"
proof (intro conjI impI)
  have m: "maxAttempts = Suc 99" by (simp add: maxAttempts_def)
  show "(\<exists>tm'. RegisterTCP att s now tm = (Inl RandPanic, tm')) \<longleftrightarrow> portMax tm < portMin tm"
    using register_tcp_from_panic [OF assms(1), of 99 s now tm]
    unfolding RegisterTCP_def m by (metis fst_conv prod.collapse)
next
  assume h: "portMin tm \<le> portMax tm \<and> k < 100 \<and>
    p = portMin tm + int (at_draw (att k) mod nat (portMax tm - portMin tm + 1)) \<and>
    tcpTunnels tm p = None \<and> p \<notin> at_busy (att k)"
  then have "p \<notin> tm_listening tm" using assms(2) by (auto simp: tm_inv_def)
  with h have free: "let port = portMin tm + int (at_draw (att k) mod nat (portMax tm - portMin tm + 1)) in
      tcpTunnels tm port = None \<and> port \<notin> at_busy (att k) \<and> port \<notin> tm_listening tm"
    unfolding Let_def by blast
  have "k < maxAttempts" "portMin tm \<le> portMax tm" using h by (simp_all add: maxAttempts_def)
  then show "\<exists>q tm'. RegisterTCP att s now tm = (Inr q, tm')"
    unfolding RegisterTCP_def using register_tcp_from_found [OF assms(1) _ _ free] by blast
next
  assume "RegisterTCP att s now tm = (Inl e, tm2)"
  then show "tm2 = tm" unfolding RegisterTCP_def by (rule register_tcp_from_quiet [OF assms(1)])
qed

theorem register_tcp_outcome_witness:
  "(\<exists>tm'. RegisterTCP first_free a_session 7 (NewTunnelManager 20000 10000) = (Inl RandPanic, tm')) \<and>
   (\<exists>q tm'. RegisterTCP first_free a_session 7 (NewTunnelManager 10000 10000) = (Inr q, tm'))"
  using register_tcp_outcome [OF first_free_quiet tm_inv_new [of 20000 10000], of a_session 7]
    register_tcp_outcome [OF first_free_quiet tm_inv_new [of 10000 10000], of a_session 7 0 10000]
  by (simp add: NewTunnelManager_def first_free_def)

subsection \<open>Killing and expiry\<close>

definition unique_ids :: "tunnel_manager \<Rightarrow> bool" where
  "unique_ids tm \<longleftrightarrow>
     (\<forall>a b s t. httpTunnels tm a = Some s \<and> httpTunnels tm b = Some t \<and> ts_ID s = ts_ID t \<longrightarrow> a = b) \<and>
     (\<forall>a b s t. tcpTunnels tm a = Some s \<and> tcpTunnels tm b = Some t \<and> ts_ID s = ts_ID t \<longrightarrow> a = b) \<and>
     (\<forall>a b s t. httpTunnels tm a = Some s \<and> tcpTunnels tm b = Some t \<longrightarrow> ts_ID s \<noteq> ts_ID t)"

definition all_cover :: "(string \<Rightarrow> string list \<times> int list) \<Rightarrow> tunnel_manager \<Rightarrow> bool" where
  "all_cover ords tm \<longleftrightarrow>
     (\<forall>i. covers (fst (ords i)) (httpTunnels tm) \<and> covers (snd (ords i)) (tcpTunnels tm))"

lemma Kill_unique:
  assumes "unique_ids tm" and "covers oh (httpTunnels tm)" and "covers ot (tcpTunnels tm)"
  shows "httpTunnels (snd (KillTunnelByID oh ot i tm)) = keep_entries (\<lambda>s. ts_ID s \<noteq> i) (httpTunnels tm)"
    and "tcpTunnels (snd (KillTunnelByID oh ot i tm)) = keep_entries (\<lambda>s. ts_ID s \<noteq> i) (tcpTunnels tm)"
proof -
  obtain b tm' where k: "KillTunnelByID oh ot i tm = (b, tm')" by fastforce
  have "httpTunnels tm' = keep_entries (\<lambda>s. ts_ID s \<noteq> i) (httpTunnels tm) \<and>
      tcpTunnels tm' = keep_entries (\<lambda>s. ts_ID s \<noteq> i) (tcpTunnels tm)"
    using k
  proof (cases rule: KillTunnelByID_cases)
    case (http sub s)
    have "keep_entries (\<lambda>s. ts_ID s \<noteq> i) (httpTunnels tm) = (httpTunnels tm)(sub := None)"
      by (rule keep_entries_remove) (use http assms(1) in \<open>auto simp: unique_ids_def\<close>)
    moreover have "keep_entries (\<lambda>s. ts_ID s \<noteq> i) (tcpTunnels tm) = tcpTunnels tm"
      by (rule keep_entries_id) (use http assms(1) in \<open>auto simp: unique_ids_def dest: sym\<close>)
    ultimately show ?thesis using http by simp
  next
    case (tcp port s)
    have "keep_entries (\<lambda>s. ts_ID s \<noteq> i) (httpTunnels tm) = httpTunnels tm"
      by (rule keep_entries_id) (use tcp find_has_ID_None [OF assms(2)] in blast)
    moreover have "keep_entries (\<lambda>s. ts_ID s \<noteq> i) (tcpTunnels tm) = (tcpTunnels tm)(port := None)"
      by (rule keep_entries_remove) (use tcp assms(1) in \<open>auto simp: unique_ids_def\<close>)
    ultimately show ?thesis using tcp by simp
  next
    case none
    have "keep_entries (\<lambda>s. ts_ID s \<noteq> i) (httpTunnels tm) = httpTunnels tm"
      by (rule keep_entries_id) (use none find_has_ID_None [OF assms(2)] in blast)
    moreover have "keep_entries (\<lambda>s. ts_ID s \<noteq> i) (tcpTunnels tm) = tcpTunnels tm"
      by (rule keep_entries_id) (use none find_has_ID_None [OF assms(3)] in blast)
    ultimately show ?thesis using none by simp
  qed
  then show "httpTunnels (snd (KillTunnelByID oh ot i tm)) = keep_entries (\<lambda>s. ts_ID s \<noteq> i) (httpTunnels tm)"
    and "tcpTunnels (snd (KillTunnelByID oh ot i tm)) = keep_entries (\<lambda>s. ts_ID s \<noteq> i) (tcpTunnels tm)"
    by (simp_all add: k)
qed

lemma keep_entries_keep: "keep_entries P (keep_entries Q m) = keep_entries (\<lambda>v. Q v \<and> P v) m"
  by (rule ext) (auto simp: keep_entries_def split: option.splits)

lemma kill_each_unique:
  assumes "unique_ids tm" and "all_cover ords tm"
  shows "httpTunnels (kill_each ords is tm) = keep_entries (\<lambda>s. ts_ID s \<notin> set is) (httpTunnels tm) \<and>
    tcpTunnels (kill_each ords is tm) = keep_entries (\<lambda>s. ts_ID s \<notin> set is) (tcpTunnels tm)"
  using assms
proof (induction "is" arbitrary: tm)
  case Nil
  show ?case by (simp add: keep_entries_id)
next
  case (Cons i "is")
  let ?tm = "snd (KillTunnelByID (fst (ords i)) (snd (ords i)) i tm)"
  have maps: "httpTunnels ?tm = keep_entries (\<lambda>s. ts_ID s \<noteq> i) (httpTunnels tm)"
    "tcpTunnels ?tm = keep_entries (\<lambda>s. ts_ID s \<noteq> i) (tcpTunnels tm)"
    using Kill_unique [OF Cons.prems(1)] Cons.prems(2) by (simp_all add: all_cover_def)
  have "unique_ids ?tm" using Cons.prems(1) by (auto simp: unique_ids_def maps)
  moreover have "all_cover ords ?tm"
    using Cons.prems(2) dom_keep_entries by (auto simp: all_cover_def covers_def maps) blast+
  ultimately show ?case using Cons.IH [of ?tm] by (simp add: maps keep_entries_keep)
qed

lemma expired_anon_set:
  assumes "covers oh (httpTunnels tm)" and "covers ot (tcpTunnels tm)"
  shows "set (expired_anon oh ot ttl now tm) =
    {ts_ID s | s k. httpTunnels tm k = Some s \<and> is_anon (ts_Token s) \<and> \<not> ts_Reserved s \<and> now - ts_CreatedAt s > ttl} \<union>
    {ts_ID s | s k. tcpTunnels tm k = Some s \<and> is_anon (ts_Token s) \<and> now - ts_CreatedAt s > ttl}"
  using assms by (auto simp: expired_anon_def set_range_vals ran_def)

text \<open>
  One tick of the anonymous expiry removes exactly the anonymous tunnels that are active and older
  than the limit; every other tunnel (of a key, reserved, or younger) is still registered, in
  whatever order the maps were ranged over.
\<close>

theorem anonymous_expiry_exact:
  assumes "unique_ids tm" and "all_cover ords tm"
    and "covers oh (httpTunnels tm)" and "covers ot (tcpTunnels tm)"
  shows "httpTunnels (AnonymousExpiry oh ot ords ttl now tm) =
      keep_entries (\<lambda>s. \<not> (is_anon (ts_Token s) \<and> \<not> ts_Reserved s \<and> now - ts_CreatedAt s > ttl))
        (httpTunnels tm) \<and>
    tcpTunnels (AnonymousExpiry oh ot ords ttl now tm) =
      keep_entries (\<lambda>s. \<not> (is_anon (ts_Token s) \<and> now - ts_CreatedAt s > ttl)) (tcpTunnels tm)"
proof -
  let ?is = "set (expired_anon oh ot ttl now tm)"
  have http: "ts_ID s \<in> ?is \<longleftrightarrow> is_anon (ts_Token s) \<and> \<not> ts_Reserved s \<and> now - ts_CreatedAt s > ttl"
    if "httpTunnels tm k = Some s" for k s
    using that assms(1) unfolding expired_anon_set [OF assms(3,4)] unique_ids_def
    by auto (metis option.inject)+
  have tcp: "ts_ID s \<in> ?is \<longleftrightarrow> is_anon (ts_Token s) \<and> now - ts_CreatedAt s > ttl"
    if "tcpTunnels tm k = Some s" for k s
    using that assms(1) unfolding expired_anon_set [OF assms(3,4)] unique_ids_def
    by auto (metis option.inject)+
  have "keep_entries (\<lambda>s. ts_ID s \<notin> ?is) (httpTunnels tm) =
      keep_entries (\<lambda>s. \<not> (is_anon (ts_Token s) \<and> \<not> ts_Reserved s \<and> now - ts_CreatedAt s > ttl)) (httpTunnels tm)"
    by (rule ext) (auto simp: keep_entries_def http split: option.splits)
  moreover have "keep_entries (\<lambda>s. ts_ID s \<notin> ?is) (tcpTunnels tm) =
      keep_entries (\<lambda>s. \<not> (is_anon (ts_Token s) \<and> now - ts_CreatedAt s > ttl)) (tcpTunnels tm)"
    by (rule ext) (auto simp: keep_entries_def tcp split: option.splits)
  ultimately show ?thesis
    using kill_each_unique [OF assms(1,2)] by (simp add: AnonymousExpiry_def)
qed

definition two_tunnels :: tunnel_manager where
  "two_tunnels = (NewTunnelManager 10000 65535)
     \<lparr>httpTunnels := [''myapp'' \<mapsto> a_session,
                     ''anonapp'' \<mapsto> a_session\<lparr>ts_ID := ''id2'', ts_Subdomain := ''anonapp'',
                                              ts_Token := ''anon:10.0.0.1''\<rparr>]\<rparr>"

theorem anonymous_expiry_exact_witness:
  "httpTunnels (AnonymousExpiry [''myapp'', ''anonapp''] [] (\<lambda>_. ([''anonapp'', ''myapp''], [])) 7200 9000
     two_tunnels) = [''myapp'' \<mapsto> a_session]"
proof -
  have "unique_ids two_tunnels"
    by (auto simp: unique_ids_def two_tunnels_def NewTunnelManager_def split: if_splits)
  moreover have "all_cover (\<lambda>_. ([''anonapp'', ''myapp''], [])) two_tunnels"
    by (auto simp: all_cover_def covers_def two_tunnels_def NewTunnelManager_def split: if_splits)
  moreover have "covers [''myapp'', ''anonapp''] (httpTunnels two_tunnels)" "covers [] (tcpTunnels two_tunnels)"
    by (auto simp: covers_def two_tunnels_def NewTunnelManager_def split: if_splits)
  ultimately have "httpTunnels (AnonymousExpiry [''myapp'', ''anonapp''] [] (\<lambda>_. ([''anonapp'', ''myapp''], []))
      7200 9000 two_tunnels) =
      keep_entries (\<lambda>s. \<not> (is_anon (ts_Token s) \<and> \<not> ts_Reserved s \<and> 9000 - ts_CreatedAt s > 7200))
        (httpTunnels two_tunnels)"
    by (rule anonymous_expiry_exact [THEN conjunct1])
  then show ?thesis
    by (auto simp: two_tunnels_def NewTunnelManager_def keep_entries_def fun_eq_iff is_anon_def
        HasPrefix_def a_session_def)
qed

subsection \<open>Statistics\<close>

text \<open>
  The statistics count the registry: active HTTP tunnels are the HTTP entries that are not
  reserved, TCP tunnels are the TCP entries, the total is their sum, and the byte sums are those of the
  listed tunnels; none of this depends on the order in which the maps were ranged over.
\<close>

theorem stats_exact:
  assumes "covers oh (httpTunnels tm)" and "covers ot (tcpTunnels tm)"
    and "covers oh' (httpTunnels tm)" and "covers ot' (tcpTunnels tm)"
  shows "Stats oh ot tm =
    \<lparr>ActiveHTTP = int (count_entries unreserved (httpTunnels tm)),
     ActiveTCP = int (card (dom (tcpTunnels tm))),
     TotalTunnels = int (length (ListTunnels oh' ot' tm)),
     st_BytesIn = sum_list (map ts_BytesIn (ListTunnels oh' ot' tm)),
     st_BytesOut = sum_list (map ts_BytesOut (ListTunnels oh' ot' tm))\<rparr>"
proof -
  let ?h = "filter (\<lambda>t. \<not> ts_Reserved t) (range_vals oh (httpTunnels tm))"
  let ?h' = "filter (\<lambda>t. \<not> ts_Reserved t) (range_vals oh' (httpTunnels tm))"
  let ?t = "range_vals ot (tcpTunnels tm)" and ?t' = "range_vals ot' (tcpTunnels tm)"
  have mh: "mset ?h = mset ?h'" using mset_range_vals [OF assms(1,3)] by simp
  have mt: "mset ?t = mset ?t'" by (rule mset_range_vals [OF assms(2,4)])
  have lh: "length ?h = count_entries unreserved (httpTunnels tm)"
    using length_filter_range_vals [OF assms(1), of unreserved] by (simp add: unreserved_def [abs_def])
  have "entries_with (\<lambda>_. True) (tcpTunnels tm) = dom (tcpTunnels tm)" by (auto simp: entries_with_def)
  then have lt: "length ?t = card (dom (tcpTunnels tm))"
    using length_filter_range_vals [OF assms(2), of "\<lambda>_. True"] by (simp add: count_entries_def)
  have total: "int (length ?h) + int (length ?t) = int (length (ListTunnels oh' ot' tm))"
    unfolding ListTunnels_def mset_eq_length [OF mh] mset_eq_length [OF mt] by simp
  have bytes: "sum_mset (image_mset f (mset ?h)) + sum_mset (image_mset f (mset ?t)) =
      sum_list (map f (ListTunnels oh' ot' tm))" for f :: "tunnel_session \<Rightarrow> int"
    unfolding mh mt ListTunnels_def by (simp flip: sum_mset_sum_list)
  show ?thesis
    unfolding Stats_def stats_http_eq stats_tcp_eq Let_def
    using lh lt total bytes [of ts_BytesIn] bytes [of ts_BytesOut] by simp
qed

theorem stats_exact_witness:
  "ActiveHTTP (Stats [''anonapp'', ''myapp''] [] two_tunnels) = 2 \<and>
   TotalTunnels (Stats [''anonapp'', ''myapp''] [] two_tunnels) = 2"
proof -
  have c: "covers [''anonapp'', ''myapp''] (httpTunnels two_tunnels)" "covers [] (tcpTunnels two_tunnels)"
    by (auto simp: covers_def two_tunnels_def NewTunnelManager_def split: if_splits)
  have l: "length (ListTunnels [''anonapp'', ''myapp''] [] two_tunnels) = 2"
    by (simp add: ListTunnels_def two_tunnels_def NewTunnelManager_def range_vals_Cons)
  have "count_entries unreserved (httpTunnels two_tunnels) = 2"
    using length_filter_range_vals [OF c(1), of unreserved]
    by (simp add: two_tunnels_def NewTunnelManager_def range_vals_Cons unreserved_def)
  with l show ?thesis unfolding stats_exact [OF c c] by simp
qed

end
