(* ===== verification/Tunnel_Counter.thy ===== *)
theory Tunnel_Counter
  imports Prelude
begin

text \<open>
  The contract that the token store and the key store share: both count the tunnels of a credential
  against a limit (\<open>IncrementTunnels\<close>, \<open>DecrementTunnels\<close>). The server relies on nothing else.
\<close>

locale tunnel_counter =
  fixes incr :: "'k \<Rightarrow> 's \<Rightarrow> 'e option \<times> 's"
    and decr :: "'k \<Rightarrow> 's \<Rightarrow> 's"
    and used :: "'s \<Rightarrow> 'k \<Rightarrow> int option"
    and limit :: "'s \<Rightarrow> 'k \<Rightarrow> int option"
  assumes known: "used s k = None \<longleftrightarrow> limit s k = None"
    and incr_free: "used s k = Some u \<Longrightarrow> limit s k = Some l \<Longrightarrow> u < l \<Longrightarrow>
        fst (incr k s) = None \<and> used (snd (incr k s)) = (used s)(k \<mapsto> u + 1)"
    and incr_full: "used s k = Some u \<Longrightarrow> limit s k = Some l \<Longrightarrow> l \<le> u \<Longrightarrow>
        fst (incr k s) \<noteq> None \<and> snd (incr k s) = s"
    and incr_unknown: "used s k = None \<Longrightarrow> fst (incr k s) \<noteq> None \<and> snd (incr k s) = s"
    and decr_known: "used s k = Some u \<Longrightarrow> used (decr k s) = (used s)(k \<mapsto> (if 0 < u then u - 1 else u))"
    and decr_unknown: "used s k = None \<Longrightarrow> decr k s = s"
    and limit_incr: "limit (snd (incr k s)) = limit s"
    and limit_decr: "limit (decr k s) = limit s"
begin

definition within :: "'s \<Rightarrow> bool" where
  "within s \<longleftrightarrow> (\<forall>k u l. used s k = Some u \<longrightarrow> limit s k = Some l \<longrightarrow> 0 \<le> u \<and> u \<le> max 0 l)"

lemma incr_cases:
  obtains (ok) u l where "used s k = Some u" "limit s k = Some l" "u < l" "fst (incr k s) = None"
      "used (snd (incr k s)) = (used s)(k \<mapsto> u + 1)"
  | (fails) e where "fst (incr k s) = Some e" "snd (incr k s) = s"
proof (cases "used s k")
  case None
  then show thesis using incr_unknown [of s k] fails by auto
next
  case (Some u)
  then obtain l where l: "limit s k = Some l" using known [of s k] by auto
  show thesis
  proof (cases "u < l")
    case True
    then show thesis using incr_free [OF Some l] ok Some l by simp
  next
    case False
    then show thesis using incr_full [OF Some l] fails by auto
  qed
qed

lemma incr_ok_iff:
  "fst (incr k s) = None \<longleftrightarrow> (\<exists>u l. used s k = Some u \<and> limit s k = Some l \<and> u < l)"
proof (cases s k rule: incr_cases)
  case (ok u l)
  then show ?thesis by simp
next
  case (fails e)
  then show ?thesis using incr_free [of s k] by auto
qed

lemma within_incr: "within s \<Longrightarrow> within (snd (incr k s))"
  by (cases s k rule: incr_cases) (auto simp: within_def limit_incr)

lemma within_decr: "within s \<Longrightarrow> within (decr k s)"
proof (cases "used s k")
  case (Some u)
  assume w: "within s"
  show ?thesis unfolding within_def limit_decr
  proof (intro allI impI)
    fix k' u' l'
    assume u': "used (decr k s) k' = Some u'" and l': "limit s k' = Some l'"
    then show "0 \<le> u' \<and> u' \<le> max 0 l'"
      using w Some decr_known [OF Some]
      by (cases "k' = k") (fastforce simp: within_def split: if_splits)+
  qed
qed (simp add: decr_unknown)

lemma decr_incr:
  assumes "within s" and "fst (incr k s) = None"
  shows "used (decr k (snd (incr k s))) = used s"
proof (cases s k rule: incr_cases)
  case (ok u l)
  then have "0 \<le> u" using assms(1) by (auto simp: within_def)
  then show ?thesis using ok decr_known [of "snd (incr k s)" k "u + 1"] by (auto simp: fun_upd_idem)
next
  case (fails e)
  then show ?thesis using assms(2) by simp
qed

lemma incr_other: "k' \<noteq> k \<Longrightarrow> used (snd (incr k s)) k' = used s k'"
  by (cases s k rule: incr_cases) auto

lemma decr_other: "k' \<noteq> k \<Longrightarrow> used (decr k s) k' = used s k'"
  by (cases "used s k") (simp_all add: decr_unknown decr_known)

end

end
