(* ===== verification/Auth.thy ===== *)
theory Auth
  imports Complex_Main Tunnel_Counter
begin

text \<open>
  Legacy tokens and rate limits (\<open>internal/server/auth.go\<close>). \<open>bcrypt\<close> and the token buckets of
  \<open>golang.org/x/time/rate\<close> are third-party code: a hash with its comparison, and a limiter with its
  creation and its \<open>Allow\<close>, are arguments. A rate of \<open>n\<close> per minute is the rational number
  \<open>n / 60\<close>, which Go rounds to a \<open>float64\<close> before it hands it to the limiter.
\<close>

subsection \<open>The token store\<close>

record 'h bcrypt_api =
  GenerateFromPassword :: "string \<Rightarrow> string + 'h"
  CompareHashAndPassword :: "'h \<Rightarrow> string \<Rightarrow> bool"

record 'h token_info =
  ti_hash :: 'h
  ti_tunnelCount :: int
  ti_maxTunnels :: int

type_synonym 'h token_store = "string \<rightharpoonup> 'h token_info"

datatype count_error = UnknownCredential | LimitReached int int

fun add_tokens :: "'h bcrypt_api \<Rightarrow> int \<Rightarrow> string list \<Rightarrow> 'h token_store \<Rightarrow> string + 'h token_store" where
  "add_tokens B maxTunnels [] ts = Inr ts"
| "add_tokens B maxTunnels (raw # rest) ts =
     (if raw = [] then add_tokens B maxTunnels rest ts
      else case GenerateFromPassword B raw of
             Inl err \<Rightarrow> Inl err
           | Inr h \<Rightarrow> add_tokens B maxTunnels rest
               (ts(raw \<mapsto> \<lparr>ti_hash = h, ti_tunnelCount = 0, ti_maxTunnels = maxTunnels\<rparr>)))"

definition NewTokenStore :: "'h bcrypt_api \<Rightarrow> string list \<Rightarrow> int \<Rightarrow> string + 'h token_store" where
  "NewTokenStore B rawTokens maxTunnelsPerToken = add_tokens B maxTunnelsPerToken rawTokens Map.empty"

definition token_Validate :: "'h bcrypt_api \<Rightarrow> 'h token_store \<Rightarrow> string \<Rightarrow> bool" where
  "token_Validate B ts token =
     (case ts token of None \<Rightarrow> False | Some info \<Rightarrow> CompareHashAndPassword B (ti_hash info) token)"

definition token_IncrementTunnels :: "string \<Rightarrow> 'h token_store \<Rightarrow> count_error option \<times> 'h token_store" where
  "token_IncrementTunnels token ts =
     (case ts token of
        None \<Rightarrow> (Some UnknownCredential, ts)
      | Some info \<Rightarrow>
          if ti_tunnelCount info \<ge> ti_maxTunnels info
          then (Some (LimitReached (ti_tunnelCount info) (ti_maxTunnels info)), ts)
          else (None, ts(token \<mapsto> info\<lparr>ti_tunnelCount := ti_tunnelCount info + 1\<rparr>)))"

definition token_DecrementTunnels :: "string \<Rightarrow> 'h token_store \<Rightarrow> 'h token_store" where
  "token_DecrementTunnels token ts =
     (case ts token of
        None \<Rightarrow> ts
      | Some info \<Rightarrow>
          if ti_tunnelCount info > 0
          then ts(token \<mapsto> info\<lparr>ti_tunnelCount := ti_tunnelCount info - 1\<rparr>) else ts)"

definition token_used :: "'h token_store \<Rightarrow> string \<Rightarrow> int option" where
  "token_used ts k = map_option ti_tunnelCount (ts k)"

definition token_limit :: "'h token_store \<Rightarrow> string \<Rightarrow> int option" where
  "token_limit ts k = map_option ti_maxTunnels (ts k)"

lemmas token_counter_defs = token_IncrementTunnels_def token_DecrementTunnels_def
  token_used_def token_limit_def

interpretation tokens: tunnel_counter token_IncrementTunnels token_DecrementTunnels token_used token_limit
  by unfold_locales (auto simp: token_counter_defs fun_eq_iff split: option.splits)

subsection \<open>Rate limiters\<close>

record 'l limiter_api =
  NewLimiter :: "rat \<Rightarrow> int \<Rightarrow> 'l"
  AllowLimiter :: "time \<Rightarrow> 'l \<Rightarrow> bool \<times> 'l"

definition per_minute :: "int \<Rightarrow> rat" where
  "per_minute n = of_int n / 60"

record 'l limiter_entry =
  le_limiter :: 'l
  le_lastSeen :: time

record 'l ip_limiter =
  il_limiters :: "string \<rightharpoonup> 'l limiter_entry"
  il_rate :: rat
  il_burst :: int

definition newIPRateLimiter :: "int \<Rightarrow> 'l ip_limiter" where
  "newIPRateLimiter connPerMin =
     \<lparr>il_limiters = Map.empty, il_rate = per_minute connPerMin, il_burst = connPerMin\<rparr>"

definition ip_Allow :: "'l limiter_api \<Rightarrow> string \<Rightarrow> time \<Rightarrow> 'l ip_limiter \<Rightarrow> bool \<times> 'l ip_limiter" where
  "ip_Allow L ip now r =
     (let l = (case il_limiters r ip of
                 None \<Rightarrow> NewLimiter L (il_rate r) (il_burst r)
               | Some e \<Rightarrow> le_limiter e)
      in case AllowLimiter L now l of (allowed, l') \<Rightarrow>
           (allowed, r\<lparr>il_limiters := (il_limiters r)(ip \<mapsto> \<lparr>le_limiter = l', le_lastSeen = now\<rparr>)\<rparr>))"

text \<open>One tick of \<open>cleanup\<close>.\<close>

definition ip_cleanup :: "time \<Rightarrow> 'l ip_limiter \<Rightarrow> 'l ip_limiter" where
  "ip_cleanup now r =
     r\<lparr>il_limiters := keep_entries (\<lambda>e. \<not> le_lastSeen e < now - 10 * minute) (il_limiters r)\<rparr>"

record 'l rate_limiter =
  rl_perTok :: "string \<rightharpoonup> 'l"
  rl_global :: 'l
  rl_tokR :: rat
  rl_tokB :: int

definition NewRateLimiter :: "'l limiter_api \<Rightarrow> int \<Rightarrow> int \<Rightarrow> 'l rate_limiter" where
  "NewRateLimiter L perTokenPerMin globalPerMin =
     \<lparr>rl_perTok = Map.empty, rl_global = NewLimiter L (per_minute globalPerMin) globalPerMin,
      rl_tokR = per_minute perTokenPerMin, rl_tokB = perTokenPerMin\<rparr>"

definition rate_Allow :: "'l limiter_api \<Rightarrow> string \<Rightarrow> time \<Rightarrow> 'l rate_limiter \<Rightarrow> bool \<times> 'l rate_limiter" where
  "rate_Allow L token now rl =
     (case AllowLimiter L now (rl_global rl) of (ok, g) \<Rightarrow>
        let rl1 = rl\<lparr>rl_global := g\<rparr> in
        if \<not> ok then (False, rl1)
        else
          let lim = (case rl_perTok rl1 token of
                       None \<Rightarrow> NewLimiter L (rl_tokR rl1) (rl_tokB rl1)
                     | Some l \<Rightarrow> l)
          in case AllowLimiter L now lim of (ok', lim') \<Rightarrow>
               (ok', rl1\<lparr>rl_perTok := (rl_perTok rl1)(token \<mapsto> lim')\<rparr>))"

subsection \<open>Properties\<close>

lemma add_tokens_spec:
  assumes "add_tokens B m raws ts = Inr ts'"
  shows "dom ts' = dom ts \<union> (set raws - {[]}) \<and>
    (\<forall>t info. ts' t = Some info \<longrightarrow> ts t = Some info \<or>
      (GenerateFromPassword B t = Inr (ti_hash info) \<and> ti_tunnelCount info = 0 \<and> ti_maxTunnels info = m))"
  using assms
proof (induction raws arbitrary: ts)
  case Nil
  then show ?case by auto
next
  case (Cons raw raws)
  show ?case
  proof (cases "raw = []")
    case True
    then show ?thesis using Cons by auto
  next
    case False
    with Cons.prems obtain h where h: "GenerateFromPassword B raw = Inr h" by (auto split: sum.splits)
    let ?ts = "ts(raw \<mapsto> \<lparr>ti_hash = h, ti_tunnelCount = 0, ti_maxTunnels = m\<rparr>)"
    have "add_tokens B m raws ?ts = Inr ts'" using Cons.prems False h by simp
    note IH = Cons.IH [OF this]
    show ?thesis
    proof (intro conjI allI impI)
      show "dom ts' = dom ts \<union> (set (raw # raws) - {[]})" using IH False by (auto split: if_splits)
      fix t info
      assume t: "ts' t = Some info"
      show "ts t = Some info \<or> (GenerateFromPassword B t = Inr (ti_hash info) \<and>
          ti_tunnelCount info = 0 \<and> ti_maxTunnels info = m)"
        using conjunct2 [OF IH, rule_format, OF t] h by (cases "t = raw") auto
    qed
  qed
qed

text \<open>
  After start-up a legacy token is accepted if and only if it is one of the configured, non-empty
  tokens, given \<open>bcrypt\<close>'s documented behaviour (a hash generated from a password matches it); every
  configured token starts with no tunnels and the configured limit.
\<close>

theorem token_store_validates:
  assumes "NewTokenStore B raws m = Inr ts"
    and "\<And>p h. GenerateFromPassword B p = Inr h \<Longrightarrow> CompareHashAndPassword B h p"
  shows "token_Validate B ts t = (t \<in> set raws \<and> t \<noteq> []) \<and>
    (t \<in> set raws \<and> t \<noteq> [] \<longrightarrow> token_used ts t = Some 0 \<and> token_limit ts t = Some m)"
proof -
  note spec = add_tokens_spec [OF assms(1) [unfolded NewTokenStore_def]]
  show ?thesis
  proof (cases "ts t")
    case None
    then have "t \<notin> dom ts" by blast
    then have "\<not> (t \<in> set raws \<and> t \<noteq> [])" using spec by auto
    then show ?thesis using None by (auto simp: token_Validate_def)
  next
    case (Some info)
    then have "t \<in> dom ts" by blast
    then have "t \<in> set raws \<and> t \<noteq> []" using spec by auto
    moreover have "GenerateFromPassword B t = Inr (ti_hash info) \<and> ti_tunnelCount info = 0 \<and> ti_maxTunnels info = m"
      using spec Some by fastforce
    ultimately show ?thesis using Some assms(2)
      by (simp add: token_Validate_def token_used_def token_limit_def)
  qed
qed

definition rev_bcrypt :: "string bcrypt_api" where
  "rev_bcrypt = \<lparr>GenerateFromPassword = (\<lambda>p. if length p \<le> 72 then Inr (rev p) else Inl ''too long''),
     CompareHashAndPassword = (\<lambda>h p. h = rev p)\<rparr>"

theorem token_store_validates_witness:
  "\<exists>ts. NewTokenStore rev_bcrypt [''good-token'', []] 5 = Inr ts \<and>
     token_Validate rev_bcrypt ts ''good-token'' \<and> \<not> token_Validate rev_bcrypt ts ''bad-token''"
proof -
  obtain ts where ts: "NewTokenStore rev_bcrypt [''good-token'', []] 5 = Inr ts"
    by (simp add: NewTokenStore_def rev_bcrypt_def)
  have b: "\<And>p h. GenerateFromPassword rev_bcrypt p = Inr h \<Longrightarrow> CompareHashAndPassword rev_bcrypt h p"
    by (auto simp: rev_bcrypt_def split: if_splits)
  show ?thesis
    using token_store_validates [OF ts b, of "''good-token''"]
      token_store_validates [OF ts b, of "''bad-token''"] ts by auto
qed

text \<open>The answers of one limiter asked at the given times.\<close>

fun limiter_answers :: "'l limiter_api \<Rightarrow> 'l \<Rightarrow> time list \<Rightarrow> bool list" where
  "limiter_answers L l [] = []"
| "limiter_answers L l (t # ts) = (case AllowLimiter L t l of (a, l') \<Rightarrow> a # limiter_answers L l' ts)"

text \<open>The answers of the IP limiter to a sequence of connections.\<close>

fun ip_answers :: "'l limiter_api \<Rightarrow> 'l ip_limiter \<Rightarrow> (string \<times> time) list \<Rightarrow> (string \<times> bool) list" where
  "ip_answers L r [] = []"
| "ip_answers L r ((ip, t) # cs) = (case ip_Allow L ip t r of (a, r') \<Rightarrow> (ip, a) # ip_answers L r' cs)"

definition limiter_of :: "'l limiter_api \<Rightarrow> 'l ip_limiter \<Rightarrow> string \<Rightarrow> 'l" where
  "limiter_of L r ip =
     (case il_limiters r ip of None \<Rightarrow> NewLimiter L (il_rate r) (il_burst r) | Some e \<Rightarrow> le_limiter e)"

lemma ip_answers_one:
  "map snd (filter (\<lambda>x. fst x = ip) (ip_answers L r cs)) =
     limiter_answers L (limiter_of L r ip) (map snd (filter (\<lambda>x. fst x = ip) cs))"
proof (induction cs arbitrary: r)
  case Nil
  then show ?case by simp
next
  case (Cons c cs)
  obtain ip' t where c: "c = (ip', t)" by fastforce
  obtain a r' where r': "ip_Allow L ip' t r = (a, r')" by fastforce
  have "limiter_of L r' ip = (if ip' = ip then snd (AllowLimiter L t (limiter_of L r ip)) else limiter_of L r ip)"
    and "a = fst (AllowLimiter L t (limiter_of L r ip'))"
    using r' by (auto simp: ip_Allow_def limiter_of_def Let_def split: option.splits prod.splits)
  then show ?case using Cons.IH [of r'] c r' by (auto split: prod.splits)
qed

text \<open>
  The pre-auth limiter treats every address on its own: among the connections of any clients in
  any order, the answers to one address are those of a fresh bucket of its own asked at the times of
  that address's connections; no other address can use up its allowance or add to it.
\<close>

theorem ip_limiter_isolated:
  "map snd (filter (\<lambda>x. fst x = ip) (ip_answers L (newIPRateLimiter n) cs)) =
     limiter_answers L (NewLimiter L (per_minute n) n) (map snd (filter (\<lambda>x. fst x = ip) cs))"
  by (simp add: ip_answers_one limiter_of_def newIPRateLimiter_def)

end
