(* ===== verification/Key_Store.thy ===== *)
theory Key_Store
  imports Subdomain Masking Tunnel_Counter
begin

text \<open>
  The API keys (\<open>internal/server/key_store.go\<close> and the adapter that shows them to the dashboard,
  \<open>internal/server/key_store_adapter.go\<close>). The store keeps the keys in a map and writes the whole map
  to a JSON file after each change. \<open>encoding/json\<close> is represented by a pair of functions, the file by
  its contents, and the outcome of a write (which may leave anything in the file when it fails) is an
  argument of the operations that save.
\<close>

subsection \<open>State\<close>

text \<open>\<open>stored_key\<close> is the part of an \<open>APIKey\<close> that has JSON tags; the count of tunnels exists at run time only.\<close>

record stored_key =
  ak_Name :: string
  ak_Subdomains :: "string list"
  ak_MaxTunnels :: int
  ak_CreatedAt :: time
  ak_Active :: bool

record api_key = stored_key +
  ak_tunnelCount :: int

type_synonym key_document = "(string \<rightharpoonup> stored_key) option"

record json_api =
  MarshalIndent :: "(string \<rightharpoonup> stored_key) \<Rightarrow> string + string"
  Unmarshal :: "string \<Rightarrow> string + key_document"

record key_store =
  ks_keys :: "string \<rightharpoonup> api_key"
  ks_filePath :: string
  ks_file :: file_read

datatype load_error = ReadKeyStore string | ParseKeyStore string

datatype key_error =
    NameRequired | BadSubdomain sub_error | AlreadyOwned string | PersistKey string
  | KeyNotFound | InvalidKey | SaveError string

definition load_key :: "stored_key \<Rightarrow> api_key" where
  "load_key k = stored_key.extend k (api_key.fields 0)"

definition store_key :: "api_key \<Rightarrow> stored_key" where
  "store_key k = stored_key.truncate k"

definition persisted :: "(string \<rightharpoonup> api_key) \<Rightarrow> (string \<rightharpoonup> stored_key)" where
  "persisted m = map_option store_key \<circ> m"

definition restarted :: "(string \<rightharpoonup> stored_key) \<Rightarrow> (string \<rightharpoonup> api_key)" where
  "restarted m = map_option load_key \<circ> m"

subsection \<open>Operations\<close>

text \<open>\<open>bytes.TrimSpace\<close> is \<open>TrimSpace\<close>; its behaviour on bytes above ASCII is the argument \<open>utrim\<close>.\<close>

definition NewKeyStore ::
    "json_api \<Rightarrow> (string \<Rightarrow> string) \<Rightarrow> string \<Rightarrow> file_read \<Rightarrow> load_error + key_store" where
  "NewKeyStore J utrim path f =
     (let empty = \<lparr>ks_keys = Map.empty, ks_filePath = path, ks_file = f\<rparr> in
      if path = [] then Inr empty
      else case f of
        NotExist \<Rightarrow> Inr empty
      | ReadError e \<Rightarrow> Inl (ReadKeyStore e)
      | FileData d \<Rightarrow>
          if TrimSpace utrim d = [] then Inr empty
          else case Unmarshal J d of
            Inl e \<Rightarrow> Inl (ParseKeyStore e)
          | Inr None \<Rightarrow> Inr empty
          | Inr (Some m) \<Rightarrow> Inr (empty\<lparr>ks_keys := restarted m\<rparr>))"

definition key_Validate :: "key_store \<Rightarrow> string \<Rightarrow> bool" where
  "key_Validate ks key = (case ks_keys ks key of None \<Rightarrow> False | Some k \<Rightarrow> ak_Active k)"

definition GetKey :: "key_store \<Rightarrow> string \<Rightarrow> api_key option" where
  "GetKey ks key = ks_keys ks key"

definition saveLocked :: "json_api \<Rightarrow> write_outcome \<Rightarrow> key_store \<Rightarrow> string option \<times> key_store" where
  "saveLocked J w ks =
     (if ks_filePath ks = [] then (None, ks)
      else case MarshalIndent J (persisted (ks_keys ks)) of
        Inl e \<Rightarrow> (Some e, ks)
      | Inr d \<Rightarrow>
          (case w of
             WriteOk \<Rightarrow> (None, ks\<lparr>ks_file := FileData d\<rparr>)
           | WriteError e f \<Rightarrow> (Some e, ks\<lparr>ks_file := f\<rparr>)))"

fun find_owner :: "string \<Rightarrow> string list \<Rightarrow> (string \<rightharpoonup> api_key) \<Rightarrow> string" where
  "find_owner sub [] m = []"
| "find_owner sub (i # ids) m =
     (case m i of
        None \<Rightarrow> find_owner sub ids m
      | Some k \<Rightarrow>
          if \<not> ak_Active k then find_owner sub ids m
          else if sub \<in> set (ak_Subdomains k) then i
          else find_owner sub ids m)"

definition FindSubdomainOwner :: "string list \<Rightarrow> key_store \<Rightarrow> string \<Rightarrow> string" where
  "FindSubdomainOwner ord ks sub = find_owner sub ord (ks_keys ks)"

fun check_subdomains :: "string list \<Rightarrow> key_store \<Rightarrow> string list \<Rightarrow> key_error option" where
  "check_subdomains ord ks [] = None"
| "check_subdomains ord ks (sub # subs) =
     (case ValidateSubdomain sub of
        Some e \<Rightarrow> Some (BadSubdomain e)
      | None \<Rightarrow>
          if FindSubdomainOwner ord ks sub \<noteq> [] then Some (AlreadyOwned sub)
          else check_subdomains ord ks subs)"

definition CreateKey ::
    "json_api \<Rightarrow> string list \<Rightarrow> (nat \<Rightarrow> nat) \<Rightarrow> time \<Rightarrow> write_outcome \<Rightarrow>
     string \<Rightarrow> string list \<Rightarrow> int \<Rightarrow> key_store \<Rightarrow> (key_error + string) \<times> key_store" where
  "CreateKey J ord rnd now w name subdomains maxTunnels ks =
     (if name = [] then (Inl NameRequired, ks)
      else
        let maxT = (if maxTunnels \<le> 0 then 10 else maxTunnels) in
        case check_subdomains ord ks subdomains of
          Some e \<Rightarrow> (Inl e, ks)
        | None \<Rightarrow>
            let key = GenerateAPIKey rnd;
                ks1 = ks\<lparr>ks_keys := (ks_keys ks)(key \<mapsto>
                  \<lparr>ak_Name = name, ak_Subdomains = subdomains, ak_MaxTunnels = maxT,
                   ak_CreatedAt = now, ak_Active = True, ak_tunnelCount = 0\<rparr>)\<rparr>
            in case saveLocked J w ks1 of
                 (Some e, ks2) \<Rightarrow> (Inl (PersistKey e), ks2\<lparr>ks_keys := (ks_keys ks2)(key := None)\<rparr>)
               | (None, ks2) \<Rightarrow> (Inr key, ks2))"

fun find_preview :: "string \<Rightarrow> string list \<Rightarrow> (string \<rightharpoonup> api_key) \<Rightarrow> string option" where
  "find_preview p [] m = None"
| "find_preview p (i # ids) m =
     (if m i \<noteq> None \<and> MaskKey i = p then Some i else find_preview p ids m)"

definition findKeyByIDOrPreview :: "string list \<Rightarrow> key_store \<Rightarrow> string \<Rightarrow> string option" where
  "findKeyByIDOrPreview ord ks i =
     (if ks_keys ks i \<noteq> None then Some i else find_preview i ord (ks_keys ks))"

definition save_error :: "string option \<Rightarrow> key_error option" where
  "save_error = map_option SaveError"

definition update_key :: "string \<Rightarrow> (api_key \<Rightarrow> api_key) \<Rightarrow> key_store \<Rightarrow> key_store" where
  "update_key i f ks = ks\<lparr>ks_keys := (ks_keys ks)(i := map_option f (ks_keys ks i))\<rparr>"

definition RevokeKey ::
    "json_api \<Rightarrow> string list \<Rightarrow> write_outcome \<Rightarrow> string \<Rightarrow> key_store \<Rightarrow> key_error option \<times> key_store" where
  "RevokeKey J ord w keyID ks =
     (case findKeyByIDOrPreview ord ks keyID of
        None \<Rightarrow> (Some KeyNotFound, ks)
      | Some i \<Rightarrow> apfst save_error (saveLocked J w (update_key i (ak_Active_update (\<lambda>_. False)) ks)))"

definition ListKeys :: "key_store \<Rightarrow> (string \<rightharpoonup> api_key)" where
  "ListKeys ks = ks_keys ks"

definition AddSubdomain ::
    "json_api \<Rightarrow> string list \<Rightarrow> write_outcome \<Rightarrow> string \<Rightarrow> string \<Rightarrow> key_store \<Rightarrow> key_error option \<times> key_store" where
  "AddSubdomain J ord w keyID sub ks =
     (case ValidateSubdomain sub of
        Some e \<Rightarrow> (Some (BadSubdomain e), ks)
      | None \<Rightarrow>
          (case ks_keys ks keyID of
             None \<Rightarrow> (Some InvalidKey, ks)
           | Some k \<Rightarrow>
               if \<not> ak_Active k then (Some InvalidKey, ks)
               else
                 let owner = FindSubdomainOwner ord ks sub in
                 if owner \<noteq> [] then
                   (if owner = keyID then (None, ks) else (Some (AlreadyOwned sub), ks))
                 else apfst save_error (saveLocked J w
                        (update_key keyID (ak_Subdomains_update (\<lambda>subs. subs @ [sub])) ks))))"

definition RemoveSubdomain ::
    "json_api \<Rightarrow> write_outcome \<Rightarrow> string \<Rightarrow> string \<Rightarrow> key_store \<Rightarrow> key_error option \<times> key_store" where
  "RemoveSubdomain J w keyID sub ks =
     (case ks_keys ks keyID of
        None \<Rightarrow> (Some InvalidKey, ks)
      | Some k \<Rightarrow> apfst save_error (saveLocked J w
          (update_key keyID (ak_Subdomains_update (filter (\<lambda>s. s \<noteq> sub))) ks)))"

datatype key_count_error = UnknownKey | KeyLimit int int

definition key_IncrementTunnels :: "string \<Rightarrow> key_store \<Rightarrow> key_count_error option \<times> key_store" where
  "key_IncrementTunnels key ks =
     (case ks_keys ks key of
        None \<Rightarrow> (Some UnknownKey, ks)
      | Some k \<Rightarrow>
          if ak_tunnelCount k \<ge> ak_MaxTunnels k
          then (Some (KeyLimit (ak_tunnelCount k) (ak_MaxTunnels k)), ks)
          else (None, update_key key (ak_tunnelCount_update (\<lambda>n. n + 1)) ks))"

definition key_DecrementTunnels :: "string \<Rightarrow> key_store \<Rightarrow> key_store" where
  "key_DecrementTunnels key ks =
     (case ks_keys ks key of
        None \<Rightarrow> ks
      | Some k \<Rightarrow>
          if ak_tunnelCount k > 0 then update_key key (ak_tunnelCount_update (\<lambda>n. n - 1)) ks else ks)"

definition OwnedSubdomains :: "key_store \<Rightarrow> string \<Rightarrow> string list" where
  "OwnedSubdomains ks key = (case ks_keys ks key of None \<Rightarrow> [] | Some k \<Rightarrow> ak_Subdomains k)"

subsection \<open>The dashboard's view\<close>

text \<open>\<open>APIKeyInfo\<close> has exactly the fields of \<open>stored_key\<close>.\<close>

definition adapter_GetKey :: "key_store \<Rightarrow> string \<Rightarrow> stored_key option" where
  "adapter_GetKey ks key = map_option store_key (GetKey ks key)"

definition adapter_ListKeys :: "key_store \<Rightarrow> (string \<rightharpoonup> stored_key)" where
  "adapter_ListKeys ks = (\<lambda>i. map_option store_key (ListKeys ks i))"

text \<open>The other methods of \<open>KeyStoreAdapter\<close> pass the call on to the store.\<close>

definition adapter_Validate :: "key_store \<Rightarrow> string \<Rightarrow> bool" where
  "adapter_Validate ks key = key_Validate ks key"

definition adapter_CreateKey ::
    "json_api \<Rightarrow> string list \<Rightarrow> (nat \<Rightarrow> nat) \<Rightarrow> time \<Rightarrow> write_outcome \<Rightarrow>
     string \<Rightarrow> string list \<Rightarrow> int \<Rightarrow> key_store \<Rightarrow> (key_error + string) \<times> key_store" where
  "adapter_CreateKey J ord rnd now w name subdomains maxTunnels ks = CreateKey J ord rnd now w name subdomains maxTunnels ks"

definition adapter_RevokeKey ::
    "json_api \<Rightarrow> string list \<Rightarrow> write_outcome \<Rightarrow> string \<Rightarrow> key_store \<Rightarrow> key_error option \<times> key_store" where
  "adapter_RevokeKey J ord w keyID ks = RevokeKey J ord w keyID ks"

definition adapter_AddSubdomain ::
    "json_api \<Rightarrow> string list \<Rightarrow> write_outcome \<Rightarrow> string \<Rightarrow> string \<Rightarrow> key_store \<Rightarrow> key_error option \<times> key_store" where
  "adapter_AddSubdomain J ord w keyID sub ks = AddSubdomain J ord w keyID sub ks"

definition adapter_RemoveSubdomain ::
    "json_api \<Rightarrow> write_outcome \<Rightarrow> string \<Rightarrow> string \<Rightarrow> key_store \<Rightarrow> key_error option \<times> key_store" where
  "adapter_RemoveSubdomain J w keyID sub ks = RemoveSubdomain J w keyID sub ks"

definition adapter_OwnedSubdomains :: "key_store \<Rightarrow> string \<Rightarrow> string list" where
  "adapter_OwnedSubdomains ks key = OwnedSubdomains ks key"

lemmas adapter_calls [simp] = adapter_Validate_def adapter_CreateKey_def adapter_RevokeKey_def adapter_AddSubdomain_def
  adapter_RemoveSubdomain_def adapter_OwnedSubdomains_def

end
