(* ===== verification/Key_Properties.thy ===== *)
theory Key_Properties
  imports Key_Proofs
begin

text \<open>
  The key store as a state machine, its contracts (\<open>state_machine\<close>, \<open>tunnel_counter\<close>) discharged, and
  the properties of the keys.
\<close>

subsection \<open>The store as a state machine\<close>

definition write_failed :: "key_error option \<Rightarrow> bool" where
  "write_failed r = (case r of Some (PersistKey e) \<Rightarrow> True | Some (SaveError e) \<Rightarrow> True | _ \<Rightarrow> False)"

text \<open>
  One call of an operation that changes the store. With \<open>strict\<close> only the calls whose write did not
  fail are steps.
\<close>

inductive key_step :: "json_api \<Rightarrow> bool \<Rightarrow> key_store \<Rightarrow> key_store \<Rightarrow> bool" for J strict where
  create_ok: "covers ord (ks_keys ks) \<Longrightarrow> CreateKey J ord rnd now w name subs n ks = (Inr key, ks') \<Longrightarrow>
    key_step J strict ks ks'"
| create_err: "covers ord (ks_keys ks) \<Longrightarrow> CreateKey J ord rnd now w name subs n ks = (Inl e, ks') \<Longrightarrow>
    strict \<longrightarrow> \<not> write_failed (Some e) \<Longrightarrow> key_step J strict ks ks'"
| revoke: "RevokeKey J ord w i ks = (r, ks') \<Longrightarrow> strict \<longrightarrow> \<not> write_failed r \<Longrightarrow> key_step J strict ks ks'"
| add: "covers ord (ks_keys ks) \<Longrightarrow> AddSubdomain J ord w i sub ks = (r, ks') \<Longrightarrow>
    strict \<longrightarrow> \<not> write_failed r \<Longrightarrow> key_step J strict ks ks'"
| remove: "RemoveSubdomain J w i sub ks = (r, ks') \<Longrightarrow> strict \<longrightarrow> \<not> write_failed r \<Longrightarrow> key_step J strict ks ks'"
| increment: "key_IncrementTunnels i ks = (c, ks') \<Longrightarrow> key_step J strict ks ks'"
| decrement: "ks' = key_DecrementTunnels i ks \<Longrightarrow> key_step J strict ks ks'"

definition no_keys :: "string \<Rightarrow> key_store" where
  "no_keys path = \<lparr>ks_keys = Map.empty, ks_filePath = path, ks_file = NotExist\<rparr>"

lemma key_step_inv:
  "key_step J strict ks ks' \<Longrightarrow> keys_inv (ks_keys ks) \<Longrightarrow> keys_inv (ks_keys ks')"
proof (induction rule: key_step.induct)
  case (create_ok ord ks rnd now w name subs n key ks')
  then show ?case using CreateKey_inv [of ks ord J rnd now w name subs n] by simp
next
  case (create_err ord ks rnd now w name subs n e ks')
  then show ?case using CreateKey_inv [of ks ord J rnd now w name subs n] by simp
next
  case (revoke ord w i ks r ks')
  then show ?case using RevokeKey_inv [of ks J ord w i] by simp
next
  case (add ord ks w i sub r ks')
  then show ?case using AddSubdomain_inv [of ks ord J w i sub] by simp
next
  case (remove w i sub ks r ks')
  then show ?case using RemoveSubdomain_inv [of ks J w i sub] by simp
next
  case (increment i ks c ks')
  then show ?case using key_IncrementTunnels_inv [of ks i] by simp
next
  case (decrement ks' i ks)
  then show ?case using key_DecrementTunnels_inv [of ks i] by simp
qed

interpretation key_machine: state_machine "no_keys path" "key_step J strict" "\<lambda>ks. keys_inv (ks_keys ks)"
  for path J strict
  by unfold_locales (auto simp: no_keys_def dest: key_step_inv)

subsection \<open>Counting tunnels\<close>

definition key_used :: "key_store \<Rightarrow> string \<Rightarrow> int option" where
  "key_used ks i = map_option ak_tunnelCount (ks_keys ks i)"

definition key_limit :: "key_store \<Rightarrow> string \<Rightarrow> int option" where
  "key_limit ks i = map_option ak_MaxTunnels (ks_keys ks i)"

lemmas key_counter_defs = key_IncrementTunnels_def key_DecrementTunnels_def key_used_def key_limit_def

interpretation keys: tunnel_counter key_IncrementTunnels key_DecrementTunnels key_used key_limit
  by unfold_locales (auto simp: key_counter_defs fun_eq_iff split: option.splits)

subsection \<open>Durability\<close>

text \<open>The documented behaviour of \<open>encoding/json\<close>: what was written is read back.\<close>

definition json_ok :: "json_api \<Rightarrow> (string \<Rightarrow> string) \<Rightarrow> bool" where
  "json_ok J utrim \<longleftrightarrow> (\<forall>m d. MarshalIndent J m = Inr d \<longrightarrow> Unmarshal J d = Inr (Some m) \<and> TrimSpace utrim d \<noteq> [])"

definition durable :: "json_api \<Rightarrow> (string \<Rightarrow> string) \<Rightarrow> key_store \<Rightarrow> bool" where
  "durable J utrim ks \<longleftrightarrow> ks_filePath ks \<noteq> [] \<and>
     NewKeyStore J utrim (ks_filePath ks) (ks_file ks) = Inr (ks\<lparr>ks_keys := restarted (persisted (ks_keys ks))\<rparr>)"

lemma restarted_empty [simp]: "restarted (persisted Map.empty) = Map.empty"
  by (simp add: restarted_def persisted_def)

lemma durable_no_keys: "path \<noteq> [] \<Longrightarrow> durable J utrim (no_keys path)"
  by (simp add: durable_def no_keys_def NewKeyStore_def Let_def)

lemma saveLocked_durable:
  assumes "json_ok J utrim" and "ks_filePath ks \<noteq> []" and "fst (saveLocked J w ks) = None"
  shows "durable J utrim (snd (saveLocked J w ks))"
  using assms by (cases "MarshalIndent J (persisted (ks_keys ks))")
    (auto simp: saveLocked_def durable_def NewKeyStore_def json_ok_def Let_def split: write_outcome.splits)

lemma durable_count:
  assumes "durable J utrim ks" and "\<And>k. store_key (f k) = store_key k"
  shows "durable J utrim (update_key i f ks)"
proof -
  have "persisted ((ks_keys ks)(i := map_option f (ks_keys ks i))) = persisted (ks_keys ks)"
    by (rule ext) (simp add: persisted_def option.map_comp comp_def assms(2))
  then show ?thesis using assms(1) by (simp add: durable_def update_key_def)
qed

lemma store_key_count [simp]: "store_key (ak_tunnelCount_update g k) = store_key k"
  by (simp add: store_key_def stored_key.defs)

lemma write_failed_simps [simp]:
  "\<not> write_failed None" "write_failed (Some (PersistKey e))" "write_failed (Some (SaveError e))"
  "write_failed (save_error r) = (r \<noteq> None)"
  by (simp_all add: write_failed_def save_error_def split: option.split)

lemma durable_path: "durable J utrim ks \<Longrightarrow> ks_filePath ks \<noteq> []"
  by (simp add: durable_def)

lemma CreateKey_durable:
  assumes "json_ok J utrim" and "durable J utrim ks"
    and "CreateKey J ord rnd now w name subs n ks = (r, ks')" and "\<And>e. r \<noteq> Inl (PersistKey e)"
  shows "durable J utrim ks'"
proof -
  let ?ks = "ks\<lparr>ks_keys := (ks_keys ks)(GenerateAPIKey rnd \<mapsto>
    \<lparr>ak_Name = name, ak_Subdomains = subs, ak_MaxTunnels = (if n \<le> 0 then 10 else n),
     ak_CreatedAt = now, ak_Active = True, ak_tunnelCount = 0\<rparr>)\<rparr>"
  obtain e ks2 where s: "saveLocked J w ?ks = (e, ks2)" by fastforce
  have "durable J utrim ks2" if "e = None"
    using saveLocked_durable [OF assms(1), of ?ks w] s that durable_path [OF assms(2)] by simp
  then show ?thesis using assms(2-) s
    by (auto simp: CreateKey_def Let_def split: if_splits option.splits)
qed

lemma save_update_durable:
  assumes "json_ok J utrim" and "durable J utrim ks"
    and "apfst save_error (saveLocked J w (update_key i f ks)) = (r, ks')" and "\<not> write_failed r"
  shows "durable J utrim ks'"
proof (cases "saveLocked J w (update_key i f ks)")
  case (Pair e ks2)
  then have "e = None" "ks' = ks2" using assms(3,4) by auto
  then show ?thesis
    using saveLocked_durable [OF assms(1), of "update_key i f ks" w] Pair durable_path [OF assms(2)] by simp
qed

lemma key_step_durable:
  assumes "json_ok J utrim"
  shows "key_step J True ks ks' \<Longrightarrow> durable J utrim ks \<Longrightarrow> durable J utrim ks'"
proof (induction rule: key_step.induct)
  case (create_ok ord ks rnd now w name subs n key ks')
  then show ?case by (blast intro: CreateKey_durable [OF assms])
next
  case (create_err ord ks rnd now w name subs n e ks')
  then show ?case by (intro CreateKey_durable [OF assms create_err.prems create_err.hyps(2)]) auto
next
  case (revoke ord w i ks r ks')
  then show ?case
    by (auto simp: RevokeKey_def split: option.splits intro: save_update_durable [OF assms])
next
  case (add ord ks w i sub r ks')
  then show ?case
    by (auto simp: AddSubdomain_def Let_def split: option.splits if_splits intro: save_update_durable [OF assms])
next
  case (remove w i sub ks r ks')
  then show ?case
    by (auto simp: RemoveSubdomain_def split: option.splits intro: save_update_durable [OF assms])
next
  case (increment i ks c ks')
  then show ?case by (auto simp: key_IncrementTunnels_def durable_count split: option.splits if_splits)
next
  case (decrement ks' i ks)
  then show ?case by (auto simp: key_DecrementTunnels_def durable_count split: option.splits)
qed

lemma durable_run:
  "(key_step J True)\<^sup>*\<^sup>* (no_keys path) ks \<Longrightarrow> json_ok J utrim \<Longrightarrow> path \<noteq> [] \<Longrightarrow> durable J utrim ks"
  by (induction rule: rtranclp_induct) (auto intro: durable_no_keys key_step_durable)

lemma CreateKey_path: "ks_filePath (snd (CreateKey J ord rnd now w name subs n ks)) = ks_filePath ks"
proof -
  have "saveLocked J w x = (e, ks2) \<Longrightarrow> ks_filePath ks2 = ks_filePath x" for x e ks2
    using saveLocked_keys(2) [of J w x] by simp
  then show ?thesis by (fastforce simp: CreateKey_def Let_def split: option.splits prod.splits)
qed

lemma key_step_path: "key_step J strict ks ks' \<Longrightarrow> ks_filePath ks' = ks_filePath ks"
  by (induction rule: key_step.induct)
     (auto dest!: arg_cong [where f = "\<lambda>x. ks_filePath (snd x)"]
       simp: CreateKey_path RevokeKey_def AddSubdomain_def RemoveSubdomain_def key_counter_defs Let_def
       split: option.splits if_splits)

lemma key_run_path: "(key_step J strict)\<^sup>*\<^sup>* ks ks' \<Longrightarrow> ks_filePath ks' = ks_filePath ks"
  by (induction rule: rtranclp_induct) (auto dest: key_step_path)

lemma store_load [simp]: "store_key (load_key k) = k"
  by (simp add: store_key_def load_key_def stored_key.defs api_key.defs)

lemma persisted_restarted [simp]: "persisted (restarted m) = m"
  by (rule ext) (simp add: persisted_def restarted_def option.map_comp comp_def option.map_ident)

subsection \<open>Limits\<close>

definition counts_ok :: "key_store \<Rightarrow> bool" where
  "counts_ok ks \<longleftrightarrow> (\<forall>i k. ks_keys ks i = Some k \<longrightarrow>
     0 < ak_MaxTunnels k \<and> 0 \<le> ak_tunnelCount k \<and> ak_tunnelCount k \<le> ak_MaxTunnels k)"

lemma counts_ok_update:
  assumes "counts_ok ks" and "\<And>k. ks_keys ks i = Some k \<Longrightarrow> ak_MaxTunnels (f k) = ak_MaxTunnels k \<and>
      0 \<le> ak_tunnelCount (f k) \<and> ak_tunnelCount (f k) \<le> ak_MaxTunnels k"
  shows "counts_ok (update_key i f ks)"
  using assms by (auto simp: counts_ok_def)

lemma counts_ok_keys: "ks_keys ks' = ks_keys ks \<Longrightarrow> counts_ok ks' = counts_ok ks"
  by (simp add: counts_ok_def)

lemma counts_ok_save [simp]: "counts_ok (snd (saveLocked J w ks)) = counts_ok ks"
  by (rule counts_ok_keys) simp

lemma CreateKey_counts: "counts_ok ks \<Longrightarrow> counts_ok (snd (CreateKey J ord rnd now w name subs n ks))"
proof -
  have "saveLocked J w x = (e, ks2) \<Longrightarrow> ks_keys ks2 = ks_keys x" for x e ks2
    using saveLocked_keys(1) [of J w x] by simp
  moreover assume "counts_ok ks"
  ultimately show ?thesis
    by (fastforce simp: CreateKey_def Let_def counts_ok_def split: option.splits prod.splits if_splits)
qed

lemma key_step_counts: "key_step J strict ks ks' \<Longrightarrow> counts_ok ks \<Longrightarrow> counts_ok ks'"
proof (induction rule: key_step.induct)
  case (create_ok ord ks rnd now w name subs n key ks')
  then show ?case using CreateKey_counts [of ks J ord rnd now w name subs n] by simp
next
  case (create_err ord ks rnd now w name subs n e ks')
  then show ?case using CreateKey_counts [of ks J ord rnd now w name subs n] by simp
next
  case (decrement ks' i ks)
  then show ?case by (cases "ks_keys ks i") (fastforce simp: key_DecrementTunnels_def counts_ok_def)+
qed (auto dest!: arg_cong [where f = snd] simp: RevokeKey_def AddSubdomain_def RemoveSubdomain_def
      key_counter_defs counts_ok_def Let_def split: option.splits if_splits)

interpretation key_counts: state_machine "no_keys path" "key_step J strict" counts_ok
  for path J strict
  by unfold_locales (auto simp: no_keys_def counts_ok_def dest: key_step_counts)

subsection \<open>Examples\<close>

definition utrim_none :: "string \<Rightarrow> string" where
  "utrim_none s = s"

definition demo_key :: api_key where
  "demo_key = \<lparr>ak_Name = ''ann'', ak_Subdomains = [''shop''], ak_MaxTunnels = 10, ak_CreatedAt = 5,
     ak_Active = True, ak_tunnelCount = 0\<rparr>"

text \<open>A marshaller that can only write the one document of the example.\<close>

definition demo_document :: "string \<rightharpoonup> stored_key" where
  "demo_document = [GenerateAPIKey (\<lambda>_. 7) \<mapsto> store_key demo_key]"

definition demo_json :: json_api where
  "demo_json = \<lparr>MarshalIndent = (\<lambda>m. if m = demo_document then Inr ''doc'' else Inl ''unsupported''),
     Unmarshal = (\<lambda>d. Inr (Some demo_document))\<rparr>"

definition demo_store :: key_store where
  "demo_store = \<lparr>ks_keys = [GenerateAPIKey (\<lambda>_. 7) \<mapsto> demo_key], ks_filePath = ''keys.json'',
     ks_file = FileData ''doc''\<rparr>"

lemma demo_json_ok: "json_ok demo_json utrim_none"
  by (auto simp: json_ok_def demo_json_def TrimSpace_def utrim_none_def white_def Let_def split: if_splits)

lemma persisted_upd [simp]: "persisted (m(i \<mapsto> k)) = (persisted m)(i \<mapsto> store_key k)"
  by (rule ext) (simp add: persisted_def)

lemma persisted_empty [simp]: "persisted Map.empty = Map.empty"
  by (rule ext) (simp add: persisted_def)

lemma valid_shop: "ValidateSubdomain ''shop'' = None" "ValidateSubdomain ''blog'' = None"
  by (simp_all add: ValidateSubdomain_None label_shape_def reservedSubdomains_def lower_alnum_def
      lower_alnum_hyphen_def Let_def)

lemma demo_create:
  "CreateKey demo_json [] (\<lambda>_. 7) 5 WriteOk ''ann'' [''shop''] 0 (no_keys ''keys.json'') =
     (Inr (GenerateAPIKey (\<lambda>_. 7)), demo_store)"
  by (simp add: CreateKey_def FindSubdomainOwner_def valid_shop saveLocked_def no_keys_def
      demo_json_def demo_document_def demo_store_def demo_key_def Let_def)

lemma demo_run: "(key_step demo_json strict)\<^sup>*\<^sup>* (no_keys ''keys.json'') demo_store"
  using key_step.create_ok [OF _ demo_create]
  by (intro r_into_rtranclp) (simp add: covers_def no_keys_def)

subsection \<open>Properties\<close>

text \<open>
  C23: In every state the key store can reach, failed writes included, whatever order the map is searched
  in, the search for the owner of a subdomain finds a key exactly when that key is active and lists the
  subdomain: no subdomain has two owners.
\<close>

theorem subdomain_single_owner:
  assumes "(key_step J strict)\<^sup>*\<^sup>* (no_keys path) ks" and "covers ord (ks_keys ks)" and "i \<noteq> []"
  shows "FindSubdomainOwner ord ks sub = i \<longleftrightarrow> owns (ks_keys ks) i sub"
  by (rule owner_iff [OF key_machine.good_run [OF assms(1)] assms(2,3)])

theorem subdomain_single_owner_witness:
  "FindSubdomainOwner [GenerateAPIKey (\<lambda>_. 7)] demo_store ''shop'' = GenerateAPIKey (\<lambda>_. 7)"
proof -
  have "owns (ks_keys demo_store) (GenerateAPIKey (\<lambda>_. 7)) ''shop''"
    by (simp add: owns_def demo_store_def demo_key_def)
  then show ?thesis
    using subdomain_single_owner [OF demo_run, where i = "GenerateAPIKey (\<lambda>_. 7)"
        and ord = "[GenerateAPIKey (\<lambda>_. 7)]" and sub = "''shop''"]
    by (simp add: covers_def demo_store_def)
qed



text \<open>
  No key ever counts more tunnels than its limit, fewer than none, or has a limit of zero, in any
  state the store reaches from an empty one.
\<close>

theorem key_counts_bounded:
  assumes "(key_step J strict)\<^sup>*\<^sup>* (no_keys path) ks" and "ks_keys ks i = Some k"
  shows "0 < ak_MaxTunnels k \<and> 0 \<le> ak_tunnelCount k \<and> ak_tunnelCount k \<le> ak_MaxTunnels k"
  using key_counts.good_run [OF assms(1)] assms(2) by (simp add: counts_ok_def)

theorem key_counts_bounded_witness: "0 < ak_MaxTunnels demo_key"
  using key_counts_bounded [OF demo_run, of "GenerateAPIKey (\<lambda>_. 7)" demo_key]
  by (simp add: demo_store_def)

text \<open>
  What a claim of a subdomain does: it changes who owns what only by giving the key that subdomain,
  and only for an active key, a valid label and a label nobody owned. A call that reports a failed write
  has still claimed the subdomain in memory.
\<close>

theorem claim_outcome:
  assumes "keys_inv (ks_keys ks)" and "covers ord (ks_keys ks)"
    and "AddSubdomain J ord w i sub ks = (r, ks')"
  shows "owns (ks_keys ks') j s \<longleftrightarrow> owns (ks_keys ks) j s \<or>
    (j = i \<and> s = sub \<and> key_Validate ks i \<and> ValidateSubdomain sub = None \<and>
     (\<forall>j. \<not> owns (ks_keys ks) j sub) \<and> (r = None \<or> (\<exists>e. r = Some (SaveError e))))"
proof (cases "ValidateSubdomain sub = None \<and> key_Validate ks i \<and> FindSubdomainOwner ord ks sub = []")
  case True
  then obtain k where k: "ks_keys ks i = Some k" "ak_Active k"
    by (auto simp: key_Validate_def split: option.splits)
  have none: "\<not> owns (ks_keys ks) l sub" for l using no_owner [OF assms(1,2)] True by blast
  let ?ks = "update_key i (ak_Subdomains_update (\<lambda>subs. subs @ [sub])) ks"
  have *: "(r, ks') = apfst save_error (saveLocked J w ?ks)"
    using assms(3) True k by (simp add: AddSubdomain_def)
  then have "ks_keys ks' = ks_keys ?ks" and "r = None \<or> (\<exists>e. r = Some (SaveError e))"
    using saveLocked_keys(1) [of J w ?ks] by (cases "saveLocked J w ?ks"; auto simp: save_error_def)+
  then show ?thesis using k none True by (auto simp: owns_def)
next
  case False
  then have "ks' = ks" using assms(3)
    by (auto simp: AddSubdomain_def key_Validate_def Let_def split: option.splits if_splits)
  moreover have "\<not> (ValidateSubdomain sub = None \<and> key_Validate ks i \<and> (\<forall>j. \<not> owns (ks_keys ks) j sub))"
    using False find_owner_owns [of sub ord "ks_keys ks"] by (auto simp: FindSubdomainOwner_def)
  ultimately show ?thesis by blast
qed

theorem claim_outcome_witness:
  "\<exists>r ks'. AddSubdomain demo_json [GenerateAPIKey (\<lambda>_. 7)] (WriteError ''disk full'' NotExist)
       (GenerateAPIKey (\<lambda>_. 7)) ''blog'' demo_store = (r, ks') \<and> r \<noteq> None \<and>
     owns (ks_keys ks') (GenerateAPIKey (\<lambda>_. 7)) ''blog''"
proof -
  let ?i = "GenerateAPIKey (\<lambda>_. 7)"
  obtain r ks' where a: "AddSubdomain demo_json [?i] (WriteError ''disk full'' NotExist) ?i ''blog'' demo_store = (r, ks')"
    by fastforce
  then have "r \<noteq> None \<and> (\<exists>e. r = Some (SaveError e))"
    by (auto simp: AddSubdomain_def FindSubdomainOwner_def demo_store_def demo_key_def valid_shop saveLocked_def
        demo_json_def demo_document_def save_error_def split: if_splits)
  moreover have "\<not> owns (ks_keys demo_store) j ''blog''" for j
    by (simp add: owns_def demo_store_def demo_key_def)
  moreover have "key_Validate demo_store ?i" by (simp add: key_Validate_def demo_store_def demo_key_def)
  ultimately show ?thesis
    using claim_outcome [OF key_machine.good_run [OF demo_run] _ a, of ?i "''blog''"] a
    by (auto simp: covers_def demo_store_def valid_shop)
qed

text \<open>
  Revoking a key by its full value takes effect at once even when the write fails: that key stops
  being accepted and owns nothing, every other key is accepted and owns as before.
\<close>

theorem revoke_by_key:
  assumes "ks_keys ks i \<noteq> None" and "RevokeKey J ord w i ks = (r, ks')"
  shows "key_Validate ks' j = (key_Validate ks j \<and> j \<noteq> i) \<and>
    owns (ks_keys ks') j s = (owns (ks_keys ks) j s \<and> j \<noteq> i)"
proof -
  let ?ks = "update_key i (ak_Active_update (\<lambda>_. False)) ks"
  have "(r, ks') = apfst save_error (saveLocked J w ?ks)"
    using assms by (auto simp: RevokeKey_def findKeyByIDOrPreview_def)
  then have "ks_keys ks' = ks_keys ?ks"
    using saveLocked_keys(1) [of J w ?ks] by (metis snd_conv map_fst_snd(2))
  then show ?thesis using assms(1) by (auto simp: key_Validate_def owns_def)
qed

theorem revoke_by_key_witness:
  "\<exists>r ks'. RevokeKey demo_json [] WriteOk (GenerateAPIKey (\<lambda>_. 7)) demo_store = (r, ks') \<and>
     \<not> key_Validate ks' (GenerateAPIKey (\<lambda>_. 7))"
proof -
  obtain r ks' where "RevokeKey demo_json [] WriteOk (GenerateAPIKey (\<lambda>_. 7)) demo_store = (r, ks')"
    by fastforce
  then show ?thesis using revoke_by_key [of demo_store "GenerateAPIKey (\<lambda>_. 7)" demo_json "[]" WriteOk r ks']
    by (auto simp: demo_store_def)
qed

text \<open>
  The preview the administrator's list shows (\<open>maskKey\<close>, four characters and four) is not one that
  \<open>RevokeKey\<close> recognises (\<open>MaskKey\<close>, eight characters and four).
\<close>

lemma preview_not_found:
  assumes "\<And>i. ks_keys ks i \<noteq> None \<Longrightarrow> 12 \<le> length i"
  shows "RevokeKey J ord w (maskKey key) ks = (Some KeyNotFound, ks)"
proof -
  have "ks_keys ks (maskKey key) = None" using assms [of "maskKey key"] length_maskKey [of key] by force
  moreover have "find_preview (maskKey key) ord (ks_keys ks) = None"
  proof (induction ord)
    case (Cons i ord)
    then show ?case using assms [of i] maskKey_not_MaskKey [of i key] by auto
  qed simp
  ultimately show ?thesis by (simp add: RevokeKey_def findKeyByIDOrPreview_def)
qed

end
