(* ===== verification/Request_Log.thy ===== *)
theory Request_Log
  imports Prelude
begin

text \<open>
  The log of proxied requests (\<open>internal/server/request_log.go\<close>): a ring buffer of
  \<open>maxLogEntries\<close> entries, the channels of its subscribers, and the statistics computed from it.
  Go's \<open>int\<close> and \<open>int64\<close> totals are integers (ten thousand entries cannot overflow them).
\<close>

record log_entry =
  e_Timestamp :: time
  e_TunnelID :: string
  e_Subdomain :: string
  e_Token :: string
  e_Method :: string
  e_Path :: string
  e_Status :: int
  e_DurationMs :: int
  e_Size :: int

record traffic_bucket =
  tb_Timestamp :: time
  tb_Requests :: int
  tb_BytesIn :: int
  tb_BytesOut :: int
  tb_Status2xx :: int
  tb_Status3xx :: int
  tb_Status4xx :: int
  tb_Status5xx :: int
  tb_AvgLatency :: int

record path_count =
  pc_Path :: string
  pc_Count :: int

definition maxLogEntries :: nat where
  "maxLogEntries = 10000"

subsection \<open>Channels\<close>

text \<open>A buffered channel of 64 slots. A send to a closed channel and a second \<open>close\<close> panic (\<open>None\<close>).\<close>

record 'a go_chan =
  ch_buf :: "'a list"
  ch_closed :: bool

definition make_chan :: "'a go_chan" where
  "make_chan = \<lparr>ch_buf = [], ch_closed = False\<rparr>"

definition chan_cap :: nat where
  "chan_cap = 64"

text \<open>\<open>select { case ch <- e: default: }\<close>\<close>

definition try_send :: "'a \<Rightarrow> 'a go_chan \<Rightarrow> 'a go_chan option" where
  "try_send e c =
     (if ch_closed c then None
      else if length (ch_buf c) < chan_cap then Some (c\<lparr>ch_buf := ch_buf c @ [e]\<rparr>)
      else Some c)"

definition close_chan :: "'a go_chan \<Rightarrow> 'a go_chan option" where
  "close_chan c = (if ch_closed c then None else Some (c\<lparr>ch_closed := True\<rparr>))"

subsection \<open>The ring buffer\<close>

record ring =
  rg_entries :: "log_entry list"
  rg_pos :: nat
  rg_full :: bool

definition zero_entry :: log_entry where
  "zero_entry = \<lparr>e_Timestamp = 0, e_TunnelID = [], e_Subdomain = [], e_Token = [], e_Method = [],
     e_Path = [], e_Status = 0, e_DurationMs = 0, e_Size = 0\<rparr>"

definition new_ring :: ring where
  "new_ring = \<lparr>rg_entries = replicate maxLogEntries zero_entry, rg_pos = 0, rg_full = False\<rparr>"

definition ring_add :: "log_entry \<Rightarrow> ring \<Rightarrow> ring" where
  "ring_add e r =
     (let r1 = r\<lparr>rg_entries := (rg_entries r)[rg_pos r := e], rg_pos := rg_pos r + 1\<rparr> in
      if rg_pos r1 \<ge> maxLogEntries then r1\<lparr>rg_pos := 0, rg_full := True\<rparr> else r1)"

text \<open>The loop that reverses a slice in place by swapping from both ends.\<close>

function reverse_loop :: "'a list \<Rightarrow> int \<Rightarrow> int \<Rightarrow> 'a list" where
  "reverse_loop raw i j =
     (if i < j
      then reverse_loop (raw[nat i := raw ! nat j, nat j := raw ! nat i]) (i + 1) (j - 1)
      else raw)"
  by pat_completeness auto
termination by (relation "measure (\<lambda>(raw, i, j). nat (j - i))") auto

declare reverse_loop.simps [simp del]

definition ring_raw :: "ring \<Rightarrow> log_entry list" where
  "ring_raw r =
     (if rg_full r then drop (rg_pos r) (rg_entries r) @ take (rg_pos r) (rg_entries r)
      else take (rg_pos r) (rg_entries r))"

definition snapshot :: "string \<Rightarrow> ring \<Rightarrow> log_entry list" where
  "snapshot token r =
     (let raw = ring_raw r; all = reverse_loop raw 0 (int (length raw) - 1) in
      if token = [] then all else filter (\<lambda>e. e_Token e = token) all)"

definition Recent :: "int \<Rightarrow> string \<Rightarrow> ring \<Rightarrow> log_entry list" where
  "Recent limit token r =
     (let all = snapshot token r in
      if limit \<le> 0 \<or> limit \<ge> int (length all) then all else take (nat limit) all)"

subsection \<open>Subscribers\<close>

text \<open>
  Channels have numbers; \<open>rl_chans\<close> holds every channel \<open>Subscribe\<close> made, \<open>rl_subs\<close> the ones that are
  subscribed. \<open>None\<close> is a panic.
\<close>

record request_log =
  rl_ring :: ring
  rl_chans :: "nat \<rightharpoonup> log_entry go_chan"
  rl_subs :: "nat set"
  rl_next :: nat

definition NewRequestLog :: request_log where
  "NewRequestLog = \<lparr>rl_ring = new_ring, rl_chans = Map.empty, rl_subs = {}, rl_next = 0\<rparr>"

definition fan_out :: "log_entry \<Rightarrow> nat set \<Rightarrow> (nat \<rightharpoonup> log_entry go_chan) \<Rightarrow> (nat \<rightharpoonup> log_entry go_chan) option" where
  "fan_out e subs chans =
     (if \<forall>c \<in> subs. \<exists>ch. chans c = Some ch \<and> try_send e ch \<noteq> None
      then Some (\<lambda>c. if c \<in> subs then Option.bind (chans c) (try_send e) else chans c)
      else None)"

definition Add :: "log_entry \<Rightarrow> request_log \<Rightarrow> request_log option" where
  "Add e rl =
     (let rl1 = rl\<lparr>rl_ring := ring_add e (rl_ring rl)\<rparr> in
      map_option (\<lambda>chans. rl1\<lparr>rl_chans := chans\<rparr>) (fan_out e (rl_subs rl1) (rl_chans rl1)))"

definition Subscribe :: "request_log \<Rightarrow> nat \<times> request_log" where
  "Subscribe rl =
     (let c = rl_next rl in
      (c, rl\<lparr>rl_chans := (rl_chans rl)(c \<mapsto> make_chan), rl_subs := insert c (rl_subs rl), rl_next := c + 1\<rparr>))"

definition Unsubscribe :: "nat \<Rightarrow> request_log \<Rightarrow> request_log option" where
  "Unsubscribe c rl =
     (let rl1 = rl\<lparr>rl_subs := rl_subs rl - {c}\<rparr> in
      case rl_chans rl1 c of
        None \<Rightarrow> None
      | Some ch \<Rightarrow> map_option (\<lambda>ch'. rl1\<lparr>rl_chans := (rl_chans rl1)(c \<mapsto> ch')\<rparr>) (close_chan ch))"

subsection \<open>Traffic\<close>

record accumulator =
  ac_reqs :: int
  ac_bytesOut :: int
  ac_status2xx :: int
  ac_status3xx :: int
  ac_status4xx :: int
  ac_status5xx :: int
  ac_totalMs :: int

definition zero_accumulator :: accumulator where
  "zero_accumulator = \<lparr>ac_reqs = 0, ac_bytesOut = 0, ac_status2xx = 0, ac_status3xx = 0,
     ac_status4xx = 0, ac_status5xx = 0, ac_totalMs = 0\<rparr>"

definition accumulate :: "log_entry \<Rightarrow> accumulator \<Rightarrow> accumulator" where
  "accumulate e b =
     (let b1 = b\<lparr>ac_reqs := ac_reqs b + 1, ac_bytesOut := ac_bytesOut b + e_Size e,
                 ac_totalMs := ac_totalMs b + e_DurationMs e\<rparr> in
      if e_Status e \<ge> 500 then b1\<lparr>ac_status5xx := ac_status5xx b1 + 1\<rparr>
      else if e_Status e \<ge> 400 then b1\<lparr>ac_status4xx := ac_status4xx b1 + 1\<rparr>
      else if e_Status e \<ge> 300 then b1\<lparr>ac_status3xx := ac_status3xx b1 + 1\<rparr>
      else b1\<lparr>ac_status2xx := ac_status2xx b1 + 1\<rparr>)"

text \<open>
  \<open>int(now.Sub(ts).Minutes())\<close>: whole minutes, truncated. (\<open>Minutes\<close> returns a \<open>float64\<close>, which
  has the exact integer part for every offset below 2^17 minutes.)
\<close>

definition minute_index :: "time \<Rightarrow> log_entry \<Rightarrow> int" where
  "minute_index now e = (let i = quot (now - e_Timestamp e) minute in if i < 0 then 0 else i)"

fun fill_buckets ::
    "time \<Rightarrow> int \<Rightarrow> log_entry list \<Rightarrow> (int \<rightharpoonup> accumulator) \<Rightarrow> (int \<rightharpoonup> accumulator)" where
  "fill_buckets now minutes [] buckets = buckets"
| "fill_buckets now minutes (e # es) buckets =
     (if e_Timestamp e < now - minutes * minute then fill_buckets now minutes es buckets
      else
        let i = minute_index now e in
        if i \<ge> minutes then fill_buckets now minutes es buckets
        else
          let b = (case buckets i of None \<Rightarrow> zero_accumulator | Some b \<Rightarrow> b) in
          fill_buckets now minutes es (buckets(i \<mapsto> accumulate e b)))"

definition bucket_of :: "time \<Rightarrow> accumulator option \<Rightarrow> traffic_bucket" where
  "bucket_of ts b =
     (let tb = \<lparr>tb_Timestamp = ts, tb_Requests = 0, tb_BytesIn = 0, tb_BytesOut = 0, tb_Status2xx = 0,
                tb_Status3xx = 0, tb_Status4xx = 0, tb_Status5xx = 0, tb_AvgLatency = 0\<rparr> in
      case b of
        None \<Rightarrow> tb
      | Some b \<Rightarrow> tb\<lparr>tb_Requests := ac_reqs b, tb_BytesOut := ac_bytesOut b,
          tb_Status2xx := ac_status2xx b, tb_Status3xx := ac_status3xx b,
          tb_Status4xx := ac_status4xx b, tb_Status5xx := ac_status5xx b,
          tb_AvgLatency := (if ac_reqs b > 0 then quot (ac_totalMs b) (ac_reqs b) else 0)\<rparr>)"

definition truncate_minute :: "time \<Rightarrow> time" where
  "truncate_minute t = t - t mod minute"

definition window :: "int \<Rightarrow> int" where
  "window minutes = (if minutes \<le> 0 then 30 else minutes)"

definition TrafficStats :: "time \<Rightarrow> int \<Rightarrow> string \<Rightarrow> ring \<Rightarrow> traffic_bucket list" where
  "TrafficStats now minutes0 token r =
     (let minutes = window minutes0;
          buckets = fill_buckets now minutes (snapshot token r) Map.empty
      in map (\<lambda>i. bucket_of (truncate_minute (now - (minutes - 1 - int i) * minute))
                            (buckets (minutes - 1 - int i)))
             [0..<nat minutes])"

subsection \<open>Top paths\<close>

definition count_paths :: "log_entry list \<Rightarrow> (string \<rightharpoonup> int)" where
  "count_paths es = fold (\<lambda>e m. m(e_Path e \<mapsto> (case m (e_Path e) of None \<Rightarrow> 0 | Some n \<Rightarrow> n) + 1)) es Map.empty"

text \<open>
  \<open>sort.Slice\<close> does not keep the order of equal elements, and the order the map was ranged in is
  arbitrary as well: a stable sort after an arbitrary order \<open>ord\<close> gives every outcome.
\<close>

definition TopPaths :: "string list \<Rightarrow> int \<Rightarrow> string \<Rightarrow> ring \<Rightarrow> path_count list" where
  "TopPaths ord n token r =
     (let counts = count_paths (snapshot token r);
          out = sort_key (\<lambda>p. - pc_Count p)
            (List.map_filter (\<lambda>p. map_option (\<lambda>c. \<lparr>pc_Path = p, pc_Count = c\<rparr>) (counts p)) ord)
      in if n > 0 \<and> n < int (length out) then take (nat n) out else out)"

end
