(* ===== verification/Log_Proofs.thy ===== *)
theory Log_Proofs
  imports Request_Log
begin

text \<open>
  The ring buffer implements a bounded log, the contract its readers rely on (\<open>bounded_log\<close>);
  the statistics count exactly the entries of their window.
\<close>

subsection \<open>The contract of a bounded log\<close>

locale bounded_log =
  fixes empty :: "'s" and add :: "'e \<Rightarrow> 's \<Rightarrow> 's" and recent :: "'s \<Rightarrow> 'e list"
    and cap :: nat and ok :: "'s \<Rightarrow> bool"
  assumes ok_empty: "ok empty" and ok_add: "ok s \<Longrightarrow> ok (add e s)"
    and recent_empty: "recent empty = []"
    and recent_add: "ok s \<Longrightarrow> recent (add e s) = take cap (e # recent s)"
begin

lemma log_run: "ok (fold add es empty) \<and> recent (fold add es empty) = take cap (rev es)"
proof (induction es rule: rev_induct)
  case Nil
  then show ?case by (simp add: ok_empty recent_empty)
next
  case (snoc e es)
  then have "recent (add e (fold add es empty)) = take cap (e # take cap (rev es))"
    using recent_add by simp
  also have "\<dots> = take cap (e # rev es)" by (cases cap) (simp_all add: take_Suc_Cons min_def)
  finally show ?case using snoc ok_add by simp
qed

lemma recent_run: "recent (fold add es empty) = take cap (rev es)"
  using log_run by blast

lemma recent_bounded: "length (recent (fold add es empty)) \<le> cap"
  by (simp add: recent_run)

end

subsection \<open>The reversing loop\<close>

lemma swap_nth:
  assumes "i < length raw" and "j < length raw" and "k < length raw"
  shows "(raw[i := raw ! j, j := raw ! i]) ! k = (if k = j then raw ! i else if k = i then raw ! j else raw ! k)"
  using assms by (simp add: nth_list_update)

lemma reverse_loop_nth:
  assumes "0 \<le> i" and "i + j = int (length raw) - 1" and "i \<le> j + 1"
  shows "length (reverse_loop raw i j) = length raw \<and>
    (\<forall>k < length raw. reverse_loop raw i j ! k =
      (if i \<le> int k \<and> int k \<le> j then raw ! (length raw - 1 - k) else raw ! k))"
  using assms
proof (induction raw i j rule: reverse_loop.induct)
  case (1 raw i j)
  show ?case
  proof (cases "i < j")
    case False
    have "raw ! k = raw ! (length raw - 1 - k)" if "i \<le> int k" "int k \<le> j" for k
    proof -
      have "length raw - 1 - k = k" using that False "1.prems" by linarith
      then show ?thesis by simp
    qed
    then show ?thesis using False by (simp add: reverse_loop.simps [of raw i j])
  next
    case True
    let ?raw = "raw[nat i := raw ! nat j, nat j := raw ! nat i]"
    have ij: "nat i < length raw" "nat j < length raw" "nat i < nat j" using True "1.prems" by linarith+
    have IH: "length (reverse_loop ?raw (i + 1) (j - 1)) = length raw \<and>
      (\<forall>k < length raw. reverse_loop ?raw (i + 1) (j - 1) ! k =
        (if i + 1 \<le> int k \<and> int k \<le> j - 1 then ?raw ! (length raw - 1 - k) else ?raw ! k))"
      using "1.IH" [OF True] True "1.prems" by simp
    have "(if i + 1 \<le> int k \<and> int k \<le> j - 1 then ?raw ! (length raw - 1 - k) else ?raw ! k) =
        (if i \<le> int k \<and> int k \<le> j then raw ! (length raw - 1 - k) else raw ! k)" if k: "k < length raw" for k
    proof -
      consider "int k = i" | "int k = j" | "i + 1 \<le> int k \<and> int k \<le> j - 1" | "int k < i \<or> j < int k"
        by linarith
      then show ?thesis
      proof cases
        case 1
        then have "k = nat i" "length raw - 1 - k = nat j" using "1.prems" True by linarith+
        then show ?thesis using ij 1 True by (simp add: swap_nth)
      next
        case 2
        then have "k = nat j" "length raw - 1 - k = nat i" using "1.prems" True by linarith+
        then show ?thesis using ij 2 True by (simp add: swap_nth)
      next
        case 3
        then have "length raw - 1 - k \<noteq> nat i" "length raw - 1 - k \<noteq> nat j" "length raw - 1 - k < length raw"
          using "1.prems" True by linarith+
        then show ?thesis using ij 3 by (simp add: swap_nth)
      next
        case 4
        then have "k \<noteq> nat i" "k \<noteq> nat j" using True "1.prems" by linarith+
        then show ?thesis using ij 4 k by (auto simp: swap_nth)
      qed
    qed
    then show ?thesis using IH True by (simp add: reverse_loop.simps [of raw i j])
  qed
qed

lemma reverse_loop_rev: "reverse_loop raw 0 (int (length raw) - 1) = rev raw"
proof (rule nth_equalityI)
  have *: "length (reverse_loop raw 0 (int (length raw) - 1)) = length raw \<and>
    (\<forall>k < length raw. reverse_loop raw 0 (int (length raw) - 1) ! k =
      (if 0 \<le> int k \<and> int k \<le> int (length raw) - 1 then raw ! (length raw - 1 - k) else raw ! k))"
    by (rule reverse_loop_nth) auto
  then show "length (reverse_loop raw 0 (int (length raw) - 1)) = length (rev raw)" by simp
  show "reverse_loop raw 0 (int (length raw) - 1) ! k = rev raw ! k"
    if "k < length (reverse_loop raw 0 (int (length raw) - 1))" for k
    using that * by (simp add: rev_nth)
qed

lemma snapshot_eq:
  "snapshot token r = (if token = [] then rev (ring_raw r) else filter (\<lambda>e. e_Token e = token) (rev (ring_raw r)))"
  by (simp add: snapshot_def reverse_loop_rev Let_def)

subsection \<open>The ring is a bounded log\<close>

definition ring_ok :: "ring \<Rightarrow> bool" where
  "ring_ok r \<longleftrightarrow> length (rg_entries r) = maxLogEntries \<and> rg_pos r < maxLogEntries"

lemma maxLogEntries_pos [simp]: "0 < maxLogEntries"
  by (simp add: maxLogEntries_def)

lemma ring_ok_new: "ring_ok new_ring"
  by (simp add: ring_ok_def new_ring_def)

lemma ring_ok_add: "ring_ok r \<Longrightarrow> ring_ok (ring_add e r)"
  by (auto simp: ring_ok_def ring_add_def Let_def)

lemma ring_raw_add:
  assumes "ring_ok r"
  shows "ring_raw (ring_add e r) =
    (if rg_full r then tl (ring_raw r) @ [e] else ring_raw r @ [e])"
proof -
  let ?es = "rg_entries r" and ?p = "rg_pos r"
  have p: "?p < length ?es" "length ?es = maxLogEntries" using assms by (auto simp: ring_ok_def)
  have upd: "?es[?p := e] = take ?p ?es @ e # drop (Suc ?p) ?es" by (rule upd_conv_take_nth_drop [OF p(1)])
  have d: "drop ?p ?es = ?es ! ?p # drop (Suc ?p) ?es" by (rule Cons_nth_drop_Suc [symmetric, OF p(1)])
  have t: "take (Suc ?p) (?es[?p := e]) = take ?p ?es @ [e]" using p by (simp add: upd)
  have d': "drop (Suc ?p) (?es[?p := e]) = drop (Suc ?p) ?es" by simp
  show ?thesis
  proof (cases "Suc ?p = maxLogEntries")
    case True
    have "length (?es[?p := e]) = Suc ?p" using p True by simp
    then have "?es[?p := e] = take ?p ?es @ [e]" using t by simp
    moreover have "drop (Suc ?p) ?es = []" using p True by simp
    ultimately show ?thesis using True d by (simp add: ring_add_def ring_raw_def Let_def)
  next
    case False
    then have "\<not> maxLogEntries \<le> Suc ?p" using p by linarith
    then show ?thesis using t d' d by (simp add: ring_add_def ring_raw_def Let_def)
  qed
qed

lemma length_ring_raw:
  "ring_ok r \<Longrightarrow> length (ring_raw r) = (if rg_full r then maxLogEntries else rg_pos r)"
  by (simp add: ring_ok_def ring_raw_def)

lemma snapshot_ring_add:
  assumes "ring_ok r"
  shows "snapshot [] (ring_add e r) = take maxLogEntries (e # snapshot [] r)"
proof (cases "rg_full r")
  case True
  then have l: "length (ring_raw r) = maxLogEntries" using assms by (simp add: length_ring_raw)
  then obtain x xs where x: "ring_raw r = x # xs" using maxLogEntries_pos by (cases "ring_raw r") auto
  then have "length (e # rev xs) = maxLogEntries" using l by simp
  then have "take maxLogEntries ((e # rev xs) @ [x]) = e # rev xs" by (metis append_eq_conv_conj)
  then show ?thesis using True x assms by (simp add: snapshot_eq ring_raw_add)
next
  case False
  then have "length (ring_raw r) < maxLogEntries" using assms by (simp add: length_ring_raw) (simp add: ring_ok_def)
  then show ?thesis using False assms by (simp add: snapshot_eq ring_raw_add)
qed

lemma snapshot_new: "snapshot [] new_ring = []"
  by (simp add: snapshot_eq ring_raw_def new_ring_def)

interpretation request_ring: bounded_log new_ring ring_add "snapshot []" maxLogEntries ring_ok
  by unfold_locales (simp_all add: ring_ok_new ring_ok_add snapshot_new snapshot_ring_add)

lemma snapshot_filter: "snapshot token r = (if token = [] then snapshot [] r else filter (\<lambda>e. e_Token e = token) (snapshot [] r))"
  by (simp add: snapshot_eq)

subsection \<open>Traffic\<close>

text \<open>The entries that fall into bucket \<open>i\<close>.\<close>

definition in_bucket :: "time \<Rightarrow> int \<Rightarrow> int \<Rightarrow> log_entry \<Rightarrow> bool" where
  "in_bucket now minutes i e \<longleftrightarrow>
     now - minutes * minute \<le> e_Timestamp e \<and> minute_index now e < minutes \<and> minute_index now e = i"

definition accumulate_all :: "log_entry list \<Rightarrow> accumulator option \<Rightarrow> accumulator option" where
  "accumulate_all es = fold (\<lambda>e b. Some (accumulate e (case b of None \<Rightarrow> zero_accumulator | Some b \<Rightarrow> b))) es"

lemma fill_buckets_at:
  "fill_buckets now minutes es m i = accumulate_all (filter (in_bucket now minutes i) es) (m i)"
  by (induction es arbitrary: m)
     (auto simp: accumulate_all_def in_bucket_def Let_def)

definition total :: "(accumulator \<Rightarrow> int) \<Rightarrow> accumulator option \<Rightarrow> int" where
  "total f b = (case b of None \<Rightarrow> 0 | Some b \<Rightarrow> f b)"

lemma accumulate_totals:
  "total ac_reqs (accumulate_all es b) = total ac_reqs b + int (length es)"
  "total ac_bytesOut (accumulate_all es b) = total ac_bytesOut b + sum_list (map e_Size es)"
  "total ac_totalMs (accumulate_all es b) = total ac_totalMs b + sum_list (map e_DurationMs es)"
  "total ac_status5xx (accumulate_all es b) = total ac_status5xx b + int (length (filter (\<lambda>e. 500 \<le> e_Status e) es))"
  by (induction es arbitrary: b)
     (auto simp: accumulate_all_def accumulate_def total_def zero_accumulator_def Let_def split: option.splits)

lemma bucket_of_requests: "tb_Requests (bucket_of ts b) = total ac_reqs b"
  by (simp add: bucket_of_def total_def Let_def split: option.split)

lemma bucket_of_bytes: "tb_BytesOut (bucket_of ts b) = total ac_bytesOut b"
  by (simp add: bucket_of_def total_def Let_def split: option.split)

lemma bucket_of_5xx: "tb_Status5xx (bucket_of ts b) = total ac_status5xx b"
  by (simp add: bucket_of_def total_def Let_def split: option.split)

lemma window_pos: "0 < window m"
  by (simp add: window_def)

lemma minute_index_nonneg: "0 \<le> minute_index now e"
  by (simp add: minute_index_def Let_def)

lemma minute_index_eq:
  "minute_index now e = (if now < e_Timestamp e then 0 else (now - e_Timestamp e) div minute)"
proof (cases "now < e_Timestamp e")
  case True
  then show ?thesis using quot_neg [of "now - e_Timestamp e" minute] by (simp add: minute_index_def Let_def)
next
  case False
  then have "0 \<le> (now - e_Timestamp e) div minute" by (simp add: pos_imp_zdiv_nonneg_iff)
  then show ?thesis using False by (simp add: minute_index_def Let_def)
qed

lemma div_minute_less: "a div minute < m \<longleftrightarrow> a < m * minute"
proof -
  have e: "a = (a div minute) * minute + a mod minute" by (rule div_mult_mod_eq [symmetric])
  have r: "0 \<le> a mod minute" "a mod minute < minute" by simp_all
  have "(a div minute + 1) * minute \<le> m * minute" if "a div minute < m"
    using that less_imp_le [OF minute_pos] by (intro mult_right_mono) auto
  moreover have "m * minute \<le> (a div minute) * minute" if "\<not> a div minute < m"
    using that less_imp_le [OF minute_pos] by (intro mult_right_mono) auto
  ultimately show ?thesis using e r by (fastforce simp only: distrib_right mult_1_left)
qed

lemma in_some_bucket:
  "now - minutes * minute \<le> e_Timestamp e \<and> minute_index now e < minutes \<longleftrightarrow> now - minutes * minute < e_Timestamp e"
  if "0 < minutes"
proof (cases "now < e_Timestamp e")
  case True
  have "0 < minutes * minute" using that by simp
  then have "now - minutes * minute < e_Timestamp e" using True by linarith
  then show ?thesis using that True by (simp add: minute_index_eq)
next
  case False
  have "(now - e_Timestamp e) div minute < minutes \<longleftrightarrow> now - e_Timestamp e < minutes * minute"
    by (rule div_minute_less)
  then show ?thesis using False by (auto simp: minute_index_eq)
qed

lemma length_filter_sum:
  assumes "\<And>x. x \<in> set xs \<Longrightarrow> P x \<longleftrightarrow> f x < n \<and> Q x"
  shows "(\<Sum>i < (n::nat). length (filter (\<lambda>x. Q x \<and> f x = i) xs)) = length (filter P xs)"
  using assms
proof (induction xs)
  case Nil
  then show ?case by simp
next
  case (Cons x xs)
  have "(\<Sum>i < n. length (filter (\<lambda>x. Q x \<and> f x = i) (x # xs))) =
      (\<Sum>i < n. length (filter (\<lambda>x. Q x \<and> f x = i) xs) + (if i = f x then (if Q x then 1 else 0) else 0))"
    by (rule sum.cong) auto
  also have "\<dots> = length (filter P xs) + (if f x < n then (if Q x then 1 else 0) else 0)"
    using Cons by (simp add: sum.distrib sum.delta)
  finally show ?case using Cons.prems by simp
qed

subsection \<open>Paths\<close>

definition hits :: "log_entry list \<Rightarrow> string \<Rightarrow> nat" where
  "hits es p = length (filter (\<lambda>e. e_Path e = p) es)"

lemma count_paths_hits: "count_paths es p = (if hits es p = 0 then None else Some (int (hits es p)))"
  by (induction es rule: rev_induct) (auto simp: count_paths_def hits_def)

lemma hits_pos: "e \<in> set es \<Longrightarrow> 0 < hits es (e_Path e)"
  by (auto simp: hits_def filter_empty_conv)

text \<open>The list that \<open>TopPaths\<close> sorts.\<close>

definition path_list :: "string list \<Rightarrow> log_entry list \<Rightarrow> path_count list" where
  "path_list ord es = List.map_filter
     (\<lambda>p. map_option (\<lambda>c. \<lparr>pc_Path = p, pc_Count = c\<rparr>) (count_paths es p)) ord"

lemma path_list_set:
  "q \<in> set (path_list ord es) \<longleftrightarrow>
     pc_Path q \<in> set ord \<and> 0 < hits es (pc_Path q) \<and> pc_Count q = int (hits es (pc_Path q))"
proof -
  have "q \<in> set (path_list ord es) \<longleftrightarrow>
      (\<exists>p \<in> set ord. 0 < hits es p \<and> q = \<lparr>pc_Path = p, pc_Count = int (hits es p)\<rparr>)"
    by (force simp: path_list_def List.map_filter_def count_paths_hits)
  also have "\<dots> \<longleftrightarrow> pc_Path q \<in> set ord \<and> 0 < hits es (pc_Path q) \<and> pc_Count q = int (hits es (pc_Path q))"
    by (cases q) auto
  finally show ?thesis .
qed

lemma path_list_distinct: "distinct ord \<Longrightarrow> distinct (map pc_Path (path_list ord es))"
proof (induction ord)
  case Nil
  then show ?case by (simp add: path_list_def List.map_filter_def)
next
  case (Cons p ps)
  have "path_list (p # ps) es = (case count_paths es p of None \<Rightarrow> path_list ps es
      | Some c \<Rightarrow> \<lparr>pc_Path = p, pc_Count = c\<rparr> # path_list ps es)"
    by (simp add: path_list_def List.map_filter_def split: option.split)
  then show ?case using Cons path_list_set [of _ ps es] by (auto split: option.split)
qed

end
