(* ===== verification/Log_Properties.thy ===== *)
theory Log_Properties
  imports Log_Proofs
begin

text \<open>
  The properties of the request log: what its readers see is the list of the newest entries, and the
  statistics of the dashboard are exact counts over it.
\<close>

subsection \<open>An example\<close>

definition sample_entry :: "time \<Rightarrow> string \<Rightarrow> int \<Rightarrow> log_entry" where
  "sample_entry t p st = \<lparr>e_Timestamp = t, e_TunnelID = ''t1'', e_Subdomain = ''shop'', e_Token = ''htk_...7777'',
     e_Method = ''GET'', e_Path = p, e_Status = st, e_DurationMs = 3, e_Size = 100\<rparr>"

definition sample_log :: "log_entry list" where
  "sample_log = [sample_entry 0 ''/a'' 200, sample_entry minute ''/b'' 404, sample_entry (90 * minute) ''/b'' 500]"

lemma sample_snapshot: "snapshot [] (fold ring_add sample_log new_ring) = rev sample_log"
  unfolding request_ring.recent_run by (simp add: sample_log_def maxLogEntries_def)

subsection \<open>Properties\<close>

text \<open>
  C33: However many requests are logged, the log shows the newest ten thousand of them, newest first, or
  those of them with the asked token, or the first \<open>limit\<close> of these: the ring buffer, its wrap-around
  and the loop that reverses the copy implement a bounded list.
\<close>

theorem log_shows_newest:
  "Recent limit token (fold ring_add es new_ring) =
     (let all = (if token = [] then take 10000 (rev es)
                 else filter (\<lambda>e. e_Token e = token) (take 10000 (rev es)))
      in if limit \<le> 0 then all else take (nat limit) all)"
proof -
  have "snapshot token (fold ring_add es new_ring) =
      (if token = [] then take 10000 (rev es) else filter (\<lambda>e. e_Token e = token) (take 10000 (rev es)))"
    unfolding snapshot_filter [of token] request_ring.recent_run maxLogEntries_def by simp
  then show ?thesis by (auto simp: Recent_def Let_def)
qed

lemma TrafficStats_nth:
  assumes "i < nat (window m)"
  shows "TrafficStats now m token r ! i =
    bucket_of (truncate_minute (now - (window m - 1 - int i) * minute))
      (accumulate_all (filter (in_bucket now (window m) (window m - 1 - int i)) (snapshot token r)) None)"
  using assms by (simp add: TrafficStats_def Let_def fill_buckets_at)

lemma total_None [simp]: "total f None = 0"
  by (simp add: total_def)

text \<open>
  Every bucket of the traffic statistics is exact: it counts the requests of its minute, sums the
  bytes sent for them and counts the server errors among them, and it counts no others.
\<close>

theorem traffic_bucket_exact:
  assumes "i < nat (window m)"
  shows "(let b = TrafficStats now m token r ! i;
              es = filter (in_bucket now (window m) (window m - 1 - int i)) (snapshot token r)
          in tb_Requests b = int (length es) \<and> tb_BytesOut b = sum_list (map e_Size es) \<and>
             tb_Status5xx b = int (length (filter (\<lambda>e. 500 \<le> e_Status e) es)))"
  by (simp add: TrafficStats_nth [OF assms] Let_def bucket_of_requests bucket_of_bytes bucket_of_5xx
      accumulate_totals)

theorem traffic_bucket_exact_witness:
  "tb_Requests (TrafficStats (90 * minute) 30 [] (fold ring_add sample_log new_ring) ! 29) = 1"
proof -
  have "in_bucket (90 * minute) 30 0 (sample_entry (90 * minute) ''/b'' 500)"
    "\<not> in_bucket (90 * minute) 30 0 (sample_entry minute ''/b'' 404)"
    "\<not> in_bucket (90 * minute) 30 0 (sample_entry 0 ''/a'' 200)"
    by (simp_all add: in_bucket_def sample_entry_def minute_index_eq minute_def second_def)
  then show ?thesis
    using traffic_bucket_exact [of 29 30 "90 * minute" "[]" "fold ring_add sample_log new_ring"]
    unfolding sample_snapshot by (simp add: window_def Let_def sample_log_def)
qed

text \<open>
  The buckets together hold every request of the window and count none twice: their sum is the
  number of logged requests that are younger than the window is long (requests stamped in the future
  included).
\<close>

theorem traffic_total_exact:
  "sum_list (map tb_Requests (TrafficStats now m token r)) =
     int (length (filter (\<lambda>e. now - window m * minute < e_Timestamp e) (snapshot token r)))"
proof -
  let ?w = "window m" and ?es = "snapshot token r"
  let ?Q = "\<lambda>e. now - ?w * minute \<le> e_Timestamp e \<and> minute_index now e < ?w"
  let ?f = "\<lambda>e. nat (?w - 1 - minute_index now e)"
  have len: "length (TrafficStats now m token r) = nat ?w" by (simp add: TrafficStats_def Let_def)
  have b: "in_bucket now ?w (?w - 1 - int i) e \<longleftrightarrow> ?Q e \<and> ?f e = i" if "i < nat ?w" for i e
    using that minute_index_nonneg [of now e] by (auto simp: in_bucket_def)
  have "sum_list (map tb_Requests (TrafficStats now m token r)) =
      (\<Sum>i < nat ?w. tb_Requests (TrafficStats now m token r ! i))"
    by (simp add: sum_list_sum_nth len lessThan_atLeast0)
  also have "\<dots> = (\<Sum>i < nat ?w. int (length (filter (\<lambda>e. ?Q e \<and> ?f e = i) ?es)))"
  proof (rule sum.cong [OF refl])
    fix i
    assume "i \<in> {..<nat ?w}"
    then have i: "i < nat ?w" by simp
    show "tb_Requests (TrafficStats now m token r ! i) = int (length (filter (\<lambda>e. ?Q e \<and> ?f e = i) ?es))"
      unfolding TrafficStats_nth [OF i] b [OF i] by (simp add: bucket_of_requests accumulate_totals)
  qed
  also have "\<dots> = int (\<Sum>i < nat ?w. length (filter (\<lambda>e. ?Q e \<and> ?f e = i) ?es))" by simp
  also have "(\<Sum>i < nat ?w. length (filter (\<lambda>e. ?Q e \<and> ?f e = i) ?es)) = length (filter ?Q ?es)"
  proof (rule length_filter_sum)
    fix e
    show "?Q e \<longleftrightarrow> ?f e < nat ?w \<and> ?Q e" using minute_index_nonneg [of now e] window_pos [of m] by linarith
  qed
  also have "filter ?Q ?es = filter (\<lambda>e. now - ?w * minute < e_Timestamp e) ?es"
    by (simp add: in_some_bucket [OF window_pos])
  finally show ?thesis .
qed

text \<open>
  The top paths are the top paths: no path is listed twice, each has its true number of hits, they
  are in descending order, and a path of the log that is not listed was cut off by the limit and has no
  more hits than any that is, whatever order the counts were ranged in.
\<close>

theorem top_paths_correct:
  assumes "covers ord (count_paths (snapshot token r))"
  shows "(let es = snapshot token r; out = TopPaths ord n token r in
     distinct (map pc_Path out) \<and> sorted_wrt (\<lambda>p q. pc_Count q \<le> pc_Count p) out \<and>
     (\<forall>q \<in> set out. pc_Count q = int (hits es (pc_Path q))) \<and>
     (\<forall>e \<in> set es. e_Path e \<in> pc_Path ` set out \<or>
        (int (length out) = n \<and> (\<forall>q \<in> set out. int (hits es (e_Path e)) \<le> pc_Count q))))"
proof -
  let ?es = "snapshot token r"
  let ?l = "sort_key (\<lambda>p. - pc_Count p) (path_list ord ?es)"
  let ?cut = "0 < n \<and> n < int (length ?l)"
  let ?out = "TopPaths ord n token r"
  have out: "?out = (if ?cut then take (nat n) ?l else ?l)"
    by (simp add: TopPaths_def Let_def path_list_def)
  have srt: "sorted_wrt (\<lambda>p q. pc_Count q \<le> pc_Count p) ?l"
    using sorted_sort_key [of "\<lambda>p. - pc_Count p" "path_list ord ?es"] by (simp add: sorted_wrt_map)
  have sub: "set ?out \<subseteq> set (path_list ord ?es)"
    using set_take_subset [of "nat n" ?l] by (auto simp: out)
  have "distinct (map pc_Path ?l)"
    using path_list_distinct [of ord ?es] assms distinct_map by (fastforce simp: covers_def)
  then have dist: "distinct (map pc_Path ?out)"
    by (simp add: out take_map [symmetric] distinct_take)
  have left: "e_Path e \<in> pc_Path ` set ?out \<or>
      int (length ?out) = n \<and> (\<forall>q \<in> set ?out. int (hits ?es (e_Path e)) \<le> pc_Count q)"
    if e: "e \<in> set ?es" for e
  proof -
    let ?q = "\<lparr>pc_Path = e_Path e, pc_Count = int (hits ?es (e_Path e))\<rparr>"
    have "e_Path e \<in> set ord"
      using assms hits_pos [OF e] by (auto simp: covers_def dom_def count_paths_hits split: if_splits)
    then have q: "?q \<in> set ?l" using hits_pos [OF e] by (simp add: path_list_set)
    show ?thesis
    proof (cases "?q \<in> set ?out")
      case True
      then show ?thesis by (metis image_eqI path_count.select_convs(1))
    next
      case False
      have c: ?cut using False q by (auto simp: out split: if_splits)
      have "?q \<in> set (take (nat n) ?l) \<union> set (drop (nat n) ?l)"
        using q by (simp only: set_append [symmetric] append_take_drop_id)
      then have d: "?q \<in> set (drop (nat n) ?l)" using False c by (simp add: out)
      have "pc_Count ?q \<le> pc_Count p" if "p \<in> set (take (nat n) ?l)" for p
      proof -
        have "sorted_wrt (\<lambda>p q. pc_Count q \<le> pc_Count p) (take (nat n) ?l @ drop (nat n) ?l)"
          using srt by (simp only: append_take_drop_id)
        then show ?thesis unfolding sorted_wrt_append using that d by blast
      qed
      then show ?thesis using c by (auto simp: out)
    qed
  qed
  have "sorted_wrt (\<lambda>p q. pc_Count q \<le> pc_Count p) ?out" using srt by (simp add: out sorted_wrt_take)
  moreover have "\<forall>q \<in> set ?out. pc_Count q = int (hits ?es (pc_Path q))"
    using sub by (blast dest: path_list_set [THEN iffD1])
  ultimately show ?thesis unfolding Let_def using dist left by blast
qed

theorem top_paths_correct_witness:
  "sorted_wrt (\<lambda>p q. pc_Count q \<le> pc_Count p) (TopPaths [''/a'', ''/b''] 1 [] (fold ring_add sample_log new_ring))"
proof -
  have "covers [''/a'', ''/b''] (count_paths (snapshot [] (fold ring_add sample_log new_ring)))"
    unfolding sample_snapshot by (auto simp: covers_def count_paths_def sample_log_def sample_entry_def)
  from top_paths_correct [OF this, of 1] show ?thesis unfolding Let_def by blast
qed

end
