(* ===== verification/Log_Adapter.thy ===== *)
theory Log_Adapter
  imports Log_Proofs
begin

text \<open>
  The live subscriptions of the dashboard (\<open>internal/server/request_log_adapter.go\<close>): each one has a
  channel of the request log (\<open>src\<close>), a channel of the dashboard (\<open>dst\<close>) and a goroutine that forwards
  from the first to the second. The theory shows that no interleaving of requests, subscriptions,
  cancellations and forwarding panics on a closed channel.
\<close>

subsection \<open>Model\<close>

record db_entry =
  dbe_Timestamp :: time
  dbe_TunnelID :: string
  dbe_Subdomain :: string
  dbe_Token :: string
  dbe_Method :: string
  dbe_Path :: string
  dbe_Status :: int
  dbe_DurationMs :: int
  dbe_Size :: int

definition toDBEntry :: "log_entry \<Rightarrow> db_entry" where
  "toDBEntry e = \<lparr>dbe_Timestamp = e_Timestamp e, dbe_TunnelID = e_TunnelID e, dbe_Subdomain = e_Subdomain e,
     dbe_Token = e_Token e, dbe_Method = e_Method e, dbe_Path = e_Path e, dbe_Status = e_Status e,
     dbe_DurationMs = e_DurationMs e, dbe_Size = e_Size e\<rparr>"

text \<open>\<open>la_fwd\<close> holds the forwarding goroutines that still run, by the channel they write to.\<close>

record log_adapter =
  la_log :: request_log
  la_srcOf :: "nat \<rightharpoonup> nat"
  la_dst :: "nat \<rightharpoonup> db_entry go_chan"
  la_fwd :: "nat \<rightharpoonup> nat"
  la_next :: nat

definition NewRequestLogAdapter :: "request_log \<Rightarrow> log_adapter" where
  "NewRequestLogAdapter rl =
     \<lparr>la_log = rl, la_srcOf = Map.empty, la_dst = Map.empty, la_fwd = Map.empty, la_next = 0\<rparr>"

definition adapter_Recent :: "int \<Rightarrow> string \<Rightarrow> log_adapter \<Rightarrow> db_entry list" where
  "adapter_Recent limit token a = map toDBEntry (Recent limit token (rl_ring (la_log a)))"

text \<open>The dashboard's own records for the statistics, and the copying field by field.\<close>

record db_bucket =
  dbb_Timestamp :: time
  dbb_Requests :: int
  dbb_BytesIn :: int
  dbb_BytesOut :: int
  dbb_Status2xx :: int
  dbb_Status3xx :: int
  dbb_Status4xx :: int
  dbb_Status5xx :: int
  dbb_AvgLatency :: int

record db_path_count =
  dbp_Path :: string
  dbp_Count :: int

definition toDBBucket :: "traffic_bucket \<Rightarrow> db_bucket" where
  "toDBBucket b = \<lparr>dbb_Timestamp = tb_Timestamp b, dbb_Requests = tb_Requests b, dbb_BytesIn = tb_BytesIn b,
     dbb_BytesOut = tb_BytesOut b, dbb_Status2xx = tb_Status2xx b, dbb_Status3xx = tb_Status3xx b,
     dbb_Status4xx = tb_Status4xx b, dbb_Status5xx = tb_Status5xx b, dbb_AvgLatency = tb_AvgLatency b\<rparr>"

definition adapter_TrafficStats :: "time \<Rightarrow> int \<Rightarrow> string \<Rightarrow> log_adapter \<Rightarrow> db_bucket list" where
  "adapter_TrafficStats now minutes token a = map toDBBucket (TrafficStats now minutes token (rl_ring (la_log a)))"

definition adapter_TopPaths :: "string list \<Rightarrow> int \<Rightarrow> string \<Rightarrow> log_adapter \<Rightarrow> db_path_count list" where
  "adapter_TopPaths ord n token a =
     map (\<lambda>p. \<lparr>dbp_Path = pc_Path p, dbp_Count = pc_Count p\<rparr>) (TopPaths ord n token (rl_ring (la_log a)))"

definition adapter_Subscribe :: "log_adapter \<Rightarrow> nat \<times> log_adapter" where
  "adapter_Subscribe a =
     (let (src, rl) = Subscribe (la_log a); dst = la_next a in
      (dst, a\<lparr>la_log := rl, la_srcOf := (la_srcOf a)(dst \<mapsto> src), la_dst := (la_dst a)(dst \<mapsto> make_chan),
              la_fwd := (la_fwd a)(dst \<mapsto> src), la_next := dst + 1\<rparr>))"

definition adapter_Unsubscribe :: "nat \<Rightarrow> log_adapter \<Rightarrow> log_adapter option" where
  "adapter_Unsubscribe ch a =
     (case la_srcOf a ch of
        None \<Rightarrow> Some a
      | Some src \<Rightarrow>
          let a1 = a\<lparr>la_srcOf := (la_srcOf a)(ch := None)\<rparr> in
          map_option (\<lambda>rl. a1\<lparr>la_log := rl\<rparr>) (Unsubscribe src (la_log a1)))"

text \<open>One iteration of the forwarding goroutine of \<open>dst\<close>; when it would block, nothing changes.\<close>

definition forward :: "nat \<Rightarrow> log_adapter \<Rightarrow> log_adapter option" where
  "forward dst a =
     (case la_fwd a dst of
        None \<Rightarrow> Some a
      | Some src \<Rightarrow>
          (case (rl_chans (la_log a) src, la_dst a dst) of
             (Some c, Some d) \<Rightarrow>
               (case ch_buf c of
                  e # rest \<Rightarrow>
                    let rl = (la_log a)\<lparr>rl_chans := (rl_chans (la_log a))(src \<mapsto> c\<lparr>ch_buf := rest\<rparr>)\<rparr> in
                    map_option (\<lambda>d'. a\<lparr>la_log := rl, la_dst := (la_dst a)(dst \<mapsto> d')\<rparr>)
                      (try_send (toDBEntry e) d)
                | [] \<Rightarrow>
                    if ch_closed c
                    then map_option (\<lambda>d'. a\<lparr>la_dst := (la_dst a)(dst \<mapsto> d'), la_fwd := (la_fwd a)(dst := None)\<rparr>)
                           (close_chan d)
                    else Some a)
           | _ \<Rightarrow> Some a))"

text \<open>The reader of \<open>dst\<close>, the event stream of the dashboard, takes an entry out of the buffer.\<close>

definition receive :: "nat \<Rightarrow> log_adapter \<Rightarrow> log_adapter" where
  "receive dst a =
     (case la_dst a dst of
        None \<Rightarrow> a
      | Some d \<Rightarrow> a\<lparr>la_dst := (la_dst a)(dst \<mapsto> d\<lparr>ch_buf := tl (ch_buf d)\<rparr>)\<rparr>)"

definition adapter_Add :: "log_entry \<Rightarrow> log_adapter \<Rightarrow> log_adapter option" where
  "adapter_Add e a = map_option (\<lambda>rl. a\<lparr>la_log := rl\<rparr>) (Add e (la_log a))"

text \<open>A step from a running adapter; \<open>None\<close> is the panicked process.\<close>

inductive adapter_step :: "log_adapter option \<Rightarrow> log_adapter option \<Rightarrow> bool" where
  st_add: "adapter_step (Some a) (adapter_Add e a)"
| st_subscribe: "adapter_step (Some a) (Some (snd (adapter_Subscribe a)))"
| st_unsubscribe: "adapter_step (Some a) (adapter_Unsubscribe dst a)"
| st_forward: "adapter_step (Some a) (forward dst a)"
| st_receive: "adapter_step (Some a) (Some (receive dst a))"

inductive_cases adapter_stepE: "adapter_step s t"

subsection \<open>The invariant\<close>

definition chan_open :: "(nat \<rightharpoonup> 'a go_chan) \<Rightarrow> nat \<Rightarrow> bool" where
  "chan_open m c \<longleftrightarrow> (\<exists>ch. m c = Some ch \<and> \<not> ch_closed ch)"

definition chan_made :: "(nat \<rightharpoonup> 'a go_chan) \<Rightarrow> nat \<Rightarrow> bool" where
  "chan_made m c \<longleftrightarrow> m c \<noteq> None"

definition log_inv :: "request_log \<Rightarrow> bool" where
  "log_inv rl \<longleftrightarrow> ring_ok (rl_ring rl) \<and> (\<forall>c \<in> rl_subs rl. chan_open (rl_chans rl) c) \<and>
     (\<forall>c. chan_made (rl_chans rl) c \<longrightarrow> c < rl_next rl)"

definition adapter_inv :: "log_adapter \<Rightarrow> bool" where
  "adapter_inv a \<longleftrightarrow> log_inv (la_log a) \<and>
     (\<forall>d s. la_srcOf a d = Some s \<longrightarrow> s \<in> rl_subs (la_log a) \<and> la_fwd a d = Some s) \<and>
     (\<forall>d s. la_fwd a d = Some s \<longrightarrow> chan_open (la_dst a) d \<and> chan_made (rl_chans (la_log a)) s) \<and>
     (\<forall>d d' s. la_fwd a d = Some s \<longrightarrow> la_fwd a d' = Some s \<longrightarrow> d = d') \<and>
     (\<forall>d. la_next a \<le> d \<longrightarrow> la_dst a d = None \<and> la_fwd a d = None)"

lemma adapter_invI:
  assumes "log_inv (la_log a)"
    and "\<And>d s. la_srcOf a d = Some s \<Longrightarrow> s \<in> rl_subs (la_log a) \<and> la_fwd a d = Some s"
    and "\<And>d s. la_fwd a d = Some s \<Longrightarrow> chan_open (la_dst a) d \<and> chan_made (rl_chans (la_log a)) s"
    and "\<And>d d' s. la_fwd a d = Some s \<Longrightarrow> la_fwd a d' = Some s \<Longrightarrow> d = d'"
    and "\<And>d. la_next a \<le> d \<Longrightarrow> la_dst a d = None \<and> la_fwd a d = None"
  shows "adapter_inv a"
  using assms by (simp add: adapter_inv_def)

lemma adapter_invD:
  assumes "adapter_inv a"
  shows "log_inv (la_log a)"
    and "\<And>d s. la_srcOf a d = Some s \<Longrightarrow> s \<in> rl_subs (la_log a) \<and> la_fwd a d = Some s"
    and "\<And>d s. la_fwd a d = Some s \<Longrightarrow> chan_open (la_dst a) d \<and> chan_made (rl_chans (la_log a)) s"
    and "\<And>d d' s. la_fwd a d = Some s \<Longrightarrow> la_fwd a d' = Some s \<Longrightarrow> d = d'"
    and "\<And>d. la_next a \<le> d \<Longrightarrow> la_dst a d = None \<and> la_fwd a d = None"
  using assms by (simp_all add: adapter_inv_def)

lemma try_send_open: "\<not> ch_closed c \<Longrightarrow> \<exists>c'. try_send e c = Some c' \<and> \<not> ch_closed c'"
  by (simp add: try_send_def)

lemma chan_open_upd: "chan_open (m(c \<mapsto> ch)) c' = (if c' = c then \<not> ch_closed ch else chan_open m c')"
  by (simp add: chan_open_def)

lemma chan_made_upd: "chan_made (m(c \<mapsto> ch)) c' = (c' = c \<or> chan_made m c')"
  by (simp add: chan_made_def)

lemma chan_made_same: "m c = Some ch \<Longrightarrow> chan_made (m(c \<mapsto> ch')) = chan_made m"
  by (rule ext) (simp add: chan_made_def)

lemma chan_open_same:
  "m c = Some ch \<Longrightarrow> ch_closed ch' = ch_closed ch \<Longrightarrow> chan_open (m(c \<mapsto> ch')) = chan_open m"
  by (rule ext) (simp add: chan_open_def)

lemma fan_out_open:
  assumes "\<forall>c \<in> subs. chan_open chans c"
  obtains chans' where "fan_out e subs chans = Some chans'"
    "chan_open chans' = chan_open chans" "chan_made chans' = chan_made chans"
proof -
  let ?chans = "\<lambda>c. if c \<in> subs then Option.bind (chans c) (try_send e) else chans c"
  have s: "\<exists>ch ch'. chans c = Some ch \<and> \<not> ch_closed ch \<and> try_send e ch = Some ch' \<and> \<not> ch_closed ch'"
    if "c \<in> subs" for c
    using assms that try_send_open [of _ e] by (fastforce simp: chan_open_def)
  have "fan_out e subs chans = Some ?chans" using s by (fastforce simp: fan_out_def)
  moreover have "chan_open ?chans = chan_open chans"
  proof
    fix c
    show "chan_open ?chans c = chan_open chans c" using s [of c] by (cases "c \<in> subs") (auto simp: chan_open_def)
  qed
  moreover have "chan_made ?chans = chan_made chans"
  proof
    fix c
    show "chan_made ?chans c = chan_made chans c" using s [of c] by (cases "c \<in> subs") (auto simp: chan_made_def)
  qed
  ultimately show thesis by (rule that)
qed

lemma Add_inv:
  assumes "log_inv rl"
  shows "\<exists>rl'. Add e rl = Some rl' \<and> log_inv rl' \<and> rl_subs rl' = rl_subs rl \<and>
    chan_made (rl_chans rl') = chan_made (rl_chans rl)"
proof -
  obtain chans where c: "fan_out e (rl_subs rl) (rl_chans rl) = Some chans"
      "chan_open chans = chan_open (rl_chans rl)" "chan_made chans = chan_made (rl_chans rl)"
    using assms by (auto simp: log_inv_def elim: fan_out_open [where e = e])
  let ?rl = "rl\<lparr>rl_ring := ring_add e (rl_ring rl), rl_chans := chans\<rparr>"
  have "Add e rl = Some ?rl" using c(1) by (simp add: Add_def Let_def)
  moreover have "log_inv ?rl" using assms c(2,3) by (simp add: log_inv_def ring_ok_add)
  ultimately show ?thesis using c(3) by (intro exI [of _ ?rl]) simp
qed

lemma adapter_Add_inv: "adapter_inv a \<Longrightarrow> \<exists>a'. adapter_Add e a = Some a' \<and> adapter_inv a'"
proof -
  assume a: "adapter_inv a"
  then have "log_inv (la_log a)" by (simp add: adapter_inv_def)
  from Add_inv [OF this, of e] obtain rl where "Add e (la_log a) = Some rl" "log_inv rl"
      "rl_subs rl = rl_subs (la_log a)" "chan_made (rl_chans rl) = chan_made (rl_chans (la_log a))"
    by blast
  then show ?thesis using a by (simp add: adapter_Add_def adapter_inv_def)
qed

lemma Subscribe_inv:
  "log_inv rl \<Longrightarrow> log_inv (snd (Subscribe rl))"
  by (auto simp: Subscribe_def log_inv_def chan_open_upd chan_made_upd make_chan_def Let_def less_Suc_eq)

lemma adapter_Subscribe_inv:
  assumes "adapter_inv a"
  shows "adapter_inv (snd (adapter_Subscribe a))"
proof -
  note D = adapter_invD [OF assms]
  let ?s = "rl_next (la_log a)" and ?d = "la_next a"
  have new: "\<not> chan_made (rl_chans (la_log a)) ?s" using D(1) by (auto simp: log_inv_def)
  then have fresh: "la_fwd a d \<noteq> Some ?s" for d using D(3) by blast
  have eq: "snd (adapter_Subscribe a) = a\<lparr>la_log := snd (Subscribe (la_log a)),
      la_srcOf := (la_srcOf a)(?d \<mapsto> ?s), la_dst := (la_dst a)(?d \<mapsto> make_chan),
      la_fwd := (la_fwd a)(?d \<mapsto> ?s), la_next := ?d + 1\<rparr>"
    by (simp add: adapter_Subscribe_def Subscribe_def Let_def)
  show ?thesis unfolding eq
  proof (rule adapter_invI)
    show "log_inv (la_log (a\<lparr>la_log := snd (Subscribe (la_log a)), la_srcOf := (la_srcOf a)(?d \<mapsto> ?s),
        la_dst := (la_dst a)(?d \<mapsto> make_chan), la_fwd := (la_fwd a)(?d \<mapsto> ?s), la_next := ?d + 1\<rparr>))"
      using Subscribe_inv [OF D(1)] by simp
  qed (use D(2-5) fresh in \<open>auto simp: Subscribe_def Let_def chan_open_upd chan_made_upd make_chan_def split: if_splits\<close>)
qed

lemma Unsubscribe_subs:
  assumes "log_inv rl" and "s \<in> rl_subs rl"
  shows "\<exists>rl'. Unsubscribe s rl = Some rl' \<and> log_inv rl' \<and> rl_subs rl' = rl_subs rl - {s} \<and>
    chan_made (rl_chans rl') = chan_made (rl_chans rl)"
proof -
  obtain ch where ch: "rl_chans rl s = Some ch" "\<not> ch_closed ch"
    using assms by (auto simp: log_inv_def chan_open_def)
  let ?rl = "rl\<lparr>rl_subs := rl_subs rl - {s}, rl_chans := (rl_chans rl)(s \<mapsto> ch\<lparr>ch_closed := True\<rparr>)\<rparr>"
  have "Unsubscribe s rl = Some ?rl" using ch by (simp add: Unsubscribe_def close_chan_def Let_def)
  moreover have "log_inv ?rl" using assms(1) ch by (auto simp: log_inv_def chan_open_upd chan_made_same)
  ultimately show ?thesis using ch by (intro exI [of _ ?rl]) (simp add: chan_made_same)
qed

lemma adapter_Unsubscribe_inv:
  assumes "adapter_inv a"
  shows "\<exists>a'. adapter_Unsubscribe d a = Some a' \<and> adapter_inv a'"
proof (cases "la_srcOf a d")
  case None
  then show ?thesis using assms by (simp add: adapter_Unsubscribe_def)
next
  case (Some s)
  then have "s \<in> rl_subs (la_log a)" "log_inv (la_log a)" using adapter_invD(1,2) [OF assms] by blast+
  then obtain rl where rl: "Unsubscribe s (la_log a) = Some rl" "log_inv rl" "rl_subs rl = rl_subs (la_log a) - {s}"
      "chan_made (rl_chans rl) = chan_made (rl_chans (la_log a))"
    using Unsubscribe_subs by blast
  have "s' \<in> rl_subs rl \<and> la_fwd a d' = Some s'" if "((la_srcOf a)(d := None)) d' = Some s'" for d' s'
  proof -
    have d': "d' \<noteq> d" "la_srcOf a d' = Some s'" using that by (auto split: if_splits)
    have "la_fwd a d = Some s" by (rule adapter_invD(2) [OF assms Some, THEN conjunct2])
    moreover have s': "s' \<in> rl_subs (la_log a)" "la_fwd a d' = Some s'"
      using adapter_invD(2) [OF assms d'(2)] by blast+
    ultimately have "s' \<noteq> s" using adapter_invD(4) [OF assms] d'(1) by blast
    then show ?thesis using s' rl(3) by blast
  qed
  note src = this
  let ?a = "a\<lparr>la_srcOf := (la_srcOf a)(d := None), la_log := rl\<rparr>"
  have sel: "la_log ?a = rl" "la_srcOf ?a = (la_srcOf a)(d := None)" "la_fwd ?a = la_fwd a"
      "la_dst ?a = la_dst a" "la_next ?a = la_next a"
    by simp_all
  have "adapter_inv ?a"
    by (rule adapter_invI; unfold sel rl(4))
       (fact rl(2), erule src, erule adapter_invD(3) [OF assms], erule (1) adapter_invD(4) [OF assms],
        erule adapter_invD(5) [OF assms])
  then show ?thesis using Some rl(1) by (simp add: adapter_Unsubscribe_def Let_def)
qed

lemma forward_inv:
  assumes "adapter_inv a"
  shows "\<exists>a'. forward d a = Some a' \<and> adapter_inv a'"
proof (cases "la_fwd a d")
  case None
  then show ?thesis using assms by (simp add: forward_def)
next
  case (Some s)
  obtain c dc where c: "rl_chans (la_log a) s = Some c" and dc: "la_dst a d = Some dc" "\<not> ch_closed dc"
    using adapter_invD(3) [OF assms Some] by (auto simp: chan_made_def chan_open_def)
  show ?thesis
  proof (cases "ch_buf c")
    case (Cons e rest)
    obtain dc' where t: "try_send (toDBEntry e) dc = Some dc'" and "\<not> ch_closed dc'"
      using try_send_open [OF dc(2)] by blast
    moreover have "\<not> la_next a \<le> d" using adapter_invD(5) [OF assms, of d] Some by auto
    ultimately have "adapter_inv (a\<lparr>la_log := (la_log a)\<lparr>rl_chans := (rl_chans (la_log a))(s \<mapsto> c\<lparr>ch_buf := rest\<rparr>)\<rparr>,
        la_dst := (la_dst a)(d \<mapsto> dc')\<rparr>)"
      using assms dc Some c unfolding adapter_inv_def log_inv_def
      by (simp add: chan_open_same chan_made_same)
    then show ?thesis using Some c dc Cons t by (auto simp: forward_def Let_def)
  next
    case Nil
    show ?thesis
    proof (cases "ch_closed c")
      case False
      then show ?thesis using assms Some c dc Nil by (simp add: forward_def)
    next
      case True
      have "la_srcOf a d = None"
      proof (rule ccontr)
        assume "la_srcOf a d \<noteq> None"
        then have "s \<in> rl_subs (la_log a)" using assms Some by (fastforce simp: adapter_inv_def)
        then show False using assms c True by (fastforce simp: adapter_inv_def log_inv_def chan_open_def)
      qed
      then show ?thesis using assms Some c dc Nil True
        by (auto simp: forward_def close_chan_def adapter_inv_def chan_open_upd)
    qed
  qed
qed

lemma receive_inv: "adapter_inv a \<Longrightarrow> adapter_inv (receive d a)"
proof (cases "la_dst a d")
  case (Some c)
  assume "adapter_inv a"
  moreover have "chan_open ((la_dst a)(d \<mapsto> c\<lparr>ch_buf := tl (ch_buf c)\<rparr>)) = chan_open (la_dst a)"
    using Some by (rule chan_open_same) simp
  ultimately show ?thesis using Some by (auto simp: receive_def adapter_inv_def)
qed (simp add: receive_def)

definition not_panicked :: "log_adapter option \<Rightarrow> bool" where
  "not_panicked s \<longleftrightarrow> (\<exists>a. s = Some a \<and> adapter_inv a)"

lemma adapter_step_inv: "not_panicked s \<Longrightarrow> adapter_step s t \<Longrightarrow> not_panicked t"
  by (erule adapter_stepE)
     (auto simp: not_panicked_def adapter_Add_inv adapter_Subscribe_inv adapter_Unsubscribe_inv forward_inv receive_inv)

interpretation subscriptions: state_machine "Some (NewRequestLogAdapter NewRequestLog)" adapter_step not_panicked
proof unfold_locales
  show "not_panicked (Some (NewRequestLogAdapter NewRequestLog))"
    by (simp add: not_panicked_def adapter_inv_def log_inv_def chan_made_def NewRequestLogAdapter_def
        NewRequestLog_def ring_ok_new)
qed (rule adapter_step_inv)

subsection \<open>Property\<close>

text \<open>
  C37: No interleaving of logging, subscribing, unsubscribing (as often as a handler likes), forwarding
  and reading makes the process panic: nobody sends on a closed channel or closes one twice.
\<close>

theorem subscriptions_never_panic:
  assumes "adapter_step\<^sup>*\<^sup>* (Some (NewRequestLogAdapter NewRequestLog)) s"
  shows "s \<noteq> None"
  using subscriptions.good_run [OF assms] by (auto simp: not_panicked_def)

theorem subscriptions_never_panic_witness:
  "\<exists>a. adapter_Unsubscribe 0 (snd (adapter_Subscribe (NewRequestLogAdapter NewRequestLog))) = Some a \<and>
     adapter_Unsubscribe 0 a \<noteq> None"
proof -
  let ?a = "NewRequestLogAdapter NewRequestLog"
  let ?b = "snd (adapter_Subscribe ?a)"
  have 1: "adapter_step\<^sup>*\<^sup>* (Some ?a) (adapter_Unsubscribe 0 ?b)"
    by (meson adapter_step.intros(2,3) rtranclp.simps)
  then obtain c where c: "adapter_Unsubscribe 0 ?b = Some c"
    using subscriptions_never_panic by blast
  then have "adapter_step\<^sup>*\<^sup>* (Some ?a) (adapter_Unsubscribe 0 c)"
    using 1 by (metis adapter_step.intros(3) rtranclp.rtrancl_into_rtrancl)
  then show ?thesis using c subscriptions_never_panic by blast
qed

end
