(* ===== verification/Config.thy ===== *)
theory Config
  imports Complex_Main Go_Strings
begin

text \<open>
  The server's configuration (\<open>internal/config/config.go\<close>) and the part of it the dashboard may edit
  (\<open>internal/server/config_provider.go\<close>). The YAML codec (\<open>gopkg.in/yaml.v3\<close>) is an argument; the
  environment is a function that gives the empty string for a variable that is not set.
\<close>

subsection \<open>The configuration\<close>

record server_config =
  sc_ListenAddr :: string
  sc_Domain :: string
  sc_Email :: string
  sc_Tokens :: "string list"
  sc_MaxTunnelsPerToken :: int
  sc_RateLimit :: int
  sc_GlobalRateLimit :: int
  sc_TCPPortRange :: "int \<times> int"
  sc_CertStorage :: string
  sc_DevMode :: bool
  sc_DNSProvider :: string
  sc_DNSAPIToken :: string
  sc_DashboardEnabled :: bool
  sc_DashboardAddr :: string
  sc_AdminToken :: string
  sc_HTTPProxyAddr :: string
  sc_HTTPRedirectAddr :: string
  sc_KeyStorePath :: string
  sc_AllowRegistration :: "bool option"
  sc_AllowAnonymous :: "bool option"
  sc_AnonTunnelTTL :: int

definition zero_config :: server_config where
  "zero_config = \<lparr>sc_ListenAddr = [], sc_Domain = [], sc_Email = [], sc_Tokens = [],
     sc_MaxTunnelsPerToken = 0, sc_RateLimit = 0, sc_GlobalRateLimit = 0, sc_TCPPortRange = (0, 0),
     sc_CertStorage = [], sc_DevMode = False, sc_DNSProvider = [], sc_DNSAPIToken = [],
     sc_DashboardEnabled = False, sc_DashboardAddr = [], sc_AdminToken = [], sc_HTTPProxyAddr = [],
     sc_HTTPRedirectAddr = [], sc_KeyStorePath = [], sc_AllowRegistration = None,
     sc_AllowAnonymous = None, sc_AnonTunnelTTL = 0\<rparr>"

definition or_default :: "'a \<Rightarrow> 'a \<Rightarrow> 'a \<Rightarrow> 'a" where
  "or_default zero d v = (if v = zero then d else v)"

definition defaults :: "server_config \<Rightarrow> server_config" where
  "defaults c = c\<lparr>
     sc_ListenAddr := or_default [] '':4443'' (sc_ListenAddr c),
     sc_MaxTunnelsPerToken := or_default 0 10 (sc_MaxTunnelsPerToken c),
     sc_RateLimit := or_default 0 100 (sc_RateLimit c),
     sc_GlobalRateLimit := or_default 0 1000 (sc_GlobalRateLimit c),
     sc_TCPPortRange := or_default (0, 0) (10000, 65535) (sc_TCPPortRange c),
     sc_CertStorage := or_default [] ''/var/lib/htn-tunnel/certs'' (sc_CertStorage c),
     sc_DashboardAddr := or_default [] '':1807'' (sc_DashboardAddr c),
     sc_HTTPProxyAddr := or_default [] '':443'' (sc_HTTPProxyAddr c),
     sc_HTTPRedirectAddr := or_default [] '':80'' (sc_HTTPRedirectAddr c),
     sc_KeyStorePath := or_default [] ''/etc/htn-tunnel/keys.json'' (sc_KeyStorePath c),
     sc_AllowRegistration := or_default None (Some True) (sc_AllowRegistration c),
     sc_AllowAnonymous := or_default None (Some True) (sc_AllowAnonymous c),
     sc_AnonTunnelTTL := or_default 0 7200 (sc_AnonTunnelTTL c)\<rparr>"

definition splitCSV :: "(string \<Rightarrow> string) \<Rightarrow> string \<Rightarrow> string list" where
  "splitCSV utrim s = filter (\<lambda>t. t \<noteq> []) (map (TrimSpace utrim) (Split s CHR '',''))"

definition env_string :: "(string \<Rightarrow> string) \<Rightarrow> string \<Rightarrow> string \<Rightarrow> string" where
  "env_string env k v = (if env k \<noteq> [] then env k else v)"

definition env_int :: "(string \<Rightarrow> string) \<Rightarrow> string \<Rightarrow> int \<Rightarrow> int" where
  "env_int env k v =
     (if env k \<noteq> [] then case Atoi (env k) of Some n \<Rightarrow> n | None \<Rightarrow> v else v)"

definition env_bool :: "(string \<Rightarrow> string) \<Rightarrow> string \<Rightarrow> bool \<Rightarrow> bool" where
  "env_bool env k v = (if env k \<noteq> [] then env k = ''true'' \<or> env k = ''1'' else v)"

definition applyEnv :: "(string \<Rightarrow> string) \<Rightarrow> (string \<Rightarrow> string) \<Rightarrow> server_config \<Rightarrow> server_config" where
  "applyEnv utrim env c = c\<lparr>
     sc_ListenAddr := env_string env ''HTN_LISTEN_ADDR'' (sc_ListenAddr c),
     sc_Domain := env_string env ''HTN_DOMAIN'' (sc_Domain c),
     sc_Email := env_string env ''HTN_EMAIL'' (sc_Email c),
     sc_Tokens := (if env ''HTN_TOKENS'' \<noteq> [] then splitCSV utrim (env ''HTN_TOKENS'') else sc_Tokens c),
     sc_MaxTunnelsPerToken := env_int env ''HTN_MAX_TUNNELS_PER_TOKEN'' (sc_MaxTunnelsPerToken c),
     sc_RateLimit := env_int env ''HTN_RATE_LIMIT'' (sc_RateLimit c),
     sc_GlobalRateLimit := env_int env ''HTN_GLOBAL_RATE_LIMIT'' (sc_GlobalRateLimit c),
     sc_TCPPortRange := (env_int env ''HTN_TCP_PORT_MIN'' (fst (sc_TCPPortRange c)),
                         env_int env ''HTN_TCP_PORT_MAX'' (snd (sc_TCPPortRange c))),
     sc_CertStorage := env_string env ''HTN_CERT_STORAGE'' (sc_CertStorage c),
     sc_DevMode := env_bool env ''HTN_DEV_MODE'' (sc_DevMode c),
     sc_DNSProvider := env_string env ''HTN_DNS_PROVIDER'' (sc_DNSProvider c),
     sc_DNSAPIToken := env_string env ''HTN_DNS_API_TOKEN'' (sc_DNSAPIToken c),
     sc_DashboardEnabled := env_bool env ''HTN_DASHBOARD_ENABLED'' (sc_DashboardEnabled c),
     sc_DashboardAddr := env_string env ''HTN_DASHBOARD_ADDR'' (sc_DashboardAddr c),
     sc_AdminToken := env_string env ''HTN_ADMIN_TOKEN'' (sc_AdminToken c)\<rparr>"

datatype config_error = ReadConfig string | ParseConfig string

definition LoadServerConfig ::
    "(string \<Rightarrow> string + server_config) \<Rightarrow> (string \<Rightarrow> string) \<Rightarrow> (string \<Rightarrow> string) \<Rightarrow> string \<Rightarrow> file_read \<Rightarrow>
     config_error + server_config" where
  "LoadServerConfig unyaml utrim env path f =
     (let parsed =
        (if path = [] then Inr zero_config
         else case f of
           ReadError e \<Rightarrow> Inl (ReadConfig e)
         | NotExist \<Rightarrow> Inr zero_config
         | FileData d \<Rightarrow> (case unyaml d of Inl e \<Rightarrow> Inl (ParseConfig e) | Inr c \<Rightarrow> Inr c))
      in case parsed of Inl e \<Rightarrow> Inl e | Inr c \<Rightarrow> Inr (applyEnv utrim env (defaults c)))"

subsection \<open>The part the dashboard edits\<close>

text \<open>A decoded JSON value; numbers are \<open>float64\<close>, that is, rationals.\<close>

datatype json_value = JString string | JNumber rat | JBool bool | JIntPair "int \<times> int" | JOther

definition toInt :: "json_value \<Rightarrow> int option" where
  "toInt v = (case v of JNumber r \<Rightarrow> Some (if 0 \<le> r then \<lfloor>r\<rfloor> else \<lceil>r\<rceil>) | _ \<Rightarrow> None)"

definition set_int :: "json_value \<Rightarrow> (int \<Rightarrow> server_config) \<Rightarrow> server_config \<Rightarrow> server_config" where
  "set_int v set_field c = (case toInt v of Some n \<Rightarrow> set_field n | None \<Rightarrow> c)"

definition apply_update :: "string \<Rightarrow> json_value \<Rightarrow> server_config \<Rightarrow> server_config" where
  "apply_update key v c =
     (if key = ''domain'' then (case v of JString s \<Rightarrow> c\<lparr>sc_Domain := s\<rparr> | _ \<Rightarrow> c)
      else if key = ''max_tunnels_per_token'' then set_int v (\<lambda>n. c\<lparr>sc_MaxTunnelsPerToken := n\<rparr>) c
      else if key = ''rate_limit'' then set_int v (\<lambda>n. c\<lparr>sc_RateLimit := n\<rparr>) c
      else if key = ''global_rate_limit'' then set_int v (\<lambda>n. c\<lparr>sc_GlobalRateLimit := n\<rparr>) c
      else if key = ''allow_registration'' then
        (case v of JBool b \<Rightarrow> c\<lparr>sc_AllowRegistration := Some b\<rparr> | _ \<Rightarrow> c)
      else if key = ''dashboard_enabled'' then
        (case v of JBool b \<Rightarrow> c\<lparr>sc_DashboardEnabled := b\<rparr> | _ \<Rightarrow> c)
      else c)"

definition apply_updates :: "(string \<rightharpoonup> json_value) \<Rightarrow> string list \<Rightarrow> server_config \<Rightarrow> server_config" where
  "apply_updates updates ord c =
     fold (\<lambda>key c. case updates key of None \<Rightarrow> c | Some v \<Rightarrow> apply_update key v c) ord c"

record config_provider =
  cp_cfg :: server_config
  cp_filePath :: string
  cp_file :: file_read

datatype provider_error = MarshalConfig string | WriteConfig string

definition provider_save ::
    "(server_config \<Rightarrow> string + string) \<Rightarrow> write_outcome \<Rightarrow> config_provider \<Rightarrow> provider_error option \<times> config_provider" where
  "provider_save yaml w p =
     (if cp_filePath p = [] then (None, p)
      else case yaml (cp_cfg p) of
        Inl e \<Rightarrow> (Some (MarshalConfig e), p)
      | Inr d \<Rightarrow>
          (case w of
             WriteOk \<Rightarrow> (None, p\<lparr>cp_file := FileData d\<rparr>)
           | WriteError e f \<Rightarrow> (Some (WriteConfig e), p\<lparr>cp_file := f\<rparr>)))"

definition UpdateConfig ::
    "(server_config \<Rightarrow> string + string) \<Rightarrow> write_outcome \<Rightarrow> string list \<Rightarrow> (string \<rightharpoonup> json_value) \<Rightarrow>
     config_provider \<Rightarrow> provider_error option \<times> config_provider" where
  "UpdateConfig yaml w ord updates p =
     provider_save yaml w (p\<lparr>cp_cfg := apply_updates updates ord (cp_cfg p)\<rparr>)"

definition GetEditableConfig :: "config_provider \<Rightarrow> (string \<rightharpoonup> json_value)" where
  "GetEditableConfig p =
     (let c = cp_cfg p in
      [''domain'' \<mapsto> JString (sc_Domain c),
       ''listen_addr'' \<mapsto> JString (sc_ListenAddr c),
       ''http_proxy_addr'' \<mapsto> JString (sc_HTTPProxyAddr c),
       ''http_redirect_addr'' \<mapsto> JString (sc_HTTPRedirectAddr c),
       ''dashboard_addr'' \<mapsto> JString (sc_DashboardAddr c),
       ''max_tunnels_per_token'' \<mapsto> JNumber (of_int (sc_MaxTunnelsPerToken c)),
       ''rate_limit'' \<mapsto> JNumber (of_int (sc_RateLimit c)),
       ''global_rate_limit'' \<mapsto> JNumber (of_int (sc_GlobalRateLimit c)),
       ''tcp_port_range'' \<mapsto> JIntPair (sc_TCPPortRange c),
       ''allow_registration'' \<mapsto> JBool (case sc_AllowRegistration c of None \<Rightarrow> True | Some b \<Rightarrow> b),
       ''dashboard_enabled'' \<mapsto> JBool (sc_DashboardEnabled c),
       ''dev_mode'' \<mapsto> JBool (sc_DevMode c)])"

end
