(* ===== verification/Config_Properties.thy ===== *)
theory Config_Properties
  imports Config
begin

text \<open>The properties of the configuration: loading, the token list and the dashboard's edits.\<close>

subsection \<open>Loading\<close>

lemma or_default_not_zero: "d \<noteq> zero \<Longrightarrow> or_default zero d v \<noteq> zero"
  by (simp add: or_default_def)

lemma env_string_not_Nil: "v \<noteq> [] \<Longrightarrow> env_string env k v \<noteq> []"
  by (simp add: env_string_def)

text \<open>
  A configuration that loads at all is complete: whatever the file and the environment say, the
  server has an address for each of its listeners, a place for keys and certificates, a decision on
  registration and on anonymous use, and an expiry for anonymous tunnels.
\<close>

theorem loaded_config_complete:
  assumes "LoadServerConfig unyaml utrim env path f = Inr c"
  shows "sc_ListenAddr c \<noteq> [] \<and> sc_DashboardAddr c \<noteq> [] \<and> sc_HTTPProxyAddr c \<noteq> [] \<and>
    sc_HTTPRedirectAddr c \<noteq> [] \<and> sc_KeyStorePath c \<noteq> [] \<and> sc_CertStorage c \<noteq> [] \<and>
    sc_AllowRegistration c \<noteq> None \<and> sc_AllowAnonymous c \<noteq> None \<and> sc_AnonTunnelTTL c \<noteq> 0"
proof -
  obtain c0 where "c = applyEnv utrim env (defaults c0)"
    using assms by (auto simp: LoadServerConfig_def Let_def split: if_splits sum.splits)
  then show ?thesis
    by (simp add: applyEnv_def defaults_def or_default_not_zero env_string_not_Nil)
qed

definition no_env :: "string \<Rightarrow> string" where
  "no_env k = []"

theorem loaded_config_complete_witness:
  "\<exists>c. LoadServerConfig (\<lambda>d. Inl ''bad yaml'') id no_env [] NotExist = Inr c \<and> sc_ListenAddr c \<noteq> []"
proof -
  obtain c where "LoadServerConfig (\<lambda>d. Inl ''bad yaml'') id no_env [] NotExist = Inr c"
    by (simp add: LoadServerConfig_def)
  then show ?thesis using loaded_config_complete by blast
qed

subsection \<open>Comma-separated tokens\<close>

fun join_commas :: "string list \<Rightarrow> string" where
  "join_commas [] = []"
| "join_commas [t] = t"
| "join_commas (t # ts) = t @ '','' @ join_commas ts"

lemma Split_no_sep: "c \<notin> set t \<Longrightarrow> Split t c = [t]"
  by (induction t) auto

lemma Split_sep: "c \<notin> set t \<Longrightarrow> Split (t @ c # s) c = t # Split s c"
  by (induction t) auto

lemma Split_join:
  "ts \<noteq> [] \<Longrightarrow> (\<And>t. t \<in> set ts \<Longrightarrow> CHR '','' \<notin> set t) \<Longrightarrow> Split (join_commas ts) CHR '','' = ts"
  by (induction ts rule: join_commas.induct) (auto simp: Split_no_sep Split_sep)

text \<open>A token that can be put into the list: no comma, and no white space around it.\<close>

definition plain_token :: "string \<Rightarrow> bool" where
  "plain_token t \<longleftrightarrow> t \<noteq> [] \<and> ascii t \<and> CHR '','' \<notin> set t \<and> \<not> white (hd t) \<and> \<not> white (last t)"

text \<open>
  \<open>HTN_TOKENS\<close> is read back as it was written: a list of tokens joined with commas, with a blank
  after each comma or without, is split into exactly those tokens.
\<close>

theorem csv_roundtrip:
  assumes "ts \<noteq> []" and "list_all plain_token ts"
  shows "splitCSV utrim (join_commas ts) = ts \<and>
    splitCSV utrim (join_commas (hd ts # map (\<lambda>t. CHR '' '' # t) (tl ts))) = ts"
proof -
  have trim: "TrimSpace utrim t = t" if "t \<in> set ts" for t
    using that assms(2) by (intro TrimSpace_id) (auto simp: plain_token_def list_all_iff)
  have trim': "TrimSpace utrim (CHR '' '' # t) = t" if "t \<in> set ts" for t
  proof -
    have "ascii t" "t \<noteq> []" "\<not> white (hd t)" "\<not> white (last t)"
      using that assms(2) by (auto simp: plain_token_def list_all_iff)
    then show ?thesis using trim [OF that]
      by (simp add: TrimSpace_def ascii_def) (simp add: white_def)
  qed
  obtain t0 r where ts: "ts = t0 # r" using assms(1) by (cases ts) auto
  have ne: "filter (\<lambda>t. t \<noteq> []) ts = ts" using assms(2) by (auto simp: plain_token_def list_all_iff filter_id_conv)
  have no_comma: "t \<in> set ts \<Longrightarrow> CHR '','' \<notin> set t" for t using assms(2) by (auto simp: plain_token_def list_all_iff)
  have "map (TrimSpace utrim) ts = ts" using trim by (simp add: map_idI)
  moreover have "map (TrimSpace utrim) (t0 # map (\<lambda>t. CHR '' '' # t) r) = ts"
    using trim trim' by (auto simp: ts intro: map_idI)
  moreover have "Split (join_commas ts) CHR '','' = ts" by (rule Split_join [OF assms(1) no_comma])
  moreover have "Split (join_commas (t0 # map (\<lambda>t. CHR '' '' # t) r)) CHR '','' = t0 # map (\<lambda>t. CHR '' '' # t) r"
    by (rule Split_join) (use no_comma ts in auto)
  ultimately show ?thesis using ne by (simp add: splitCSV_def ts)
qed

theorem csv_roundtrip_witness: "splitCSV id ''tok-a,tok-b'' = [''tok-a'', ''tok-b'']"
proof -
  have "list_all plain_token [''tok-a'', ''tok-b'']"
    by (simp add: plain_token_def ascii_def white_def)
  then show ?thesis using csv_roundtrip [of "[''tok-a'', ''tok-b'']" id] by simp
qed

subsection \<open>Edits from the dashboard\<close>

text \<open>What a set of updates should do, field by field.\<close>

definition edited :: "(string \<rightharpoonup> json_value) \<Rightarrow> server_config \<Rightarrow> server_config" where
  "edited u c = c\<lparr>
     sc_Domain := (case u ''domain'' of Some (JString s) \<Rightarrow> s | _ \<Rightarrow> sc_Domain c),
     sc_MaxTunnelsPerToken := (case Option.bind (u ''max_tunnels_per_token'') toInt of Some n \<Rightarrow> n | None \<Rightarrow> sc_MaxTunnelsPerToken c),
     sc_RateLimit := (case Option.bind (u ''rate_limit'') toInt of Some n \<Rightarrow> n | None \<Rightarrow> sc_RateLimit c),
     sc_GlobalRateLimit := (case Option.bind (u ''global_rate_limit'') toInt of Some n \<Rightarrow> n | None \<Rightarrow> sc_GlobalRateLimit c),
     sc_AllowRegistration := (case u ''allow_registration'' of Some (JBool b) \<Rightarrow> Some b | _ \<Rightarrow> sc_AllowRegistration c),
     sc_DashboardEnabled := (case u ''dashboard_enabled'' of Some (JBool b) \<Rightarrow> b | _ \<Rightarrow> sc_DashboardEnabled c)\<rparr>"

lemma edited_empty [simp]: "edited Map.empty c = c"
  by (simp add: edited_def)

lemma edited_step:
  assumes "u k = None"
  shows "edited u (apply_update k v c) = edited (u(k \<mapsto> v)) c"
proof -
  consider "k = ''domain''" | "k = ''max_tunnels_per_token''" | "k = ''rate_limit''" | "k = ''global_rate_limit''"
    | "k = ''allow_registration''" | "k = ''dashboard_enabled''"
    | "k \<noteq> ''domain'' \<and> k \<noteq> ''max_tunnels_per_token'' \<and> k \<noteq> ''rate_limit'' \<and> k \<noteq> ''global_rate_limit'' \<and>
       k \<noteq> ''allow_registration'' \<and> k \<noteq> ''dashboard_enabled''"
    by argo
  then show ?thesis
  proof cases
    case 7
    then have "apply_update k v c = c" by (simp add: apply_update_def)
    moreover have "''domain'' \<noteq> k" "''max_tunnels_per_token'' \<noteq> k" "''rate_limit'' \<noteq> k"
        "''global_rate_limit'' \<noteq> k" "''allow_registration'' \<noteq> k" "''dashboard_enabled'' \<noteq> k"
      using 7 by argo+
    ultimately show ?thesis by (simp add: edited_def)
  qed (use assms in \<open>simp add: apply_update_def set_int_def edited_def split: json_value.split option.split\<close>)+
qed

lemma restrict_insert: "u k = Some v \<Longrightarrow> u |` insert k S = (u |` S)(k \<mapsto> v)"
  by (rule ext) (auto simp: restrict_map_def)

lemma restrict_insert_None: "u k = None \<Longrightarrow> u |` insert k S = u |` S"
  by (rule ext) (auto simp: restrict_map_def)

lemma apply_updates_edited: "distinct ord \<Longrightarrow> apply_updates u ord c = edited (u |` set ord) c"
proof (induction ord arbitrary: c)
  case Nil
  then show ?case by (simp add: apply_updates_def restrict_map_def edited_def)
next
  case (Cons k ord)
  have k: "(u |` set ord) k = None" using Cons.prems by simp
  show ?case
  proof (cases "u k")
    case None
    then show ?thesis using Cons by (simp add: apply_updates_def restrict_insert_None)
  next
    case (Some v)
    then have "apply_updates u (k # ord) c = apply_updates u ord (apply_update k v c)"
      by (simp add: apply_updates_def)
    also have "\<dots> = edited (u |` set ord) (apply_update k v c)" using Cons by simp
    also have "\<dots> = edited ((u |` set ord)(k \<mapsto> v)) c" by (rule edited_step) (rule k)
    finally show ?thesis using Some by (simp only: restrict_insert list.set)
  qed
qed

text \<open>
  An edit from the dashboard changes exactly the six editable fields it names, to the values it
  gives where they have the right type, in whatever order the map is ranged; tokens, addresses, the
  administrator's token and every other field stay as they are. A failed write does not undo the change.
\<close>

theorem config_edit_exact:
  assumes "covers ord updates"
  shows "cp_cfg (snd (UpdateConfig yaml w ord updates p)) = edited updates (cp_cfg p)"
proof -
  have "updates |` set ord = updates"
  proof
    fix k
    show "(updates |` set ord) k = updates k"
      using assms by (cases "updates k") (auto simp: covers_def restrict_map_def)
  qed
  then have "apply_updates updates ord (cp_cfg p) = edited updates (cp_cfg p)"
    using assms apply_updates_edited [of ord updates] by (simp add: covers_def)
  then show ?thesis
    by (simp add: UpdateConfig_def provider_save_def split: sum.split write_outcome.split)
qed

theorem config_edit_exact_witness:
  "sc_AdminToken (cp_cfg (snd (UpdateConfig (\<lambda>c. Inr ''yaml'') WriteOk [''admin_token'', ''rate_limit'']
     [''admin_token'' \<mapsto> JString ''mine'', ''rate_limit'' \<mapsto> JNumber 7]
     \<lparr>cp_cfg = zero_config, cp_filePath = [], cp_file = NotExist\<rparr>))) = []"
  by (subst config_edit_exact) (simp_all add: covers_def edited_def zero_config_def)

end
