(* ===== verification/Server.thy ===== *)
theory Server
  imports Tunnel_Proofs Auth Key_Properties Config Protocol
begin

text \<open>
  The relay server (\<open>internal/server/server.go\<close>): start-up, authentication of a connection, the
  messages of a control session, the handling of a tunnel request from its checks to the registration,
  the idle timeout and the clean-up of a session. What is said to the client is a value of
  \<open>response\<close>, with the texts of the messages as constructors.
\<close>

subsection \<open>State\<close>

record ('h, 'l) server =
  sv_cfg :: server_config
  sv_tokenStore :: "'h token_store"
  sv_keyStore :: key_store
  sv_rateLimiter :: "'l rate_limiter"
  sv_ipLimiter :: "'l ip_limiter"
  sv_tunnelManager :: tunnel_manager

datatype init_error = InitTokenStore string | InitKeyStore load_error

definition NewServer ::
    "'h bcrypt_api \<Rightarrow> 'l limiter_api \<Rightarrow> json_api \<Rightarrow> (string \<Rightarrow> string) \<Rightarrow> file_read \<Rightarrow> server_config \<Rightarrow>
     init_error + ('h, 'l) server" where
  "NewServer B L J utrim f cfg =
     (case NewTokenStore B (sc_Tokens cfg) (sc_MaxTunnelsPerToken cfg) of
        Inl e \<Rightarrow> Inl (InitTokenStore e)
      | Inr ts \<Rightarrow>
          (case NewKeyStore J utrim (sc_KeyStorePath cfg) f of
             Inl e \<Rightarrow> Inl (InitKeyStore e)
           | Inr ks \<Rightarrow>
               Inr \<lparr>sv_cfg = cfg, sv_tokenStore = ts, sv_keyStore = ks,
                    sv_rateLimiter = NewRateLimiter L (sc_RateLimit cfg) (sc_GlobalRateLimit cfg),
                    sv_ipLimiter = newIPRateLimiter 10,
                    sv_tunnelManager = NewTunnelManager (fst (sc_TCPPortRange cfg)) (snd (sc_TCPPortRange cfg))\<rparr>))"

subsection \<open>Responses\<close>

datatype tunnel_error =
    BadLocalPort int | AnonTCP | AnonCustomSubdomain | AnonLimit | RateLimited
  | KeyCount key_count_error | TokenCount count_error
  | NoSubdomainLeft | RegisterFailed reg_error | AllocatePort reg_error | UnknownTunnelType string

datatype response =
    AuthResponse bool
  | RegistrationDisabled | InvalidRegistration | RegistrationFailed key_error
  | Registered string "string list"
  | TunnelError tunnel_error
  | HTTPTunnel string
  | TCPTunnel int
  | AccountInfo string "string list" int string
  | HeartbeatAck

subsection \<open>A connection\<close>

definition extractIP :: "string \<Rightarrow> string" where
  "extractIP addr = (case SplitHostPort addr of None \<Rightarrow> addr | Some (ip, p) \<Rightarrow> ip)"

definition handleRegister ::
    "json_api \<Rightarrow> string list \<Rightarrow> (nat \<Rightarrow> nat) \<Rightarrow> time \<Rightarrow> write_outcome \<Rightarrow> register_msg option \<Rightarrow>
     ('h, 'l) server \<Rightarrow> response \<times> ('h, 'l) server" where
  "handleRegister J ord rnd now w parsed s =
     (if sc_AllowRegistration (sv_cfg s) = Some False then (RegistrationDisabled, s)
      else case parsed of
        None \<Rightarrow> (InvalidRegistration, s)
      | Some msg \<Rightarrow>
          let subdomains = (if rm_Subdomain msg \<noteq> [] then [rm_Subdomain msg] else []) in
          (case CreateKey J ord rnd now w (rm_Name msg) subdomains 10 (sv_keyStore s) of
             (Inl e, ks) \<Rightarrow> (RegistrationFailed e, s\<lparr>sv_keyStore := ks\<rparr>)
           | (Inr key, ks) \<Rightarrow> (Registered key subdomains, s\<lparr>sv_keyStore := ks\<rparr>)))"

definition token_valid :: "'h bcrypt_api \<Rightarrow> ('h, 'l) server \<Rightarrow> string \<Rightarrow> bool" where
  "token_valid B s token =
     (if IsAPIKey token then key_Validate (sv_keyStore s) token
      else token_Validate B (sv_tokenStore s) token)"

text \<open>
  What one connection brings: its address, the time, whether the deadline could be set, the first
  frame (\<open>None\<close> when \<open>Decode\<close> fails), and whether the answer could be written and yamux started.
\<close>

record connection =
  cn_addr :: string
  cn_now :: time
  cn_deadline_ok :: bool
  cn_first :: "(msg_type \<times> bytes) option"
  cn_reply_ok :: bool
  cn_yamux_ok :: bool

datatype conn_outcome = Dropped | Answered response | Session string

definition authenticate ::
    "'h bcrypt_api \<Rightarrow> (bytes \<Rightarrow> auth_msg option) \<Rightarrow> connection \<Rightarrow> bytes \<Rightarrow> ('h, 'l) server \<Rightarrow> conn_outcome" where
  "authenticate B un_auth c raw s =
     (case un_auth raw of
        None \<Rightarrow> Dropped
      | Some m \<Rightarrow>
          let start = (\<lambda>token. if cn_reply_ok c \<and> cn_yamux_ok c then Session token else Dropped) in
          if am_Token m = [] then
            (if sc_AllowAnonymous (sv_cfg s) \<noteq> Some True then Answered (AuthResponse False)
             else start (anon_token (extractIP (cn_addr c))))
          else if \<not> token_valid B s (am_Token m) then Answered (AuthResponse False)
          else start (am_Token m))"

definition handleConnection ::
    "'h bcrypt_api \<Rightarrow> 'l limiter_api \<Rightarrow> json_api \<Rightarrow> (bytes \<Rightarrow> auth_msg option) \<Rightarrow> (bytes \<Rightarrow> register_msg option) \<Rightarrow>
     string list \<Rightarrow> (nat \<Rightarrow> nat) \<Rightarrow> write_outcome \<Rightarrow> connection \<Rightarrow> ('h, 'l) server \<Rightarrow>
     conn_outcome \<times> ('h, 'l) server" where
  "handleConnection B L J un_auth un_reg ord rnd w c s =
     (case ip_Allow L (extractIP (cn_addr c)) (cn_now c) (sv_ipLimiter s) of (allowed, il) \<Rightarrow>
        let s1 = s\<lparr>sv_ipLimiter := il\<rparr> in
        if \<not> allowed \<or> \<not> cn_deadline_ok c then (Dropped, s1)
        else case cn_first c of
          None \<Rightarrow> (Dropped, s1)
        | Some (t, raw) \<Rightarrow>
            if t = MsgRegister then
              (case handleRegister J ord rnd (cn_now c) w (un_reg raw) s1 of (r, s2) \<Rightarrow> (Answered r, s2))
            else if t \<noteq> MsgAuth then (Dropped, s1)
            else (authenticate B un_auth c raw s1, s1))"

subsection \<open>Counting a session's tunnels\<close>

definition incrementTunnels :: "string \<Rightarrow> ('h, 'l) server \<Rightarrow> tunnel_error option \<times> ('h, 'l) server" where
  "incrementTunnels token s =
     (if is_anon token then (None, s)
      else if IsAPIKey token then
        (case key_IncrementTunnels token (sv_keyStore s) of
           (e, ks) \<Rightarrow> (map_option KeyCount e, s\<lparr>sv_keyStore := ks\<rparr>))
      else
        (case token_IncrementTunnels token (sv_tokenStore s) of
           (e, ts) \<Rightarrow> (map_option TokenCount e, s\<lparr>sv_tokenStore := ts\<rparr>)))"

definition decrementTunnels :: "string \<Rightarrow> ('h, 'l) server \<Rightarrow> ('h, 'l) server" where
  "decrementTunnels token s =
     (if is_anon token then s
      else if IsAPIKey token then s\<lparr>sv_keyStore := key_DecrementTunnels token (sv_keyStore s)\<rparr>
      else s\<lparr>sv_tokenStore := token_DecrementTunnels token (sv_tokenStore s)\<rparr>)"

subsection \<open>A tunnel request\<close>

text \<open>The checks of \<open>handleTunnelRequest\<close>, up to and including the count.\<close>

definition admitTunnel ::
    "'l limiter_api \<Rightarrow> string list \<Rightarrow> int list \<Rightarrow> time \<Rightarrow> string \<Rightarrow> tunnel_request \<Rightarrow> ('h, 'l) server \<Rightarrow>
     tunnel_error option \<times> ('h, 'l) server" where
  "admitTunnel L oh ot now token req s =
     (if rq_LocalPort req < 1 \<or> rq_LocalPort req > 65535 then (Some (BadLocalPort (rq_LocalPort req)), s)
      else if is_anon token \<and> rq_Type req = TunnelTCP then (Some AnonTCP, s)
      else if is_anon token \<and> rq_Subdomain req \<noteq> [] then (Some AnonCustomSubdomain, s)
      else if is_anon token \<and> length (TunnelsForAnon oh ot token (sv_tunnelManager s)) \<ge> 1 then (Some AnonLimit, s)
      else case rate_Allow L token now (sv_rateLimiter s) of (allowed, rl) \<Rightarrow>
        let s1 = s\<lparr>sv_rateLimiter := rl\<rparr> in
        if \<not> allowed then (Some RateLimited, s1)
        else incrementTunnels token s1)"

definition new_session :: "nat \<Rightarrow> (nat \<Rightarrow> nat) \<Rightarrow> string \<Rightarrow> tunnel_request \<Rightarrow> tunnel_session" where
  "new_session y rnd token req =
     \<lparr>ts_ID = randomHex 8 rnd, ts_Token = token, ts_Type = rq_Type req, ts_Subdomain = [], ts_Port = 0,
      ts_LocalPort = rq_LocalPort req, ts_Session = Some y, ts_Listener = None, ts_ControlEnc = Some y,
      ts_CreatedAt = 0, ts_BytesIn = 0, ts_BytesOut = 0, ts_Reserved = False, ts_ReservedUntil = 0\<rparr>"

text \<open>
  At most \<open>n\<close> attempts with random labels; the draws of each attempt come from a source of its own.
\<close>

fun register_random ::
    "nat \<Rightarrow> (nat \<Rightarrow> nat \<Rightarrow> nat) \<Rightarrow> time \<Rightarrow> tunnel_session \<Rightarrow> tunnel_manager \<Rightarrow> string option \<times> tunnel_manager" where
  "register_random 0 rnds now ts tm = (None, tm)"
| "register_random (Suc n) rnds now ts tm =
     (let sub = RandomSubdomain (rnds n) in
      case RegisterHTTP sub (ts\<lparr>ts_Subdomain := sub\<rparr>) now tm of
        (None, tm') \<Rightarrow> (Some sub, tm')
      | (Some e, tm') \<Rightarrow> register_random n rnds now ts tm')"

definition tunnel_url :: "string \<Rightarrow> string \<Rightarrow> string" where
  "tunnel_url sub domain = ''https://'' @ sub @ ''.'' @ domain"

definition registerHTTPTunnel ::
    "(nat \<Rightarrow> nat \<Rightarrow> nat) \<Rightarrow> time \<Rightarrow> tunnel_session \<Rightarrow> tunnel_request \<Rightarrow> string \<Rightarrow> ('h, 'l) server \<Rightarrow>
     response \<times> ('h, 'l) server" where
  "registerHTTPTunnel rnds now ts req token s =
     (if rq_Subdomain req = [] then
        (case register_random 10 rnds now ts (sv_tunnelManager s) of
           (Some sub, tm) \<Rightarrow> (HTTPTunnel (tunnel_url sub (sc_Domain (sv_cfg s))), s\<lparr>sv_tunnelManager := tm\<rparr>)
         | (None, tm) \<Rightarrow>
             (TunnelError NoSubdomainLeft, decrementTunnels token (s\<lparr>sv_tunnelManager := tm\<rparr>)))
      else
        let sub = rq_Subdomain req in
        case RegisterHTTP sub (ts\<lparr>ts_Subdomain := sub\<rparr>) now (sv_tunnelManager s) of
          (None, tm) \<Rightarrow> (HTTPTunnel (tunnel_url sub (sc_Domain (sv_cfg s))), s\<lparr>sv_tunnelManager := tm\<rparr>)
        | (Some e, tm) \<Rightarrow>
            (TunnelError (RegisterFailed e), decrementTunnels token (s\<lparr>sv_tunnelManager := tm\<rparr>)))"

text \<open>The server always has a TCP proxy, so the first branch of \<open>registerTCPTunnel\<close> is not taken.\<close>

definition registerTCPTunnel ::
    "(nat \<Rightarrow> tcp_attempt) \<Rightarrow> time \<Rightarrow> tunnel_session \<Rightarrow> string \<Rightarrow> ('h, 'l) server \<Rightarrow> response \<times> ('h, 'l) server" where
  "registerTCPTunnel att now ts token s =
     (case StartTCPTunnel att ts now (sv_tunnelManager s) of
        (Inl e, tm) \<Rightarrow> (TunnelError (AllocatePort e), decrementTunnels token (s\<lparr>sv_tunnelManager := tm\<rparr>))
      | (Inr port, tm) \<Rightarrow> (TCPTunnel port, s\<lparr>sv_tunnelManager := tm\<rparr>))"

text \<open>The rest of \<open>handleTunnelRequest\<close>: the session's record and the registration by type.\<close>

definition openTunnel ::
    "(nat \<Rightarrow> nat) \<Rightarrow> (nat \<Rightarrow> nat \<Rightarrow> nat) \<Rightarrow> (nat \<Rightarrow> tcp_attempt) \<Rightarrow> time \<Rightarrow> nat \<Rightarrow> string \<Rightarrow> tunnel_request \<Rightarrow>
     ('h, 'l) server \<Rightarrow> response \<times> ('h, 'l) server" where
  "openTunnel rnd rnds att now y token req s =
     (let ts = new_session y rnd token req in
      if rq_Type req = TunnelHTTP then registerHTTPTunnel rnds now ts req token s
      else if rq_Type req = TunnelTCP then registerTCPTunnel att now ts token s
      else (TunnelError (UnknownTunnelType (rq_Type req)), decrementTunnels token s))"

definition handleTunnelRequest ::
    "'l limiter_api \<Rightarrow> string list \<Rightarrow> int list \<Rightarrow> (nat \<Rightarrow> nat) \<Rightarrow> (nat \<Rightarrow> nat \<Rightarrow> nat) \<Rightarrow> (nat \<Rightarrow> tcp_attempt) \<Rightarrow>
     time \<Rightarrow> nat \<Rightarrow> string \<Rightarrow> tunnel_request \<Rightarrow> ('h, 'l) server \<Rightarrow> response \<times> ('h, 'l) server" where
  "handleTunnelRequest L oh ot rnd rnds att now y token req s =
     (case admitTunnel L oh ot now token req s of
        (Some e, s1) \<Rightarrow> (TunnelError e, s1)
      | (None, s1) \<Rightarrow> openTunnel rnd rnds att now y token req s1)"

subsection \<open>The other messages and the end of a session\<close>

definition handleAccountInfo :: "string \<Rightarrow> ('h, 'l) server \<Rightarrow> response" where
  "handleAccountInfo token s =
     (let legacy = AccountInfo ''legacy'' [] (sc_MaxTunnelsPerToken (sv_cfg s)) (sc_Domain (sv_cfg s)) in
      if is_anon token then AccountInfo ''anonymous'' [] 1 (sc_Domain (sv_cfg s))
      else if IsAPIKey token then
        (case GetKey (sv_keyStore s) token of
           Some k \<Rightarrow> AccountInfo (ak_Name k) (ak_Subdomains k) (ak_MaxTunnels k) (sc_Domain (sv_cfg s))
         | None \<Rightarrow> legacy)
      else legacy)"

definition reservationTTL :: duration where
  "reservationTTL = 60 * second"

fun reserve_all :: "time \<Rightarrow> tunnel_session list \<Rightarrow> tunnel_manager \<Rightarrow> tunnel_manager" where
  "reserve_all now [] tm = tm"
| "reserve_all now (t # ts) tm =
     reserve_all now ts (if ts_Type t = ''http'' then ReserveHTTP (ts_Subdomain t) reservationTTL now tm else tm)"

definition idleTimeout :: "string list \<Rightarrow> int list \<Rightarrow> time \<Rightarrow> nat \<Rightarrow> ('h, 'l) server \<Rightarrow> ('h, 'l) server" where
  "idleTimeout oh ot now y s =
     s\<lparr>sv_tunnelManager := reserve_all now (SessionTunnels oh ot y (sv_tunnelManager s)) (sv_tunnelManager s)\<rparr>"

text \<open>One round of the loop of \<open>cleanupSession\<close>.\<close>

definition cleanup_one :: "string \<Rightarrow> tunnel_session \<Rightarrow> ('h, 'l) server \<Rightarrow> ('h, 'l) server" where
  "cleanup_one token t s =
     decrementTunnels token (s\<lparr>sv_tunnelManager :=
       (if ts_Type t = ''http'' then UnregisterHTTP (ts_Subdomain t) (sv_tunnelManager s)
        else if ts_Type t = ''tcp'' then StopTCPTunnel (ts_Port t) (sv_tunnelManager s)
        else sv_tunnelManager s)\<rparr>)"

definition cleanupSession :: "string list \<Rightarrow> int list \<Rightarrow> nat \<Rightarrow> string \<Rightarrow> ('h, 'l) server \<Rightarrow> ('h, 'l) server" where
  "cleanupSession oh ot y token s =
     fold (cleanup_one token) (SessionTunnels oh ot y (sv_tunnelManager s)) s"

end
