(* ===== verification/Server_Proofs.thy ===== *)
theory Server_Proofs
  imports Server
begin

text \<open>
  Lemmas about the server's handlers: the count a credential has in whichever store holds it, what the
  handlers do to the registry, and the removal of a session's tunnels.
\<close>

subsection \<open>One view of both stores\<close>

definition used_by :: "('h, 'l) server \<Rightarrow> string \<Rightarrow> int option" where
  "used_by s t =
     (if is_anon t then None
      else if IsAPIKey t then key_used (sv_keyStore s) t else token_used (sv_tokenStore s) t)"

definition limit_of :: "('h, 'l) server \<Rightarrow> string \<Rightarrow> int option" where
  "limit_of s t =
     (if is_anon t then None
      else if IsAPIKey t then key_limit (sv_keyStore s) t else token_limit (sv_tokenStore s) t)"

lemma used_by_sel [simp]:
  "used_by (s\<lparr>sv_tunnelManager := tm\<rparr>) = used_by s" "used_by (s\<lparr>sv_rateLimiter := rl\<rparr>) = used_by s"
  "limit_of (s\<lparr>sv_tunnelManager := tm\<rparr>) = limit_of s" "limit_of (s\<lparr>sv_rateLimiter := rl\<rparr>) = limit_of s"
  by (simp_all add: used_by_def limit_of_def fun_eq_iff)

lemma sv_tm_counts [simp]:
  "sv_tunnelManager (snd (incrementTunnels t s)) = sv_tunnelManager s"
  "sv_tunnelManager (decrementTunnels t s) = sv_tunnelManager s"
  "sv_cfg (snd (incrementTunnels t s)) = sv_cfg s"
  "sv_cfg (decrementTunnels t s) = sv_cfg s"
  by (simp_all add: incrementTunnels_def decrementTunnels_def split: prod.split)

text \<open>A credential is counted unless it is anonymous; counting succeeds exactly below the limit.\<close>

lemma incrementTunnels_cases:
  assumes "incrementTunnels t s = (r, s')"
  obtains (anon) "is_anon t" "r = None" "s' = s"
  | (ok) u l where "\<not> is_anon t" "r = None" "used_by s t = Some u" "limit_of s t = Some l" "u < l"
      "used_by s' = (used_by s)(t \<mapsto> u + 1)" "limit_of s' = limit_of s"
  | (fails) e where "\<not> is_anon t" "r = Some e" "used_by s' = used_by s" "limit_of s' = limit_of s"
proof (cases "is_anon t")
  case True
  then show thesis using assms anon by (simp add: incrementTunnels_def)
next
  case na: False
  show thesis
  proof (cases "IsAPIKey t")
    case True
    obtain c ks where ks: "key_IncrementTunnels t (sv_keyStore s) = (c, ks)" by fastforce
    have lim: "key_limit ks = key_limit (sv_keyStore s)" using keys.limit_incr [of t "sv_keyStore s"] ks by simp
    have s': "r = map_option KeyCount c" "s' = s\<lparr>sv_keyStore := ks\<rparr>"
      using assms na True ks by (simp_all add: incrementTunnels_def)
    show thesis
    proof (cases "sv_keyStore s" t rule: keys.incr_cases)
      case (ok u l)
      then show thesis using that(2) [of u l] s' ks lim na True
        by (auto simp: used_by_def limit_of_def fun_eq_iff)
    next
      case (fails e)
      then have "s' = s" "r = Some (KeyCount e)" using s' ks by simp_all
      then show thesis using that(3) na by blast
    qed
  next
    case False
    obtain c ts where ts: "token_IncrementTunnels t (sv_tokenStore s) = (c, ts)" by fastforce
    have lim: "token_limit ts = token_limit (sv_tokenStore s)" using tokens.limit_incr [of t "sv_tokenStore s"] ts by simp
    have s': "r = map_option TokenCount c" "s' = s\<lparr>sv_tokenStore := ts\<rparr>"
      using assms na False ts by (simp_all add: incrementTunnels_def)
    show thesis
    proof (cases "sv_tokenStore s" t rule: tokens.incr_cases)
      case (ok u l)
      then show thesis using that(2) [of u l] s' ts lim na False
        by (auto simp: used_by_def limit_of_def fun_eq_iff)
    next
      case (fails e)
      then have "s' = s" "r = Some (TokenCount e)" using s' ts by simp_all
      then show thesis using that(3) na by blast
    qed
  qed
qed

lemma used_by_decrement:
  "used_by (decrementTunnels t s) =
     (used_by s)(t := map_option (\<lambda>u. if 0 < u then u - 1 else u) (used_by s t))"
proof (cases "is_anon t")
  case True
  then show ?thesis by (auto simp: decrementTunnels_def used_by_def)
next
  case na: False
  show ?thesis
  proof (cases "IsAPIKey t")
    case True
    then show ?thesis using na keys.decr_known [of "sv_keyStore s" t] keys.decr_unknown [of "sv_keyStore s" t]
      by (cases "key_used (sv_keyStore s) t"; rule_tac ext) (simp_all add: decrementTunnels_def used_by_def)
  next
    case False
    then show ?thesis using na tokens.decr_known [of "sv_tokenStore s" t] tokens.decr_unknown [of "sv_tokenStore s" t]
      by (cases "token_used (sv_tokenStore s) t"; rule_tac ext) (simp_all add: decrementTunnels_def used_by_def)
  qed
qed

lemma limit_of_decrement [simp]: "limit_of (decrementTunnels t s) = limit_of s"
  using keys.limit_decr [of t "sv_keyStore s"] tokens.limit_decr [of t "sv_tokenStore s"]
  by (auto simp: decrementTunnels_def limit_of_def fun_eq_iff)

subsection \<open>Admission\<close>

lemma admitTunnel_ok:
  assumes "admitTunnel L oh ot now token req s = (None, s')"
  shows "1 \<le> rq_LocalPort req \<and> rq_LocalPort req \<le> 65535 \<and> sv_tunnelManager s' = sv_tunnelManager s \<and>
    sv_cfg s' = sv_cfg s \<and> limit_of s' = limit_of s \<and>
    (if is_anon token
     then used_by s' = used_by s \<and> rq_Type req \<noteq> TunnelTCP \<and> rq_Subdomain req = [] \<and>
       TunnelsForAnon oh ot token (sv_tunnelManager s) = []
     else \<exists>u l. used_by s token = Some u \<and> limit_of s token = Some l \<and> u < l \<and>
       used_by s' = (used_by s)(token \<mapsto> u + 1))"
proof -
  obtain allowed rl where rl: "rate_Allow L token now (sv_rateLimiter s) = (allowed, rl)" by fastforce
  let ?s = "s\<lparr>sv_rateLimiter := rl\<rparr>"
  have inc: "incrementTunnels token ?s = (None, s')"
    and checks: "1 \<le> rq_LocalPort req" "rq_LocalPort req \<le> 65535"
      "is_anon token \<longrightarrow> rq_Type req \<noteq> TunnelTCP \<and> rq_Subdomain req = [] \<and>
         TunnelsForAnon oh ot token (sv_tunnelManager s) = []"
    using assms rl by (auto simp: admitTunnel_def Let_def Suc_le_eq split: if_splits)
  have "sv_tunnelManager s' = sv_tunnelManager s \<and> sv_cfg s' = sv_cfg s"
    using inc sv_tm_counts(1,3) [of token ?s] by simp
  with inc show ?thesis
    by (cases rule: incrementTunnels_cases) (use checks in auto)
qed

lemma admitTunnel_fails:
  assumes "admitTunnel L oh ot now token req s = (Some e, s')"
  shows "sv_tunnelManager s' = sv_tunnelManager s \<and> used_by s' = used_by s \<and> limit_of s' = limit_of s"
proof -
  obtain allowed rl where rl: "rate_Allow L token now (sv_rateLimiter s) = (allowed, rl)" by fastforce
  let ?s = "s\<lparr>sv_rateLimiter := rl\<rparr>"
  have "s' = s \<or> s' = ?s \<or> incrementTunnels token ?s = (Some e, s')"
    using assms rl by (auto simp: admitTunnel_def Let_def split: if_splits)
  moreover have ?thesis if i: "incrementTunnels token ?s = (Some e, s')"
  proof -
    have "sv_tunnelManager s' = sv_tunnelManager s" using i sv_tm_counts(1) [of token ?s] by simp
    with i show ?thesis by (cases rule: incrementTunnels_cases) auto
  qed
  ultimately show ?thesis by auto
qed

subsection \<open>Registration\<close>

lemma RegisterHTTP_fails: "RegisterHTTP sub t now tm = (Some e, tm') \<Longrightarrow> tm' = tm"
  by (auto simp: RegisterHTTP_def Let_def split: option.splits if_splits)

lemma RegisterHTTP_stores:
  "RegisterHTTP sub t now tm = (None, tm') \<Longrightarrow>
     tm' = tm\<lparr>httpTunnels := (httpTunnels tm)(sub \<mapsto> t\<lparr>ts_CreatedAt := now\<rparr>)\<rparr>"
  by (auto simp: RegisterHTTP_def Let_def split: option.splits if_splits)

lemma register_random_cases:
  assumes "register_random n rnds now t tm = (r, tm')"
  shows "(r = None \<and> tm' = tm) \<or>
    (\<exists>sub. r = Some sub \<and> RegisterHTTP sub (t\<lparr>ts_Subdomain := sub\<rparr>) now tm = (None, tm'))"
  using assms
proof (induction n)
  case (Suc n)
  let ?sub = "RandomSubdomain (rnds n)"
  obtain e tm1 where r: "RegisterHTTP ?sub (t\<lparr>ts_Subdomain := ?sub\<rparr>) now tm = (e, tm1)" by fastforce
  show ?case
  proof (cases e)
    case None
    then show ?thesis using Suc.prems r by (auto simp: Let_def)
  next
    case (Some x)
    then have "tm1 = tm" using r RegisterHTTP_fails by blast
    then show ?thesis using Suc Some r by (simp add: Let_def)
  qed
qed simp

text \<open>
  The three outcomes of the second half of a request: a failure that takes the count back and leaves the
  registry alone (with undisturbed port attempts), an HTTP tunnel, a TCP tunnel.
\<close>

lemma openTunnel_cases:
  assumes "openTunnel rnd rnds att now y token req s = (r, s')" and "quiet att"
  obtains (fails) e where "r = TunnelError e" "s' = decrementTunnels token s"
  | (http) sub where "rq_Type req = TunnelHTTP" "r = HTTPTunnel (tunnel_url sub (sc_Domain (sv_cfg s)))"
      "rq_Subdomain req = [] \<or> rq_Subdomain req = sub"
      "RegisterHTTP sub ((new_session y rnd token req)\<lparr>ts_Subdomain := sub\<rparr>) now (sv_tunnelManager s) =
         (None, sv_tunnelManager s')"
      "s' = s\<lparr>sv_tunnelManager := sv_tunnelManager s'\<rparr>"
  | (tcp) port where "rq_Type req = TunnelTCP" "r = TCPTunnel port"
      "RegisterTCP att (new_session y rnd token req) now (sv_tunnelManager s) = (Inr port, sv_tunnelManager s')"
      "s' = s\<lparr>sv_tunnelManager := sv_tunnelManager s'\<rparr>"
proof -
  have same: "s\<lparr>sv_tunnelManager := sv_tunnelManager s\<rparr> = s" by simp
  let ?t = "new_session y rnd token req" and ?tm = "sv_tunnelManager s"
  consider (h) "rq_Type req = TunnelHTTP" | (t) "rq_Type req \<noteq> TunnelHTTP" "rq_Type req = TunnelTCP"
    | (u) "rq_Type req \<noteq> TunnelHTTP" "rq_Type req \<noteq> TunnelTCP" by blast
  then show thesis
  proof cases
    case u
    then show thesis using assms fails by (auto simp: openTunnel_def Let_def)
  next
    case t
    obtain p tm where p: "RegisterTCP att ?t now ?tm = (p, tm)" by fastforce
    then have st: "StartTCPTunnel att ?t now ?tm = (p, tm)"
      by (auto simp: StartTCPTunnel_def split: sum.split)
    show thesis
    proof (cases p)
      case (Inl e)
      then have "tm = ?tm" using p register_tcp_from_quiet [OF assms(2)] by (simp add: RegisterTCP_def)
      then show thesis using assms(1) t st Inl same fails by (auto simp: openTunnel_def registerTCPTunnel_def Let_def)
    next
      case (Inr port)
      then show thesis using assms(1) t st p tcp [of port]
        by (auto simp: openTunnel_def registerTCPTunnel_def Let_def)
    qed
  next
    case h
    have reg: "registerHTTPTunnel rnds now ?t req token s = (r, s')"
      using assms(1) h by (simp add: openTunnel_def Let_def)
    show thesis
    proof (cases "rq_Subdomain req = []")
      case True
      obtain q tm where q: "register_random 10 rnds now ?t ?tm = (q, tm)" by fastforce
      show thesis using register_random_cases [OF q] reg q True h same fails http
        by (auto simp: registerHTTPTunnel_def)
    next
      case False
      let ?sub = "rq_Subdomain req"
      obtain e tm where e: "RegisterHTTP ?sub (?t\<lparr>ts_Subdomain := ?sub\<rparr>) now ?tm = (e, tm)" by fastforce
      show thesis
      proof (cases e)
        case None
        then show thesis using reg e False h http [of ?sub] by (auto simp: registerHTTPTunnel_def Let_def)
      next
        case (Some x)
        then have "tm = ?tm" using e RegisterHTTP_fails by blast
        then show thesis using reg e False Some same fails by (auto simp: registerHTTPTunnel_def Let_def)
      qed
    qed
  qed
qed

text \<open>The kinds of answer a request gets.\<close>

lemma tunnel_answers:
  assumes "handleTunnelRequest L oh ot rnd rnds att now y token req s = (resp, s')"
  obtains (error) e where "resp = TunnelError e"
  | (http) url where "resp = HTTPTunnel url" "rq_Type req = TunnelHTTP"
  | (tcp) port where "resp = TCPTunnel port" "rq_Type req = TunnelTCP"
  using assms
  by (auto simp: handleTunnelRequest_def openTunnel_def registerHTTPTunnel_def registerTCPTunnel_def Let_def
      split: option.splits prod.splits sum.splits if_splits)

text \<open>A tunnel that is announced under an address was registered under a valid label of it.\<close>

lemma RegisterHTTP_valid: "RegisterHTTP sub t now tm = (None, tm') \<Longrightarrow> ValidateSubdomain sub = None"
  by (auto simp: RegisterHTTP_def split: option.splits)

lemma handleTunnelRequest_http:
  assumes "handleTunnelRequest L oh ot rnd rnds att now y token req s = (HTTPTunnel url, s')" and "quiet att"
  shows "\<exists>sub t. url = tunnel_url sub (sc_Domain (sv_cfg s)) \<and> ValidateSubdomain sub = None \<and>
    LookupHTTP (sv_tunnelManager s') sub = Some t \<and> ts_Token t = token \<and> ts_Session t = Some y \<and>
    sv_cfg s' = sv_cfg s"
proof -
  obtain a s1 where a: "admitTunnel L oh ot now token req s = (a, s1)" by fastforce
  with assms(1) have None: "a = None" and o: "openTunnel rnd rnds att now y token req s1 = (HTTPTunnel url, s')"
    by (auto simp: handleTunnelRequest_def split: option.splits)
  have cfg: "sv_cfg s1 = sv_cfg s" using admitTunnel_ok [OF a [unfolded None]] by blast
  from o assms(2) show ?thesis
  proof (cases rule: openTunnel_cases)
    case (http sub)
    have "sv_cfg s' = sv_cfg s1" by (subst http(5)) simp
    then show ?thesis using RegisterHTTP_stores [OF http(4)] RegisterHTTP_valid [OF http(4)] http(2) cfg
      by (intro exI [of _ sub]) (simp add: LookupHTTP_def new_session_def)
  qed auto
qed

subsection \<open>The end of a session\<close>

lemma cleanup_one_sel [simp]:
  "limit_of (cleanup_one token t s) = limit_of s" "sv_cfg (cleanup_one token t s) = sv_cfg s"
  "used_by (cleanup_one token t s) = used_by (decrementTunnels token s)"
  by (simp_all add: cleanup_one_def used_by_decrement)

lemma cleanup_one_http:
  "ts_Type t = ''http'' \<Longrightarrow> sv_tunnelManager (cleanup_one token t s) = UnregisterHTTP (ts_Subdomain t) (sv_tunnelManager s)"
  by (simp add: cleanup_one_def)

lemma cleanup_one_tcp:
  "ts_Type t = ''tcp'' \<Longrightarrow> sv_tunnelManager (cleanup_one token t s) = UnregisterTCP (ts_Port t) (sv_tunnelManager s)"
  by (simp add: cleanup_one_def StopTCPTunnel_def)

lemma set_SessionTunnels:
  "covers oh (httpTunnels tm) \<Longrightarrow> covers ot (tcpTunnels tm) \<Longrightarrow>
     set (SessionTunnels oh ot y tm) =
       {t. ts_Session t = Some y \<and> (t \<in> ran (httpTunnels tm) \<or> t \<in> ran (tcpTunnels tm))}"
  by (auto simp: SessionTunnels_def set_range_vals)

lemma Unregister_sel [simp]:
  "tcpTunnels (UnregisterTCP p tm) = (tcpTunnels tm)(p := None)" "httpTunnels (UnregisterTCP p tm) = httpTunnels tm"
  "httpTunnels (UnregisterHTTP n tm) = (httpTunnels tm)(n := None)" "tcpTunnels (UnregisterHTTP n tm) = tcpTunnels tm"
  by (simp_all add: UnregisterTCP_def UnregisterHTTP_def Let_def split: option.split)

definition http_names_of :: "tunnel_session list \<Rightarrow> string set" where
  "http_names_of R = {ts_Subdomain t | t. t \<in> set R \<and> ts_Type t = ''http''}"

definition tcp_ports_of :: "tunnel_session list \<Rightarrow> int set" where
  "tcp_ports_of R = {ts_Port t | t. t \<in> set R \<and> ts_Type t = ''tcp''}"

lemma cleanup_fold_tunnels:
  "httpTunnels (sv_tunnelManager (fold (cleanup_one token) R s)) n =
     (if n \<in> http_names_of R then None else httpTunnels (sv_tunnelManager s) n)"
  "tcpTunnels (sv_tunnelManager (fold (cleanup_one token) R s)) p =
     (if p \<in> tcp_ports_of R then None else tcpTunnels (sv_tunnelManager s) p)"
proof (induction R arbitrary: s)
  case Nil
  { case 1 then show ?case by (simp add: http_names_of_def) }
  { case 2 then show ?case by (simp add: tcp_ports_of_def) }
next
  case (Cons t R)
  have h: "http_names_of (t # R) = (if ts_Type t = ''http'' then insert (ts_Subdomain t) (http_names_of R) else http_names_of R)"
    by (auto simp: http_names_of_def)
  have p: "tcp_ports_of (t # R) = (if ts_Type t = ''tcp'' then insert (ts_Port t) (tcp_ports_of R) else tcp_ports_of R)"
    by (auto simp: tcp_ports_of_def)
  { case 1 show ?case using Cons.IH(1) [of "cleanup_one token t s"] h
      by (simp add: cleanup_one_def StopTCPTunnel_def) }
  { case 2 show ?case using Cons.IH(2) [of "cleanup_one token t s"] p
      by (simp add: cleanup_one_def StopTCPTunnel_def) }
qed

lemma cleanup_fold_used:
  "used_by s token = Some u \<Longrightarrow> 0 \<le> u \<Longrightarrow>
     used_by (fold (cleanup_one token) R s) token = Some (max 0 (u - int (length R)))"
proof (induction R arbitrary: s u)
  case (Cons t R)
  let ?u = "if 0 < u then u - 1 else u"
  have "used_by (cleanup_one token t s) token = Some ?u" using Cons.prems by (simp add: used_by_decrement)
  moreover have "0 \<le> ?u" using Cons.prems by simp
  ultimately have "used_by (fold (cleanup_one token) R (cleanup_one token t s)) token = Some (max 0 (?u - int (length R)))"
    by (rule Cons.IH)
  then show ?case using Cons.prems by (simp add: max_def)
qed (simp add: max_def)

lemma cleanup_fold_other:
  "t \<noteq> token \<Longrightarrow> used_by (fold (cleanup_one token) R s) t = used_by s t"
  by (induction R arbitrary: s) (simp_all add: used_by_decrement)

lemma names_of_session:
  assumes "tm_inv tm" and "covers oh (httpTunnels tm)" and "covers ot (tcpTunnels tm)"
  shows "n \<in> http_names_of (SessionTunnels oh ot y tm) \<longleftrightarrow>
      (\<exists>t. httpTunnels tm n = Some t \<and> ts_Session t = Some y)"
    and "p \<in> tcp_ports_of (SessionTunnels oh ot y tm) \<longleftrightarrow>
      (\<exists>t. tcpTunnels tm p = Some t \<and> ts_Session t = Some y)"
proof -
  have h: "httpTunnels tm k = Some t \<Longrightarrow> ts_Subdomain t = k \<and> ts_Type t = ''http''" for k t
    using tm_inv_http [OF assms(1)] by (auto simp: http_entry_ok_def)
  have c: "tcpTunnels tm k = Some t \<Longrightarrow> ts_Port t = k \<and> ts_Type t = ''tcp''" for k t
    using tm_inv_tcp [OF assms(1)] by (auto simp: tcp_entry_ok_def)
  show "n \<in> http_names_of (SessionTunnels oh ot y tm) \<longleftrightarrow> (\<exists>t. httpTunnels tm n = Some t \<and> ts_Session t = Some y)"
    unfolding http_names_of_def set_SessionTunnels [OF assms(2,3)]
    using h c by (fastforce simp: ran_def)
  show "p \<in> tcp_ports_of (SessionTunnels oh ot y tm) \<longleftrightarrow> (\<exists>t. tcpTunnels tm p = Some t \<and> ts_Session t = Some y)"
    unfolding tcp_ports_of_def set_SessionTunnels [OF assms(2,3)]
    using h c by (fastforce simp: ran_def)
qed

text \<open>Reserving keeps who holds which name.\<close>

lemma reserve_all_inv: "tm_inv tm \<Longrightarrow> tm_inv (reserve_all now R tm)"
  by (induction R arbitrary: tm) (simp_all add: tm_inv_ReserveHTTP)

lemma reserve_all_tcp [simp]: "tcpTunnels (reserve_all now R tm) = tcpTunnels tm"
  by (induction R arbitrary: tm) (simp_all add: ReserveHTTP_def split: option.split)

lemma reserve_all_session:
  "map_option ts_Session (httpTunnels (reserve_all now R tm) n) = map_option ts_Session (httpTunnels tm n)"
  by (induction R arbitrary: tm) (auto simp: ReserveHTTP_def split: option.split)

lemma reserve_all_others:
  "n \<notin> http_names_of R \<Longrightarrow> httpTunnels (reserve_all now R tm) n = httpTunnels tm n"
proof (induction R arbitrary: tm)
  case (Cons t R)
  then have "n \<notin> http_names_of R" "ts_Type t = ''http'' \<longrightarrow> ts_Subdomain t \<noteq> n"
    by (auto simp: http_names_of_def)
  then show ?case using Cons.IH by (auto simp: ReserveHTTP_def split: option.split)
qed simp

end
