(* ===== verification/Server_Properties.thy ===== *)
theory Server_Properties
  imports Server_Proofs Tunnel_Properties
begin

text \<open>
  The properties of the handlers: who gets a session, what a tunnel request does when it succeeds and
  when it fails, what anonymous users are confined to, and what the end of a session leaves behind.
\<close>

subsection \<open>An example server\<close>

text \<open>A limiter that never refuses.\<close>

definition open_limiter :: "unit limiter_api" where
  "open_limiter = \<lparr>NewLimiter = (\<lambda>r b. ()), AllowLimiter = (\<lambda>t l. (True, l))\<rparr>"

definition demo_server :: "(string, unit) server" where
  "demo_server = \<lparr>sv_cfg = defaults (zero_config\<lparr>sc_Domain := ''example.com''\<rparr>), sv_tokenStore = Map.empty,
     sv_keyStore = demo_store, sv_rateLimiter = NewRateLimiter open_limiter 100 1000,
     sv_ipLimiter = newIPRateLimiter 10, sv_tunnelManager = NewTunnelManager 10000 65535\<rparr>"

definition demo_user :: string where
  "demo_user = GenerateAPIKey (\<lambda>_. 7)"

definition calm :: "nat \<Rightarrow> tcp_attempt" where
  "calm n = \<lparr>at_draw = n, at_busy = {}, at_env = id\<rparr>"

lemma quiet_calm: "quiet calm"
  by (simp add: quiet_def calm_def)

lemma demo_user_props: "\<not> is_anon demo_user" "IsAPIKey demo_user"
  using anon_not_key [of demo_user] by (auto simp: demo_user_def)

lemma demo_server_counts: "used_by demo_server t = (if t = demo_user then Some 0 else None)"
  using demo_user_props
  by (auto simp: used_by_def demo_server_def key_used_def demo_store_def token_used_def demo_user_def demo_key_def)

lemma open_rate: "rate_Allow open_limiter token now rl = (True, snd (rate_Allow open_limiter token now rl))"
  by (simp add: rate_Allow_def open_limiter_def Let_def)

lemma demo_increment:
  "fst (incrementTunnels demo_user (demo_server\<lparr>sv_rateLimiter := rl\<rparr>)) = None"
  using demo_user_props
  by (simp add: incrementTunnels_def key_IncrementTunnels_def demo_server_def demo_store_def demo_user_def demo_key_def)

definition shop_request :: tunnel_request where
  "shop_request = \<lparr>rq_Type = TunnelHTTP, rq_Subdomain = ''shop'', rq_LocalPort = 3000\<rparr>"

lemma demo_admit: "fst (admitTunnel open_limiter [] [] 9 demo_user (shop_request\<lparr>rq_Subdomain := sub\<rparr>) demo_server) = None"
proof -
  obtain rl where "rate_Allow open_limiter demo_user 9 (sv_rateLimiter demo_server) = (True, rl)"
    using open_rate by blast
  then show ?thesis using demo_increment demo_user_props by (simp add: admitTunnel_def shop_request_def Let_def)
qed

subsection \<open>Authentication\<close>

text \<open>
  C10: A connection becomes a session exactly when its address is within the pre-authentication rate, its
  first frame is an authentication message, the answer goes out, and it brings either a valid credential
  (an active API key, or a configured token if it does not look like a key), whose session it becomes,
  or an empty token while anonymous use is allowed; then the session's token is the one of its address.
\<close>

theorem session_needs_credential:
  "fst (handleConnection B L J un_auth un_reg ord rnd w c s) = Session token \<longleftrightarrow>
     fst (ip_Allow L (extractIP (cn_addr c)) (cn_now c) (sv_ipLimiter s)) \<and> cn_deadline_ok c \<and>
     cn_reply_ok c \<and> cn_yamux_ok c \<and>
     (\<exists>raw m. cn_first c = Some (MsgAuth, raw) \<and> un_auth raw = Some m \<and>
        (if am_Token m = [] then sc_AllowAnonymous (sv_cfg s) = Some True \<and> token = anon_token (extractIP (cn_addr c))
         else token = am_Token m \<and>
           (if IsAPIKey token then key_Validate (sv_keyStore s) token
            else token_Validate B (sv_tokenStore s) token)))"
proof -
  obtain allowed il where il: "ip_Allow L (extractIP (cn_addr c)) (cn_now c) (sv_ipLimiter s) = (allowed, il)"
    by fastforce
  have auth: "authenticate B un_auth c raw (s\<lparr>sv_ipLimiter := il\<rparr>) = Session token \<longleftrightarrow>
      cn_reply_ok c \<and> cn_yamux_ok c \<and> (\<exists>m. un_auth raw = Some m \<and>
        (if am_Token m = [] then sc_AllowAnonymous (sv_cfg s) = Some True \<and> token = anon_token (extractIP (cn_addr c))
         else token = am_Token m \<and>
           (if IsAPIKey token then key_Validate (sv_keyStore s) token
            else token_Validate B (sv_tokenStore s) token)))" for raw
    by (cases "un_auth raw") (auto simp: authenticate_def token_valid_def Let_def)
  have "MsgAuth \<noteq> MsgRegister" by (simp add: msg_type_defs)
  then show ?thesis using auth
    by (auto simp: handleConnection_def il Let_def split: option.split prod.split if_splits)
qed

subsection \<open>Tunnel requests\<close>

lemma refused_no_leak:
  assumes "handleTunnelRequest L oh ot rnd rnds att now y token req s = (TunnelError e, s')"
    and "quiet att" and "\<And>t u. used_by s t = Some u \<Longrightarrow> 0 \<le> u"
  shows "sv_tunnelManager s' = sv_tunnelManager s \<and> used_by s' = used_by s"
proof -
  obtain r s1 where a: "admitTunnel L oh ot now token req s = (r, s1)" by fastforce
  show ?thesis
  proof (cases r)
    case (Some x)
    then show ?thesis using assms(1) a admitTunnel_fails [of L oh ot now token req s x s1]
      by (simp add: handleTunnelRequest_def)
  next
    case None
    then have o: "openTunnel rnd rnds att now y token req s1 = (TunnelError e, s')"
      using assms(1) a by (simp add: handleTunnelRequest_def)
    have ok: "sv_tunnelManager s1 = sv_tunnelManager s" and
      u: "if is_anon token then used_by s1 = used_by s
        else \<exists>u l. used_by s token = Some u \<and> used_by s1 = (used_by s)(token \<mapsto> u + 1)"
      using admitTunnel_ok [of L oh ot now token req s s1] a None by (auto split: if_splits)
    from o assms(2) have "s' = decrementTunnels token s1" by (cases rule: openTunnel_cases) auto
    moreover have "used_by s token = None" if "is_anon token" using that by (simp add: used_by_def)
    ultimately show ?thesis using ok u assms(3) [of token]
      by (cases "is_anon token") (auto simp: used_by_decrement fun_upd_idem)
  qed
qed

text \<open>
  C12: A tunnel request that is refused, at whatever point, leaves no trace: the registry is unchanged and
  so is the count of every credential, so refused requests never use up a user's allowance (port
  attempts undisturbed, counts not negative).
\<close>

theorem refused_request_no_leak:
  assumes "handleTunnelRequest L oh ot rnd rnds att now y token req s = (TunnelError e, s')"
    and "quiet att" and "\<And>t u. used_by s t = Some u \<Longrightarrow> 0 \<le> u"
  shows "sv_tunnelManager s' = sv_tunnelManager s \<and> used_by s' = used_by s"
  using assms by (rule refused_no_leak)

theorem refused_request_no_leak_witness:
  "\<exists>e s'. handleTunnelRequest open_limiter [] [] (\<lambda>_. 0) (\<lambda>_ _. 0) calm 9 1 demo_user
       (shop_request\<lparr>rq_Subdomain := ''admin''\<rparr>) demo_server = (TunnelError e, s') \<and>
     used_by s' demo_user = Some 0"
proof -
  let ?req = "shop_request\<lparr>rq_Subdomain := ''admin''\<rparr>"
  obtain r s' where h: "handleTunnelRequest open_limiter [] [] (\<lambda>_. 0) (\<lambda>_ _. 0) calm 9 1 demo_user ?req demo_server = (r, s')"
    by fastforce
  have "ValidateSubdomain ''admin'' \<noteq> None" by (simp add: ValidateSubdomain_None reservedSubdomains_def)
  then have "RegisterHTTP ''admin'' t now tm \<noteq> (None, tm')" for t now tm tm'
    by (auto simp: RegisterHTTP_def)
  then have e: "\<exists>e. r = TunnelError e"
    using h demo_admit [of "''admin''"]
    by (auto simp: handleTunnelRequest_def openTunnel_def registerHTTPTunnel_def shop_request_def Let_def
        split: prod.splits option.splits)
  then obtain e where "r = TunnelError e" by blast
  then have "handleTunnelRequest open_limiter [] [] (\<lambda>_. 0) (\<lambda>_ _. 0) calm 9 1 demo_user ?req demo_server = (TunnelError e, s')"
    using h by simp
  moreover have "0 \<le> u" if "used_by demo_server t = Some u" for t u
    using that by (simp add: demo_server_counts split: if_splits)
  ultimately have "used_by s' = used_by demo_server" using refused_request_no_leak [OF _ quiet_calm] by blast
  then show ?thesis using h e by (auto simp: demo_server_counts)
qed

text \<open>
  C5: A tunnel the server announces is there: after the answer with an HTTP address the label of that
  address routes to this session, under the requested name if one was requested; after the answer with
  a port, that port, free before and within the configured range, belongs to this session; and the
  credential's count has grown by exactly one within its limit (anonymous users are not counted).
\<close>

theorem announced_tunnel_exists:
  assumes "handleTunnelRequest L oh ot rnd rnds att now y token req s = (r, s')"
    and "quiet att" and "\<And>e. r \<noteq> TunnelError e"
  shows "((\<exists>sub t. r = HTTPTunnel (tunnel_url sub (sc_Domain (sv_cfg s))) \<and>
        LookupHTTP (sv_tunnelManager s') sub = Some t \<and> ts_Token t = token \<and> ts_Session t = Some y \<and>
        (rq_Subdomain req = [] \<or> rq_Subdomain req = sub)) \<or>
     (\<exists>port t. r = TCPTunnel port \<and> LookupTCP (sv_tunnelManager s) port = None \<and>
        LookupTCP (sv_tunnelManager s') port = Some t \<and> ts_Token t = token \<and> ts_Session t = Some y \<and>
        portMin (sv_tunnelManager s) \<le> port \<and> port \<le> portMax (sv_tunnelManager s))) \<and>
     (if is_anon token then used_by s' = used_by s
      else \<exists>u l. used_by s token = Some u \<and> limit_of s token = Some l \<and> u < l \<and>
        used_by s' = (used_by s)(token \<mapsto> u + 1))"
proof -
  obtain a s1 where a: "admitTunnel L oh ot now token req s = (a, s1)" by fastforce
  with assms(1,3) have None: "a = None" and o: "openTunnel rnd rnds att now y token req s1 = (r, s')"
    by (auto simp: handleTunnelRequest_def split: option.splits)
  note ok = admitTunnel_ok [of L oh ot now token req s s1, OF a [unfolded None]]
  then have tm: "sv_tunnelManager s1 = sv_tunnelManager s" "sv_cfg s1 = sv_cfg s" by auto
  have cnt: "if is_anon token then used_by s1 = used_by s
      else \<exists>u l. used_by s token = Some u \<and> limit_of s token = Some l \<and> u < l \<and>
        used_by s1 = (used_by s)(token \<mapsto> u + 1)"
    using ok by (auto split: if_splits)
  from o assms(2) show ?thesis
  proof (cases rule: openTunnel_cases)
    case (fails e)
    then show ?thesis using assms(3) by blast
  next
    case (http sub)
    have "used_by s' = used_by s1" by (subst http(5)) simp
    then show ?thesis using RegisterHTTP_stores [OF http(4)] tm cnt http(2,3)
      by (auto simp: LookupHTTP_def new_session_def)
  next
    case (tcp port)
    have "register_tcp_from maxAttempts att (new_session y rnd token req) now (sv_tunnelManager s) = (Inr port, sv_tunnelManager s')"
      using tcp(3) tm by (simp add: RegisterTCP_def)
    note st = register_tcp_stores [OF assms(2) this]
    have "used_by s' = used_by s1" by (subst tcp(4)) simp
    then show ?thesis using tcp(2) st cnt by (auto simp: LookupTCP_def new_session_def)
  qed
qed

lemma demo_open_shop:
  "\<exists>sub s'. handleTunnelRequest open_limiter [] [] (\<lambda>_. 0) (\<lambda>_ _. 0) calm 9 1 demo_user shop_request demo_server =
     (HTTPTunnel sub, s')"
proof -
  obtain s1 where a: "admitTunnel open_limiter [] [] 9 demo_user shop_request demo_server = (None, s1)"
    using demo_admit [of "''shop''"] by (cases "admitTunnel open_limiter [] [] 9 demo_user shop_request demo_server")
      (simp add: shop_request_def)
  then have "httpTunnels (sv_tunnelManager s1) = Map.empty"
    using admitTunnel_ok [OF a] by (simp add: demo_server_def NewTunnelManager_def)
  then have "RegisterHTTP ''shop'' t 9 (sv_tunnelManager s1) \<noteq> (Some e, tm')" for t e tm'
    by (simp add: RegisterHTTP_def valid_shop Let_def)
  then show ?thesis using a
    by (auto simp: handleTunnelRequest_def openTunnel_def registerHTTPTunnel_def shop_request_def Let_def
        split: prod.splits option.splits)
qed

theorem announced_tunnel_exists_witness:
  "\<exists>sub t s'. handleTunnelRequest open_limiter [] [] (\<lambda>_. 0) (\<lambda>_ _. 0) calm 9 1 demo_user shop_request demo_server =
       (HTTPTunnel (tunnel_url sub ''example.com''), s') \<and> LookupHTTP (sv_tunnelManager s') sub = Some t \<and>
     ts_Token t = demo_user"
proof -
  obtain u s' where h: "handleTunnelRequest open_limiter [] [] (\<lambda>_. 0) (\<lambda>_ _. 0) calm 9 1 demo_user shop_request demo_server =
      (HTTPTunnel u, s')"
    using demo_open_shop by blast
  have "sc_Domain (sv_cfg demo_server) = ''example.com''" by (simp add: demo_server_def defaults_def)
  then show ?thesis using announced_tunnel_exists [OF h quiet_calm] h by auto
qed


definition anon_request :: tunnel_request where
  "anon_request = \<lparr>rq_Type = TunnelHTTP, rq_Subdomain = [], rq_LocalPort = 3000\<rparr>"


subsection \<open>The end of a session\<close>

lemma cleanup_exact:
  assumes "tm_inv (sv_tunnelManager s)" and "covers oh (httpTunnels (sv_tunnelManager s))"
    and "covers ot (tcpTunnels (sv_tunnelManager s))" and "used_by s token = Some u" and "0 \<le> u"
  shows "(let tm = sv_tunnelManager s; s' = cleanupSession oh ot y token s in
     httpTunnels (sv_tunnelManager s') = keep_entries (\<lambda>t. ts_Session t \<noteq> Some y) (httpTunnels tm) \<and>
     tcpTunnels (sv_tunnelManager s') = keep_entries (\<lambda>t. ts_Session t \<noteq> Some y) (tcpTunnels tm) \<and>
     used_by s' = (used_by s)(token \<mapsto> max 0 (u -
       int (count_entries (\<lambda>t. ts_Session t = Some y) (httpTunnels tm) +
            count_entries (\<lambda>t. ts_Session t = Some y) (tcpTunnels tm)))))"
proof -
  let ?tm = "sv_tunnelManager s"
  let ?R = "SessionTunnels oh ot y ?tm"
  have c: "cleanupSession oh ot y token s = fold (cleanup_one token) ?R s" by (simp add: cleanupSession_def)
  have len: "length ?R = count_entries (\<lambda>t. ts_Session t = Some y) (httpTunnels ?tm) +
      count_entries (\<lambda>t. ts_Session t = Some y) (tcpTunnels ?tm)"
    using assms(2,3) by (simp add: SessionTunnels_def length_filter_range_vals)
  have "httpTunnels (sv_tunnelManager (cleanupSession oh ot y token s)) =
      keep_entries (\<lambda>t. ts_Session t \<noteq> Some y) (httpTunnels ?tm)"
    unfolding c by (rule ext) (auto simp: cleanup_fold_tunnels(1) names_of_session(1) [OF assms(1-3)] keep_entries_def
        split: option.split)
  moreover have "tcpTunnels (sv_tunnelManager (cleanupSession oh ot y token s)) =
      keep_entries (\<lambda>t. ts_Session t \<noteq> Some y) (tcpTunnels ?tm)"
    unfolding c by (rule ext) (auto simp: cleanup_fold_tunnels(2) names_of_session(2) [OF assms(1-3)] keep_entries_def
        split: option.split)
  moreover have "used_by (cleanupSession oh ot y token s) = (used_by s)(token \<mapsto> max 0 (u - int (length ?R)))"
    unfolding c using cleanup_fold_used [OF assms(4,5)] cleanup_fold_other [of _ token ?R s] by auto
  ultimately show ?thesis unfolding len by (simp add: Let_def)
qed

text \<open>
  The end of a session removes exactly its tunnels, active and reserved ones, and takes exactly
  their number off its credential (not below zero); every other tunnel and every other credential stays as
  it was.
\<close>

theorem session_end_exact:
  assumes "tm_inv (sv_tunnelManager s)" and "covers oh (httpTunnels (sv_tunnelManager s))"
    and "covers ot (tcpTunnels (sv_tunnelManager s))" and "used_by s token = Some u" and "0 \<le> u"
  shows "(let tm = sv_tunnelManager s; s' = cleanupSession oh ot y token s in
     httpTunnels (sv_tunnelManager s') = keep_entries (\<lambda>t. ts_Session t \<noteq> Some y) (httpTunnels tm) \<and>
     tcpTunnels (sv_tunnelManager s') = keep_entries (\<lambda>t. ts_Session t \<noteq> Some y) (tcpTunnels tm) \<and>
     used_by s' = (used_by s)(token \<mapsto> max 0 (u -
       int (count_entries (\<lambda>t. ts_Session t = Some y) (httpTunnels tm) +
            count_entries (\<lambda>t. ts_Session t = Some y) (tcpTunnels tm)))))"
  using assms by (rule cleanup_exact)

definition busy_server :: "(string, unit) server" where
  "busy_server = demo_server\<lparr>sv_tunnelManager := a_manager\<rparr>"

lemma a_manager_inv: "tm_inv a_manager"
  by (rule registry.good_run [OF a_manager_reachable])

theorem session_end_exact_witness:
  "httpTunnels (sv_tunnelManager (cleanupSession [''myapp''] [] 1 demo_user busy_server)) ''myapp'' = None"
proof -
  have "used_by busy_server demo_user = Some 0" by (simp add: busy_server_def demo_server_counts)
  then show ?thesis
    using session_end_exact [of busy_server "[''myapp'']" "[]" demo_user 0 1] a_manager_inv
    by (simp add: busy_server_def covers_def a_manager_simps Let_def keep_entries_def)
qed

text \<open>
  The reservation made for a client that has gone silent does not outlive its session: the idle
  timeout reserves the session's names, and the clean-up that follows in the same goroutine removes the
  reserved entries too, so the registry is the same as if nothing had been reserved and anyone can take
  the names at once.
\<close>

theorem idle_reservation_lost:
  assumes "tm_inv (sv_tunnelManager s)"
    and "covers oh (httpTunnels (sv_tunnelManager s))" and "covers ot (tcpTunnels (sv_tunnelManager s))"
  shows "httpTunnels (sv_tunnelManager (cleanupSession oh ot y token (idleTimeout oh ot now y s))) =
    httpTunnels (sv_tunnelManager (cleanupSession oh ot y token s))"
proof
  fix n
  let ?tm = "sv_tunnelManager s"
  let ?R = "SessionTunnels oh ot y ?tm"
  let ?tm' = "reserve_all now ?R ?tm"
  have dom: "dom (httpTunnels ?tm') = dom (httpTunnels ?tm)"
    using reserve_all_session [of now ?R ?tm] by (auto simp: dom_def) (metis map_option_eq_Some option.simps(8) option.exhaust_sel)+
  have cov: "covers oh (httpTunnels ?tm')" "covers ot (tcpTunnels ?tm')"
    using assms(2,3) dom by (simp_all add: covers_def)
  have inv: "tm_inv ?tm'" by (rule reserve_all_inv [OF assms(1)])
  have same: "n \<in> http_names_of (SessionTunnels oh ot y ?tm') \<longleftrightarrow> n \<in> http_names_of ?R"
    unfolding names_of_session(1) [OF inv cov] names_of_session(1) [OF assms]
    using reserve_all_session [of now ?R ?tm n]
    by (cases "httpTunnels ?tm n"; cases "httpTunnels ?tm' n") auto
  have "sv_tunnelManager (idleTimeout oh ot now y s) = ?tm'" by (simp add: idleTimeout_def)
  then show "httpTunnels (sv_tunnelManager (cleanupSession oh ot y token (idleTimeout oh ot now y s))) n =
      httpTunnels (sv_tunnelManager (cleanupSession oh ot y token s)) n"
    using same reserve_all_others [of n ?R now ?tm]
    by (simp add: cleanupSession_def cleanup_fold_tunnels(1))
qed

theorem idle_reservation_lost_witness:
  "httpTunnels (sv_tunnelManager (cleanupSession [''myapp''] [] 1 demo_user
     (idleTimeout [''myapp''] [] 100 1 busy_server))) ''myapp'' =
   httpTunnels (sv_tunnelManager (cleanupSession [''myapp''] [] 1 demo_user busy_server)) ''myapp''"
  using idle_reservation_lost [of busy_server "[''myapp'']" "[]" 1 demo_user 100] a_manager_inv
  by (simp add: busy_server_def covers_def a_manager_simps)

end
