(* ===== verification/Server_Sessions.thy ===== *)
theory Server_Sessions
  imports Server_Proofs
begin

text \<open>
  The server with all its sessions at once. Each session has two goroutines that matter: the one that
  handles its control messages, which may be between the checks of a tunnel request and its
  registration, and the one that, when the session ends, takes a list of its tunnels and removes them
  one by one. Every rule of \<open>world_step\<close> is one of these pieces, so requests, clean-ups,
  administrators, expiry and other sessions interleave freely. The invariant charges every tunnel, every
  admitted request and every tunnel still to be cleaned up to a credential and bounds the charges by the
  count the credential has in its store.
\<close>

subsection \<open>The world\<close>

record session =
  ss_token :: string
  ss_pending :: "tunnel_request option"
  ss_ended :: bool
  ss_cleaning :: "tunnel_session list"

record ('h, 'l) world =
  wd_server :: "('h, 'l) server"
  wd_sessions :: "nat \<rightharpoonup> session"

definition fresh_session :: "string \<Rightarrow> session" where
  "fresh_session token = \<lparr>ss_token = token, ss_pending = None, ss_ended = False, ss_cleaning = []\<rparr>"

text \<open>What the tunnel manager does on its own or for the administrator and the proxies.\<close>

inductive registry_event :: "tunnel_manager \<Rightarrow> tunnel_manager \<Rightarrow> bool" where
  ev_kill: "registry_event tm (snd (KillTunnelByID oh ot i tm))"
| ev_expire: "registry_event tm (AnonymousExpiry oh ot ords ttl now tm)"
| ev_reap: "registry_event tm (reservationReaper now tm)"
| ev_tcp_bytes: "registry_event tm (count_tcp_bytes ident port n_in n_out tm)"
| ev_http_bytes: "registry_event tm (count_http_bytes ident sub n_read tm)"

text \<open>What the dashboard does to the keys. A key that is generated is not one that exists.\<close>

inductive key_event :: "json_api \<Rightarrow> key_store \<Rightarrow> key_store \<Rightarrow> bool" for J where
  ev_create: "ks_keys ks (GenerateAPIKey rnd) = None \<Longrightarrow> key_event J ks (snd (CreateKey J ord rnd now w name subs n ks))"
| ev_revoke: "key_event J ks (snd (RevokeKey J ord w i ks))"
| ev_claim: "key_event J ks (snd (AddSubdomain J ord w i sub ks))"
| ev_release: "key_event J ks (snd (RemoveSubdomain J w i sub ks))"

inductive world_step ::
    "'h bcrypt_api \<Rightarrow> 'l limiter_api \<Rightarrow> json_api \<Rightarrow> ('h, 'l) world \<Rightarrow> ('h, 'l) world \<Rightarrow> bool" for B L J where
  connect: "wd_sessions wd y = None \<Longrightarrow>
    ks_keys (sv_keyStore (wd_server wd)) (GenerateAPIKey rnd) = None \<Longrightarrow>
    handleConnection B L J un_auth un_reg ord rnd w c (wd_server wd) = (Session token, s') \<Longrightarrow>
    world_step B L J wd (wd\<lparr>wd_server := s', wd_sessions := (wd_sessions wd)(y \<mapsto> fresh_session token)\<rparr>)"
| turned_away: "ks_keys (sv_keyStore (wd_server wd)) (GenerateAPIKey rnd) = None \<Longrightarrow>
    handleConnection B L J un_auth un_reg ord rnd w c (wd_server wd) = (r, s') \<Longrightarrow> (\<And>t. r \<noteq> Session t) \<Longrightarrow>
    world_step B L J wd (wd\<lparr>wd_server := s'\<rparr>)"
| admit: "wd_sessions wd y = Some ss \<Longrightarrow> ss_pending ss = None \<Longrightarrow>
    covers oh (httpTunnels (sv_tunnelManager (wd_server wd))) \<Longrightarrow>
    covers ot (tcpTunnels (sv_tunnelManager (wd_server wd))) \<Longrightarrow>
    admitTunnel L oh ot now (ss_token ss) req (wd_server wd) = (None, s') \<Longrightarrow>
    world_step B L J wd (wd\<lparr>wd_server := s', wd_sessions := (wd_sessions wd)(y \<mapsto> ss\<lparr>ss_pending := Some req\<rparr>)\<rparr>)"
| refuse: "wd_sessions wd y = Some ss \<Longrightarrow> ss_pending ss = None \<Longrightarrow>
    covers oh (httpTunnels (sv_tunnelManager (wd_server wd))) \<Longrightarrow>
    covers ot (tcpTunnels (sv_tunnelManager (wd_server wd))) \<Longrightarrow>
    admitTunnel L oh ot now (ss_token ss) req (wd_server wd) = (Some e, s') \<Longrightarrow>
    world_step B L J wd (wd\<lparr>wd_server := s'\<rparr>)"
| open_tunnel: "wd_sessions wd y = Some ss \<Longrightarrow> ss_pending ss = Some req \<Longrightarrow> quiet att \<Longrightarrow>
    openTunnel rnd rnds att now y (ss_token ss) req (wd_server wd) = (r, s') \<Longrightarrow>
    world_step B L J wd (wd\<lparr>wd_server := s', wd_sessions := (wd_sessions wd)(y \<mapsto> ss\<lparr>ss_pending := None\<rparr>)\<rparr>)"
| idle: "wd_sessions wd y = Some ss \<Longrightarrow> \<not> ss_ended ss \<Longrightarrow>
    covers oh (httpTunnels (sv_tunnelManager (wd_server wd))) \<Longrightarrow>
    covers ot (tcpTunnels (sv_tunnelManager (wd_server wd))) \<Longrightarrow>
    world_step B L J wd (wd\<lparr>wd_server := idleTimeout oh ot now y (wd_server wd)\<rparr>)"
| end_session: "wd_sessions wd y = Some ss \<Longrightarrow> \<not> ss_ended ss \<Longrightarrow>
    covers oh (httpTunnels (sv_tunnelManager (wd_server wd))) \<Longrightarrow>
    covers ot (tcpTunnels (sv_tunnelManager (wd_server wd))) \<Longrightarrow>
    world_step B L J wd (wd\<lparr>wd_sessions := (wd_sessions wd)(y \<mapsto>
      ss\<lparr>ss_ended := True, ss_cleaning := SessionTunnels oh ot y (sv_tunnelManager (wd_server wd))\<rparr>)\<rparr>)"
| clean_up: "wd_sessions wd y = Some ss \<Longrightarrow> ss_cleaning ss = t # R \<Longrightarrow>
    world_step B L J wd (wd\<lparr>wd_server := cleanup_one (ss_token ss) t (wd_server wd),
      wd_sessions := (wd_sessions wd)(y \<mapsto> ss\<lparr>ss_cleaning := R\<rparr>)\<rparr>)"
| registry: "registry_event (sv_tunnelManager (wd_server wd)) tm' \<Longrightarrow>
    world_step B L J wd (wd\<lparr>wd_server := (wd_server wd)\<lparr>sv_tunnelManager := tm'\<rparr>\<rparr>)"
| keys_changed: "key_event J (sv_keyStore (wd_server wd)) ks' \<Longrightarrow>
    world_step B L J wd (wd\<lparr>wd_server := (wd_server wd)\<lparr>sv_keyStore := ks'\<rparr>\<rparr>)"

subsection \<open>Charges\<close>

datatype tunnel_key = HTTPName string | TCPPort int

definition entry :: "tunnel_manager \<Rightarrow> (tunnel_key \<rightharpoonup> tunnel_session)" where
  "entry tm k = (case k of HTTPName n \<Rightarrow> httpTunnels tm n | TCPPort p \<Rightarrow> tcpTunnels tm p)"

definition item_key :: "tunnel_session \<Rightarrow> tunnel_key" where
  "item_key t = (if ts_Type t = ''http'' then HTTPName (ts_Subdomain t) else TCPPort (ts_Port t))"

definition cleaning_keys :: "(nat \<rightharpoonup> session) \<Rightarrow> nat \<Rightarrow> tunnel_key set" where
  "cleaning_keys S y = (case S y of None \<Rightarrow> {} | Some ss \<Rightarrow> item_key ` set (ss_cleaning ss))"

datatype charge = Live tunnel_key | Cleaning nat tunnel_key | Pending nat

definition live_charge :: "(tunnel_key \<rightharpoonup> tunnel_session) \<Rightarrow> (nat \<rightharpoonup> session) \<Rightarrow> string \<Rightarrow> tunnel_key \<Rightarrow> bool" where
  "live_charge E S t k \<longleftrightarrow> (\<exists>e y. E k = Some e \<and> ts_Token e = t \<and> ts_Session e = Some y \<and> k \<notin> cleaning_keys S y)"

definition charges :: "(tunnel_key \<rightharpoonup> tunnel_session) \<Rightarrow> (nat \<rightharpoonup> session) \<Rightarrow> string \<Rightarrow> charge set" where
  "charges E S t =
     {Live k | k. live_charge E S t k} \<union>
     {Cleaning y k | y k ss. S y = Some ss \<and> ss_token ss = t \<and> k \<in> cleaning_keys S y} \<union>
     {Pending y | y ss. S y = Some ss \<and> ss_token ss = t \<and> ss_pending ss \<noteq> None}"

lemma charges_iff:
  "Live k \<in> charges E S t \<longleftrightarrow> live_charge E S t k"
  "Cleaning y k \<in> charges E S t \<longleftrightarrow> (\<exists>ss. S y = Some ss \<and> ss_token ss = t \<and> k \<in> cleaning_keys S y)"
  "Pending y \<in> charges E S t \<longleftrightarrow> (\<exists>ss. S y = Some ss \<and> ss_token ss = t \<and> ss_pending ss \<noteq> None)"
  by (auto simp: charges_def)

lemma charges_subsetI:
  assumes "\<And>k. Live k \<in> A \<Longrightarrow> Live k \<in> B" and "\<And>y k. Cleaning y k \<in> A \<Longrightarrow> Cleaning y k \<in> B"
    and "\<And>y. Pending y \<in> A \<Longrightarrow> Pending y \<in> B"
  shows "A \<subseteq> B"
proof
  fix x
  assume "x \<in> A"
  then show "x \<in> B" using assms by (cases x) auto
qed

lemma finite_charges:
  assumes "finite (dom E)" and "finite (dom S)"
  shows "finite (charges E S t)"
proof -
  have ck: "finite (cleaning_keys S y)" for y by (simp add: cleaning_keys_def split: option.split)
  have "finite (Live ` dom E)" and "finite (\<Union>y \<in> dom S. Cleaning y ` cleaning_keys S y)"
    and "finite (Pending ` dom S)"
    using assms ck by auto
  then have "finite (Live ` dom E \<union> (\<Union>y \<in> dom S. Cleaning y ` cleaning_keys S y) \<union> Pending ` dom S)" by blast
  moreover have "charges E S t \<subseteq> Live ` dom E \<union> (\<Union>y \<in> dom S. Cleaning y ` cleaning_keys S y) \<union> Pending ` dom S"
    by (fastforce simp: charges_def live_charge_def)
  ultimately show ?thesis by (rule rev_finite_subset)
qed

text \<open>Tunnels that disappear or change anything but their owner charge nobody more.\<close>

definition same_owner :: "tunnel_session \<Rightarrow> tunnel_session \<Rightarrow> bool" where
  "same_owner e e' \<longleftrightarrow> ts_Token e = ts_Token e' \<and> ts_Session e = ts_Session e'"

definition shrinks :: "(tunnel_key \<rightharpoonup> tunnel_session) \<Rightarrow> (tunnel_key \<rightharpoonup> tunnel_session) \<Rightarrow> bool" where
  "shrinks E E' \<longleftrightarrow> (\<forall>k e'. E' k = Some e' \<longrightarrow> (\<exists>e. E k = Some e \<and> same_owner e e'))"

lemma charges_shrink: "shrinks E E' \<Longrightarrow> charges E' S t \<subseteq> charges E S t"
  by (rule charges_subsetI) (fastforce simp: charges_iff live_charge_def shrinks_def same_owner_def)+

lemma cleaning_keys_upd:
  "cleaning_keys (S(y \<mapsto> ss)) y' = (if y' = y then item_key ` set (ss_cleaning ss) else cleaning_keys S y')"
  by (simp add: cleaning_keys_def)

lemma cleaning_keys_same:
  "S y = Some ss \<Longrightarrow> ss_cleaning ss' = ss_cleaning ss \<Longrightarrow> cleaning_keys (S(y \<mapsto> ss')) = cleaning_keys S"
  by (rule ext) (simp add: cleaning_keys_def)

lemma charges_pend:
  assumes "S y = Some ss" and "ss_pending ss = None"
  shows "charges E (S(y \<mapsto> ss\<lparr>ss_pending := Some r\<rparr>)) t \<subseteq>
    (if t = ss_token ss then insert (Pending y) (charges E S t) else charges E S t)"
proof -
  have ck: "cleaning_keys (S(y \<mapsto> ss\<lparr>ss_pending := Some r\<rparr>)) = cleaning_keys S"
    using assms(1) by (rule cleaning_keys_same) simp
  show ?thesis
    by (rule charges_subsetI) (use assms in \<open>auto simp: charges_iff live_charge_def ck split: if_splits\<close>)
qed

lemma charges_unpend:
  assumes "S y = Some ss"
  shows "charges E (S(y \<mapsto> ss\<lparr>ss_pending := None\<rparr>)) t \<subseteq> charges E S t - {Pending y}"
proof -
  have ck: "cleaning_keys (S(y \<mapsto> ss\<lparr>ss_pending := None\<rparr>)) = cleaning_keys S"
    using assms(1) by (rule cleaning_keys_same) simp
  show ?thesis
    by (rule charges_subsetI) (use assms in \<open>auto simp: charges_iff live_charge_def ck split: if_splits\<close>)
qed

lemma charges_store:
  "charges (E(k \<mapsto> e)) S t \<subseteq> (if t = ts_Token e then insert (Live k) (charges E S t) else charges E S t)"
  by (rule charges_subsetI) (auto simp: charges_iff live_charge_def split: if_splits)

text \<open>Taking the list of a session's tunnels moves charges, it does not add any.\<close>

lemma charges_snapshot:
  assumes "S y = Some ss" and "ss_cleaning ss = []"
    and "\<And>k. k \<in> item_key ` set R \<longleftrightarrow> (\<exists>e. E k = Some e \<and> ts_Session e = Some y)"
    and "\<And>k e. E k = Some e \<Longrightarrow> ts_Session e = Some y \<Longrightarrow> ts_Token e = ss_token ss"
    and "finite (charges E S t)"
  shows "card (charges E (S(y \<mapsto> ss\<lparr>ss_ended := True, ss_cleaning := R\<rparr>)) t) \<le> card (charges E S t)"
proof -
  let ?S = "S(y \<mapsto> ss\<lparr>ss_ended := True, ss_cleaning := R\<rparr>)"
  let ?f = "\<lambda>c. case c of Live k \<Rightarrow> (if k \<in> item_key ` set R then Cleaning y k else Live k) | _ \<Rightarrow> c"
  have old: "cleaning_keys S y = {}" using assms(1,2) by (simp add: cleaning_keys_def)
  have new: "cleaning_keys ?S y' = (if y' = y then item_key ` set R else cleaning_keys S y')" for y'
    by (simp add: cleaning_keys_upd)
  have live: "live_charge E S t k" if "k \<in> item_key ` set R" "ss_token ss = t" for k
    using that assms(3) [of k] assms(4) [of k] old by (auto simp: live_charge_def)
  have "charges E ?S t \<subseteq> ?f ` charges E S t"
  proof (rule charges_subsetI)
    fix k
    assume "Live k \<in> charges E ?S t"
    then have "Live k \<in> charges E S t" "k \<notin> item_key ` set R"
      using assms(3) [of k] old by (auto simp: charges_iff live_charge_def new split: if_splits)
    then show "Live k \<in> ?f ` charges E S t" by (force intro: image_eqI [of _ _ "Live k"])
  next
    fix y' k
    assume c: "Cleaning y' k \<in> charges E ?S t"
    show "Cleaning y' k \<in> ?f ` charges E S t"
    proof (cases "y' = y")
      case True
      then have "k \<in> item_key ` set R" "ss_token ss = t" using c by (auto simp: charges_iff new)
      then show ?thesis using live [of k] True
        by (intro image_eqI [of _ _ "Live k"]) (auto simp: charges_iff)
    next
      case False
      then have "Cleaning y' k \<in> charges E S t" using c by (auto simp: charges_iff new)
      then show ?thesis by (force intro: image_eqI [of _ _ "Cleaning y' k"])
    qed
  next
    fix y'
    assume "Pending y' \<in> charges E ?S t"
    then have "Pending y' \<in> charges E S t" using assms(1) by (auto simp: charges_iff split: if_splits)
    then show "Pending y' \<in> ?f ` charges E S t" by (force intro: image_eqI [of _ _ "Pending y'"])
  qed
  then show ?thesis using card_mono [OF finite_imageI [OF assms(5)]] card_image_le [OF assms(5)] le_trans by blast
qed

lemma charges_clean:
  assumes "S y = Some ss" and "ss_cleaning ss = i # R" and "distinct (map item_key (i # R))"
  shows "charges (E(item_key i := None)) (S(y \<mapsto> ss\<lparr>ss_cleaning := R\<rparr>)) t \<subseteq> charges E S t - {Cleaning y (item_key i)}"
proof -
  let ?S = "S(y \<mapsto> ss\<lparr>ss_cleaning := R\<rparr>)"
  have new: "cleaning_keys ?S y' = (if y' = y then item_key ` set R else cleaning_keys S y')" for y'
    by (simp add: cleaning_keys_upd)
  have old: "cleaning_keys S y = insert (item_key i) (item_key ` set R)"
    using assms(1,2) by (simp add: cleaning_keys_def)
  have i: "item_key x \<noteq> item_key i" if "x \<in> set R" for x
  proof -
    have "item_key x \<in> item_key ` set R" using that by blast
    then show ?thesis using assms(3) by auto
  qed
  show ?thesis
    by (rule charges_subsetI)
       (use assms(1) i old in \<open>auto simp: charges_iff live_charge_def new split: if_splits\<close>)
qed

subsection \<open>The invariant\<close>

definition counted :: "('h, 'l) server \<Rightarrow> (nat \<rightharpoonup> session) \<Rightarrow> bool" where
  "counted s S \<longleftrightarrow> (\<forall>t u. used_by s t = Some u \<longrightarrow> int (card (charges (entry (sv_tunnelManager s)) S t)) \<le> u \<and>
     (\<forall>l. limit_of s t = Some l \<longrightarrow> u \<le> max 0 l))"

definition owned :: "tunnel_manager \<Rightarrow> (nat \<rightharpoonup> session) \<Rightarrow> bool" where
  "owned tm S \<longleftrightarrow> (\<forall>k e. entry tm k = Some e \<longrightarrow>
     (\<exists>y ss. ts_Session e = Some y \<and> S y = Some ss \<and> ss_token ss = ts_Token e))"

definition session_ok :: "(string \<rightharpoonup> int) \<Rightarrow> session \<Rightarrow> bool" where
  "session_ok used ss \<longleftrightarrow>
     (\<not> is_anon (ss_token ss) \<longrightarrow> used (ss_token ss) \<noteq> None) \<and>
     distinct (map item_key (ss_cleaning ss)) \<and>
     (\<forall>t \<in> set (ss_cleaning ss). ts_Type t = ''http'' \<or> ts_Type t = ''tcp'') \<and>
     (\<not> ss_ended ss \<longrightarrow> ss_cleaning ss = [])"

definition sessions_ok :: "('h, 'l) server \<Rightarrow> (nat \<rightharpoonup> session) \<Rightarrow> bool" where
  "sessions_ok s S \<longleftrightarrow> finite (dom S) \<and> (\<forall>y ss. S y = Some ss \<longrightarrow> session_ok (used_by s) ss)"

lemma session_ok_mono:
  "session_ok used ss \<Longrightarrow> (\<And>t. used t \<noteq> None \<Longrightarrow> used' t \<noteq> None) \<Longrightarrow> session_ok used' ss"
  unfolding session_ok_def by blast

lemma sessions_ok_mono:
  "sessions_ok s S \<Longrightarrow> (\<And>t. used_by s t \<noteq> None \<Longrightarrow> used_by s' t \<noteq> None) \<Longrightarrow> sessions_ok s' S"
  unfolding sessions_ok_def using session_ok_mono by metis

lemma sessions_ok_upd: "sessions_ok s S \<Longrightarrow> session_ok (used_by s) ss \<Longrightarrow> sessions_ok s (S(y \<mapsto> ss))"
  by (simp add: sessions_ok_def)

lemma sessions_okD: "sessions_ok s S \<Longrightarrow> S y = Some ss \<Longrightarrow> session_ok (used_by s) ss"
  by (simp add: sessions_ok_def)

definition world_inv :: "('h, 'l) world \<Rightarrow> bool" where
  "world_inv wd \<longleftrightarrow> tm_inv (sv_tunnelManager (wd_server wd)) \<and> owned (sv_tunnelManager (wd_server wd)) (wd_sessions wd) \<and>
     sessions_ok (wd_server wd) (wd_sessions wd) \<and> counted (wd_server wd) (wd_sessions wd)"

lemma finite_entry: "tm_inv tm \<Longrightarrow> finite (dom (entry tm))"
proof -
  assume "tm_inv tm"
  then have "finite (HTTPName ` dom (httpTunnels tm) \<union> TCPPort ` dom (tcpTunnels tm))"
    by (simp add: tm_inv_finite)
  moreover have "dom (entry tm) \<subseteq> HTTPName ` dom (httpTunnels tm) \<union> TCPPort ` dom (tcpTunnels tm)"
    by (force simp: entry_def split: tunnel_key.splits)
  ultimately show ?thesis by (rule rev_finite_subset)
qed

lemma world_finite: "world_inv wd \<Longrightarrow> finite (charges (entry (sv_tunnelManager (wd_server wd))) (wd_sessions wd) t)"
  by (intro finite_charges finite_entry) (simp_all add: world_inv_def sessions_ok_def)

text \<open>A change that charges nobody more and lowers no count keeps the counts right.\<close>

lemma counted_mono:
  assumes "counted s S" and "used_by s' = used_by s" and "limit_of s' = limit_of s"
    and "\<And>t. finite (charges (entry (sv_tunnelManager s)) S t)"
    and "\<And>t. used_by s t \<noteq> None \<Longrightarrow>
      charges (entry (sv_tunnelManager s')) S' t \<subseteq> charges (entry (sv_tunnelManager s)) S t"
  shows "counted s' S'"
  unfolding counted_def
proof (intro allI impI)
  fix t u
  assume "used_by s' t = Some u"
  then have u: "used_by s t = Some u" using assms(2) by simp
  then have "card (charges (entry (sv_tunnelManager s')) S' t) \<le> card (charges (entry (sv_tunnelManager s)) S t)"
    by (intro card_mono [OF assms(4)] assms(5)) simp
  moreover have "int (card (charges (entry (sv_tunnelManager s)) S t)) \<le> u" "\<forall>l. limit_of s t = Some l \<longrightarrow> u \<le> max 0 l"
    using assms(1) u unfolding counted_def by blast+
  ultimately show "int (card (charges (entry (sv_tunnelManager s')) S' t)) \<le> u \<and> (\<forall>l. limit_of s' t = Some l \<longrightarrow> u \<le> max 0 l)"
    using assms(3) by simp
qed

text \<open>A change that drops one charge of a credential may lower its count by one.\<close>

lemma counted_drop:
  assumes "counted s S" and "used_by s' = used_by (decrementTunnels tok s)" and "limit_of s' = limit_of s"
    and fin: "\<And>t. finite (charges (entry (sv_tunnelManager s)) S t)"
    and sub: "\<And>t. charges (entry (sv_tunnelManager s')) S' t \<subseteq> charges (entry (sv_tunnelManager s)) S t - {c}"
    and c: "c \<in> charges (entry (sv_tunnelManager s)) S tok"
  shows "counted s' S'"
  unfolding counted_def
proof (intro allI impI)
  fix t u'
  assume u': "used_by s' t = Some u'"
  let ?old = "charges (entry (sv_tunnelManager s)) S t" and ?new = "charges (entry (sv_tunnelManager s')) S' t"
  have le: "card ?new \<le> card (?old - {c})" by (rule card_mono) (use fin sub in auto)
  then have le': "card ?new \<le> card ?old" using card_Diff1_le [of ?old c] by linarith
  show "int (card ?new) \<le> u' \<and> (\<forall>l. limit_of s' t = Some l \<longrightarrow> u' \<le> max 0 l)"
  proof (cases "t = tok")
    case False
    then show ?thesis using u' assms(1-3) le' by (force simp: used_by_decrement counted_def)
  next
    case True
    then obtain u where u: "used_by s t = Some u" "u' = (if 0 < u then u - 1 else u)"
      using u' assms(2) by (auto simp: used_by_decrement)
    have "int (card ?old) \<le> u" and l: "\<forall>l. limit_of s t = Some l \<longrightarrow> u \<le> max 0 l"
      using assms(1) u(1) by (auto simp: counted_def)
    moreover have "card (?old - {c}) = card ?old - 1" "0 < card ?old"
      using c fin [of t] True by (auto simp: card_gt_0_iff)
    ultimately have "int (card ?new) \<le> u'" "u' \<le> u" using le u(2) by auto
    then show ?thesis using l assms(3) by fastforce
  qed
qed

subsection \<open>The pieces of a step\<close>

lemma entry_upd [simp]:
  "entry (tm\<lparr>httpTunnels := (httpTunnels tm)(n := v)\<rparr>) = (entry tm)(HTTPName n := v)"
  "entry (tm\<lparr>tcpTunnels := (tcpTunnels tm)(p := v)\<rparr>) = (entry tm)(TCPPort p := v)"
  "entry (tm\<lparr>tm_listening := l\<rparr>) = entry tm"
  by (auto simp: entry_def fun_eq_iff split: tunnel_key.split)

lemma entry_cong: "httpTunnels tm' = httpTunnels tm \<Longrightarrow> tcpTunnels tm' = tcpTunnels tm \<Longrightarrow> entry tm' = entry tm"
  by (rule ext) (simp add: entry_def split: tunnel_key.split)

lemma entry_Unregister:
  "entry (UnregisterHTTP n tm) = (entry tm)(HTTPName n := None)"
  "entry (UnregisterTCP p tm) = (entry tm)(TCPPort p := None)"
  by (auto simp: entry_def fun_eq_iff split: tunnel_key.split)

lemma same_owner_refl [simp]: "same_owner e e"
  by (simp add: same_owner_def)

lemma shrinks_refl [simp]: "shrinks E E"
  by (auto simp: shrinks_def)

lemma shrinks_trans: "shrinks E E' \<Longrightarrow> shrinks E' E'' \<Longrightarrow> shrinks E E''"
  unfolding shrinks_def same_owner_def by metis

lemma shrinks_parts:
  assumes "\<And>n e'. httpTunnels tm' n = Some e' \<Longrightarrow> \<exists>e. httpTunnels tm n = Some e \<and> same_owner e e'"
    and "\<And>p e'. tcpTunnels tm' p = Some e' \<Longrightarrow> \<exists>e. tcpTunnels tm p = Some e \<and> same_owner e e'"
  shows "shrinks (entry tm) (entry tm')"
  using assms by (auto simp: shrinks_def entry_def split: tunnel_key.split)

lemma shrinks_kill: "shrinks (entry tm) (entry (snd (KillTunnelByID oh ot i tm)))"
proof -
  obtain b tm' where k: "KillTunnelByID oh ot i tm = (b, tm')" by fastforce
  then have "shrinks (entry tm) (entry tm')"
    by (cases rule: KillTunnelByID_cases) (auto intro!: shrinks_parts split: if_splits)
  then show ?thesis using k by simp
qed

lemma shrinks_kill_each: "shrinks (entry tm) (entry (kill_each ords is tm))"
  by (induction ords "is" tm rule: kill_each.induct) (auto intro: shrinks_trans shrinks_kill)

lemma registry_event_ok:
  assumes "registry_event tm tm'"
  shows "shrinks (entry tm) (entry tm') \<and> (tm_inv tm \<longrightarrow> tm_inv tm')"
  using assms
proof cases
  case (ev_kill oh ot i)
  then show ?thesis by (simp add: shrinks_kill tm_inv_Kill)
next
  case (ev_expire oh ot ords ttl now)
  then show ?thesis by (simp add: AnonymousExpiry_def shrinks_kill_each tm_inv_kill_each)
next
  case (ev_reap now)
  have "shrinks (entry tm) (entry (reservationReaper now tm))"
    by (rule shrinks_parts) (auto simp: reservationReaper_def)
  then show ?thesis using ev_reap tm_inv_reaper by blast
next
  case (ev_tcp_bytes ident port n_in n_out)
  have "shrinks (entry tm) (entry (count_tcp_bytes ident port n_in n_out tm))"
    by (rule shrinks_parts) (auto simp: count_tcp_bytes_def same_owner_def split: option.splits if_splits)
  then show ?thesis using ev_tcp_bytes tm_inv_count_tcp by blast
next
  case (ev_http_bytes ident sub n_read)
  have "shrinks (entry tm) (entry (count_http_bytes ident sub n_read tm))"
    by (rule shrinks_parts) (auto simp: count_http_bytes_def same_owner_def split: option.splits if_splits)
  then show ?thesis using ev_http_bytes tm_inv_count_http by blast
qed

lemma shrinks_reserve: "shrinks (entry tm) (entry (ReserveHTTP n ttl now tm))"
  by (rule shrinks_parts) (auto simp: ReserveHTTP_def same_owner_def split: option.splits if_splits)

lemma shrinks_reserve_all: "shrinks (entry tm) (entry (reserve_all now R tm))"
  by (induction R arbitrary: tm) (auto intro: shrinks_trans shrinks_reserve)

lemma owned_shrink: "owned tm S \<Longrightarrow> shrinks (entry tm) (entry tm') \<Longrightarrow> owned tm' S"
  unfolding owned_def shrinks_def same_owner_def by metis

lemma world_inv_shrink:
  assumes "world_inv wd" and "shrinks (entry (sv_tunnelManager (wd_server wd))) (entry tm')" and "tm_inv tm'"
  shows "world_inv (wd\<lparr>wd_server := (wd_server wd)\<lparr>sv_tunnelManager := tm'\<rparr>\<rparr>)"
proof -
  have "counted ((wd_server wd)\<lparr>sv_tunnelManager := tm'\<rparr>) (wd_sessions wd)"
    by (rule counted_mono [of "wd_server wd" "wd_sessions wd"])
       (use assms world_finite [OF assms(1)] charges_shrink in \<open>auto simp: world_inv_def\<close>)
  then show ?thesis using assms owned_shrink by (auto simp: world_inv_def sessions_ok_def)
qed

text \<open>What the keys' operations do to the counts: nothing, or they add a key that counts nothing.\<close>

definition counts_kept :: "key_store \<Rightarrow> key_store \<Rightarrow> bool" where
  "counts_kept ks ks' \<longleftrightarrow> (key_used ks' = key_used ks \<and> key_limit ks' = key_limit ks) \<or>
     (\<exists>i l. IsAPIKey i \<and> key_used ks i = None \<and> key_used ks' = (key_used ks)(i \<mapsto> 0) \<and> key_limit ks' = (key_limit ks)(i \<mapsto> l))"

lemma counts_kept_refl [simp]: "counts_kept ks ks"
  by (simp add: counts_kept_def)

lemma counts_kept_keys:
  "ks_keys ks' = (ks_keys ks)(i := map_option f (ks_keys ks i)) \<Longrightarrow>
     (\<And>k. ak_tunnelCount (f k) = ak_tunnelCount k \<and> ak_MaxTunnels (f k) = ak_MaxTunnels k) \<Longrightarrow> counts_kept ks ks'"
  by (auto simp: counts_kept_def key_used_def key_limit_def fun_eq_iff option.map_comp comp_def)

lemma counts_kept_save:
  assumes "\<And>k. ak_tunnelCount (f k) = ak_tunnelCount k \<and> ak_MaxTunnels (f k) = ak_MaxTunnels k"
  shows "counts_kept ks (snd (saveLocked J w (update_key i f ks)))"
  by (rule counts_kept_keys [of _ _ i f]) (simp_all add: assms)

lemma CreateKey_counts_kept:
  assumes "ks_keys ks (GenerateAPIKey rnd) = None"
  shows "counts_kept ks (snd (CreateKey J ord rnd now w name subs n ks))"
proof -
  let ?i = "GenerateAPIKey rnd"
  let ?k = "\<lparr>ak_Name = name, ak_Subdomains = subs, ak_MaxTunnels = (if n \<le> 0 then 10 else n),
    ak_CreatedAt = now, ak_Active = True, ak_tunnelCount = 0\<rparr>"
  let ?ks = "ks\<lparr>ks_keys := (ks_keys ks)(?i \<mapsto> ?k)\<rparr>"
  obtain e ks2 where s: "saveLocked J w ?ks = (e, ks2)" by fastforce
  have k2: "ks_keys ks2 = (ks_keys ks)(?i \<mapsto> ?k)" using saveLocked_keys(1) [of J w ?ks] s by simp
  have "key_used ks2 = (key_used ks)(?i \<mapsto> 0)" "key_limit ks2 = (key_limit ks)(?i \<mapsto> (if n \<le> 0 then 10 else n))"
    by (auto simp: key_used_def key_limit_def k2 fun_eq_iff)
  moreover have "key_used ks ?i = None" using assms by (simp add: key_used_def)
  ultimately have ok: "counts_kept ks ks2" unfolding counts_kept_def using IsAPIKey_Generate by blast
  have "ks_keys (ks2\<lparr>ks_keys := (ks_keys ks2)(?i := None)\<rparr>) = ks_keys ks" using assms by (auto simp: k2 fun_eq_iff)
  then have err: "counts_kept ks (ks2\<lparr>ks_keys := (ks_keys ks2)(?i := None)\<rparr>)"
    by (simp add: counts_kept_def key_used_def key_limit_def fun_eq_iff)
  show ?thesis using ok err s by (auto simp: CreateKey_def Let_def split: option.splits)
qed

lemma key_event_counts: "key_event J ks ks' \<Longrightarrow> counts_kept ks ks'"
proof (induction rule: key_event.induct)
  case (ev_create ks rnd ord now w name subs n)
  then show ?case by (rule CreateKey_counts_kept)
next
  case (ev_revoke ks ord w i)
  then show ?case by (auto simp: RevokeKey_def intro!: counts_kept_save split: option.split)
next
  case (ev_claim ks ord w i sub)
  then show ?case by (auto simp: AddSubdomain_def Let_def intro!: counts_kept_save split: option.split)
next
  case (ev_release ks w i sub)
  then show ?case by (auto simp: RemoveSubdomain_def intro!: counts_kept_save split: option.split)
qed

lemma used_by_keys:
  assumes "counts_kept (sv_keyStore s) ks'"
  shows "(used_by (s\<lparr>sv_keyStore := ks'\<rparr>) = used_by s \<and> limit_of (s\<lparr>sv_keyStore := ks'\<rparr>) = limit_of s) \<or>
    (\<exists>i l. \<not> is_anon i \<and> used_by s i = None \<and> used_by (s\<lparr>sv_keyStore := ks'\<rparr>) = (used_by s)(i \<mapsto> 0) \<and>
       limit_of (s\<lparr>sv_keyStore := ks'\<rparr>) = (limit_of s)(i \<mapsto> l))"
  using assms unfolding counts_kept_def
proof (elim disjE exE conjE)
  assume "key_used ks' = key_used (sv_keyStore s)" "key_limit ks' = key_limit (sv_keyStore s)"
  then show ?thesis by (simp add: used_by_def limit_of_def fun_eq_iff)
next
  fix i l
  assume i: "IsAPIKey i" "key_used (sv_keyStore s) i = None" "key_used ks' = (key_used (sv_keyStore s))(i \<mapsto> 0)"
    "key_limit ks' = (key_limit (sv_keyStore s))(i \<mapsto> l)"
  moreover have "\<not> is_anon i" using i(1) anon_not_key by blast
  ultimately have "used_by s i = None" "used_by (s\<lparr>sv_keyStore := ks'\<rparr>) = (used_by s)(i \<mapsto> 0)"
      "limit_of (s\<lparr>sv_keyStore := ks'\<rparr>) = (limit_of s)(i \<mapsto> l)"
    by (auto simp: used_by_def limit_of_def fun_eq_iff)
  then show ?thesis using \<open>\<not> is_anon i\<close> by blast
qed

text \<open>A credential nobody counts for is charged nothing.\<close>

lemma no_charges:
  assumes "owned tm S" and "sessions_ok s S" and "\<not> is_anon t" and "used_by s t = None"
  shows "charges (entry tm) S t = {}"
proof -
  have none: "ss_token ss \<noteq> t" if "S y = Some ss" for y ss
    using sessions_okD [OF assms(2) that] assms(3,4) unfolding session_ok_def by metis
  have no_entry: "ts_Token e \<noteq> t" if "entry tm k = Some e" for k e
    using that none assms(1) unfolding owned_def by metis
  have "charges (entry tm) S t \<subseteq> {}"
    by (rule charges_subsetI) (use none no_entry in \<open>auto simp: charges_iff live_charge_def\<close>)
  then show ?thesis by simp
qed

lemma world_inv_keys:
  assumes "world_inv wd" and "counts_kept (sv_keyStore (wd_server wd)) ks'"
  shows "world_inv (wd\<lparr>wd_server := (wd_server wd)\<lparr>sv_keyStore := ks'\<rparr>\<rparr>)"
proof -
  let ?s = "wd_server wd" and ?S = "wd_sessions wd"
  let ?s' = "?s\<lparr>sv_keyStore := ks'\<rparr>"
  have inv: "owned (sv_tunnelManager ?s) ?S" "sessions_ok ?s ?S" "counted ?s ?S" using assms(1) by (auto simp: world_inv_def)
  have "sessions_ok ?s' ?S \<and> counted ?s' ?S"
    using used_by_keys [OF assms(2)]
  proof (elim disjE exE conjE)
    assume "used_by ?s' = used_by ?s" "limit_of ?s' = limit_of ?s"
    then show ?thesis using inv by (simp add: sessions_ok_def counted_def)
  next
    fix i l
    assume i: "\<not> is_anon i" "used_by ?s i = None" "used_by ?s' = (used_by ?s)(i \<mapsto> 0)" "limit_of ?s' = (limit_of ?s)(i \<mapsto> l)"
    have "charges (entry (sv_tunnelManager ?s)) ?S i = {}" by (rule no_charges [OF inv(1,2) i(1,2)])
    then have "counted ?s' ?S" using inv(3) i by (auto simp: counted_def)
    moreover have "sessions_ok ?s' ?S" using inv(2) by (rule sessions_ok_mono) (simp add: i(3))
    ultimately show ?thesis by blast
  qed
  then show ?thesis using assms(1) by (simp add: world_inv_def)
qed

subsection \<open>Connections\<close>

lemma used_by_ip [simp]:
  "used_by (s\<lparr>sv_ipLimiter := il\<rparr>) = used_by s" "limit_of (s\<lparr>sv_ipLimiter := il\<rparr>) = limit_of s"
  by (simp_all add: used_by_def limit_of_def fun_eq_iff)

lemma world_inv_ip: "world_inv wd \<Longrightarrow> world_inv (wd\<lparr>wd_server := (wd_server wd)\<lparr>sv_ipLimiter := il\<rparr>\<rparr>)"
  by (simp add: world_inv_def sessions_ok_def counted_def)

lemma token_valid_known: "token_valid B s t \<Longrightarrow> \<not> is_anon t \<Longrightarrow> used_by s t \<noteq> None"
  by (auto simp: token_valid_def used_by_def key_Validate_def token_Validate_def key_used_def token_used_def
      split: if_splits option.splits)

lemma authenticate_known:
  "authenticate B un_auth c raw s = Session t \<Longrightarrow> \<not> is_anon t \<Longrightarrow> used_by s t \<noteq> None"
  using token_valid_known [of B s t]
  by (auto simp: authenticate_def Let_def split: option.splits if_splits)

lemma handleConnection_session:
  assumes "handleConnection B L J un_auth un_reg ord rnd w c s = (Session t, s')"
  shows "\<exists>il. s' = s\<lparr>sv_ipLimiter := il\<rparr> \<and> (\<not> is_anon t \<longrightarrow> used_by s t \<noteq> None)"
proof -
  obtain a il where il: "ip_Allow L (extractIP (cn_addr c)) (cn_now c) (sv_ipLimiter s) = (a, il)" by fastforce
  let ?s = "s\<lparr>sv_ipLimiter := il\<rparr>"
  obtain raw where "s' = ?s" "authenticate B un_auth c raw ?s = Session t"
    using assms il by (auto simp: handleConnection_def Let_def split: if_splits option.splits prod.splits)
  then show ?thesis using authenticate_known [of B un_auth c raw ?s t] by auto
qed

lemma handleRegister_keys:
  assumes "handleRegister J ord rnd now w p s = (r, s')"
    and "ks_keys (sv_keyStore s) (GenerateAPIKey rnd) = None"
  shows "\<exists>ks'. s' = s\<lparr>sv_keyStore := ks'\<rparr> \<and> counts_kept (sv_keyStore s) ks'"
proof (cases "sc_AllowRegistration (sv_cfg s) = Some False \<or> p = None")
  case True
  then have "s' = s\<lparr>sv_keyStore := sv_keyStore s\<rparr>" using assms(1) by (auto simp: handleRegister_def split: option.splits if_splits)
  then show ?thesis using counts_kept_refl by blast
next
  case False
  then obtain msg where msg: "p = Some msg" by blast
  let ?subs = "if rm_Subdomain msg \<noteq> [] then [rm_Subdomain msg] else []"
  obtain q ks' where q: "CreateKey J ord rnd now w (rm_Name msg) ?subs 10 (sv_keyStore s) = (q, ks')" by fastforce
  have "s' = s\<lparr>sv_keyStore := ks'\<rparr>" using assms(1) False msg q by (auto simp: handleRegister_def Let_def split: sum.splits)
  moreover have "counts_kept (sv_keyStore s) ks'"
    using CreateKey_counts_kept [OF assms(2), of J ord now w "rm_Name msg" ?subs 10] q by simp
  ultimately show ?thesis by blast
qed

lemma handleConnection_other:
  assumes "handleConnection B L J un_auth un_reg ord rnd w c s = (r, s')"
    and "ks_keys (sv_keyStore s) (GenerateAPIKey rnd) = None"
  shows "\<exists>il ks'. s' = s\<lparr>sv_ipLimiter := il, sv_keyStore := ks'\<rparr> \<and> counts_kept (sv_keyStore s) ks'"
proof -
  obtain a il where il: "ip_Allow L (extractIP (cn_addr c)) (cn_now c) (sv_ipLimiter s) = (a, il)" by fastforce
  let ?s = "s\<lparr>sv_ipLimiter := il\<rparr>"
  have "s' = ?s \<or> (\<exists>p r'. handleRegister J ord rnd (cn_now c) w p ?s = (r', s'))"
    using assms(1) il by (auto simp: handleConnection_def Let_def split: if_splits option.splits prod.splits)
  then show ?thesis
  proof (elim disjE exE)
    assume "s' = ?s"
    then have "s' = s\<lparr>sv_ipLimiter := il, sv_keyStore := sv_keyStore s\<rparr>" by simp
    then show ?thesis using counts_kept_refl by blast
  next
    fix p r'
    assume "handleRegister J ord rnd (cn_now c) w p ?s = (r', s')"
    from handleRegister_keys [OF this] assms(2) show ?thesis by auto
  qed
qed

lemma world_inv_connect:
  assumes "world_inv wd" and "wd_sessions wd y = None"
    and "\<not> is_anon t \<longrightarrow> used_by (wd_server wd) t \<noteq> None"
  shows "world_inv (wd\<lparr>wd_sessions := (wd_sessions wd)(y \<mapsto> fresh_session t)\<rparr>)"
proof -
  let ?S = "wd_sessions wd"
  let ?S' = "?S(y \<mapsto> fresh_session t)"
  have ck: "cleaning_keys ?S' = cleaning_keys ?S"
    using assms(2) by (rule_tac ext) (simp add: cleaning_keys_def fresh_session_def)
  have sub: "charges E ?S' t' \<subseteq> charges E ?S t'" for E t'
    by (rule charges_subsetI) (auto simp: charges_iff live_charge_def ck fresh_session_def cleaning_keys_def assms(2) split: if_splits)
  have "counted (wd_server wd) ?S" using assms(1) by (simp add: world_inv_def)
  then have "counted (wd_server wd) ?S'"
    by (rule counted_mono [OF _ refl refl world_finite [OF assms(1)] sub])
  moreover have "owned (sv_tunnelManager (wd_server wd)) ?S'"
    using assms(1,2) unfolding world_inv_def owned_def by (metis fun_upd_apply option.distinct(1))
  moreover have "sessions_ok (wd_server wd) ?S'"
    using assms by (intro sessions_ok_upd) (simp_all add: world_inv_def session_ok_def fresh_session_def)
  ultimately show ?thesis using assms(1) by (simp add: world_inv_def)
qed

subsection \<open>Requests\<close>

lemma counted_add:
  assumes "counted s S" and "used_by s tok = Some u" and "used_by s' = (used_by s)(tok \<mapsto> u + 1)"
    and "limit_of s' = limit_of s" and "limit_of s tok = Some l" and "u < l"
    and fin: "\<And>t. finite (charges (entry (sv_tunnelManager s)) S t)"
    and sub: "\<And>t. charges (entry (sv_tunnelManager s')) S' t \<subseteq>
      (if t = tok then insert c (charges (entry (sv_tunnelManager s)) S t) else charges (entry (sv_tunnelManager s)) S t)"
  shows "counted s' S'"
  unfolding counted_def
proof (intro allI impI)
  fix t u'
  assume u': "used_by s' t = Some u'"
  let ?old = "charges (entry (sv_tunnelManager s)) S t" and ?new = "charges (entry (sv_tunnelManager s')) S' t"
  have *: "int (card ?old) \<le> v \<and> (\<forall>l. limit_of s t = Some l \<longrightarrow> v \<le> max 0 l)" if "used_by s t = Some v" for v
    using that assms(1) by (simp add: counted_def)
  show "int (card ?new) \<le> u' \<and> (\<forall>l. limit_of s' t = Some l \<longrightarrow> u' \<le> max 0 l)"
  proof (cases "t = tok")
    case True
    have "card ?new \<le> card (insert c ?old)" by (rule card_mono) (use fin sub [of t] True in auto)
    also have "\<dots> \<le> Suc (card ?old)" using fin by (simp add: card_insert_if)
    finally show ?thesis using * [of u] u' assms(2-6) True by auto
  next
    case False
    have "card ?new \<le> card ?old" by (rule card_mono) (use fin sub [of t] False in auto)
    then show ?thesis using * [of u'] u' assms(3,4) False by auto
  qed
qed

lemma counted_swap:
  assumes "counted s S" and "used_by s' = used_by s" and "limit_of s' = limit_of s"
    and fin: "\<And>t. finite (charges (entry (sv_tunnelManager s)) S t)"
    and c: "c \<in> charges (entry (sv_tunnelManager s)) S tok"
    and sub: "\<And>t. charges (entry (sv_tunnelManager s')) S' t \<subseteq>
      (if t = tok then insert d (charges (entry (sv_tunnelManager s)) S t - {c}) else charges (entry (sv_tunnelManager s)) S t)"
  shows "counted s' S'"
  unfolding counted_def
proof (intro allI impI)
  fix t u
  assume u: "used_by s' t = Some u"
  let ?old = "charges (entry (sv_tunnelManager s)) S t" and ?new = "charges (entry (sv_tunnelManager s')) S' t"
  have "card ?new \<le> card ?old"
  proof (cases "t = tok")
    case True
    have "card ?new \<le> card (insert d (?old - {c}))" by (rule card_mono) (use fin sub [of t] True in auto)
    also have "\<dots> \<le> Suc (card (?old - {c}))" using fin by (simp add: card_insert_if)
    also have "\<dots> = card ?old" by (rule card_Suc_Diff1 [OF fin]) (use c True in simp)
    finally show ?thesis .
  next
    case False
    then show ?thesis using sub [of t] fin by (simp add: card_mono)
  qed
  then show "int (card ?new) \<le> u \<and> (\<forall>l. limit_of s' t = Some l \<longrightarrow> u \<le> max 0 l)"
    using assms(1-3) u unfolding counted_def by (metis (no_types, lifting) of_nat_le_iff order_trans)
qed

lemma owned_same_token:
  assumes "owned tm S" and "S y = Some ss" and "ss_token ss' = ss_token ss"
  shows "owned tm (S(y \<mapsto> ss'))"
  unfolding owned_def
proof (intro allI impI)
  fix k e
  assume "entry tm k = Some e"
  then obtain y' ss0 where "ts_Session e = Some y'" "S y' = Some ss0" "ss_token ss0 = ts_Token e"
    using assms(1) unfolding owned_def by blast
  then show "\<exists>y'' ss''. ts_Session e = Some y'' \<and> (S(y \<mapsto> ss')) y'' = Some ss'' \<and> ss_token ss'' = ts_Token e"
    using assms(2,3) by (cases "y' = y") auto
qed

lemma world_inv_admit:
  assumes inv: "world_inv wd" and y: "wd_sessions wd y = Some ss" and p: "ss_pending ss = None"
    and a: "admitTunnel L oh ot now (ss_token ss) req (wd_server wd) = (None, s')"
  shows "world_inv (wd\<lparr>wd_server := s', wd_sessions := (wd_sessions wd)(y \<mapsto> ss\<lparr>ss_pending := Some req\<rparr>)\<rparr>)"
proof -
  let ?s = "wd_server wd" and ?S = "wd_sessions wd" and ?t = "ss_token ss"
  let ?S' = "?S(y \<mapsto> ss\<lparr>ss_pending := Some req\<rparr>)"
  note ok = admitTunnel_ok [OF a]
  have tm: "sv_tunnelManager s' = sv_tunnelManager ?s" and lim: "limit_of s' = limit_of ?s" using ok by auto
  have I: "counted ?s ?S" "owned (sv_tunnelManager ?s) ?S" "sessions_ok ?s ?S" "tm_inv (sv_tunnelManager ?s)"
    using inv by (auto simp: world_inv_def)
  note sub = charges_pend [where S = ?S and y = y and ss = ss and r = req, OF y p]
  have dom: "used_by s' t \<noteq> None" if "used_by ?s t \<noteq> None" for t
    using ok that by (auto split: if_splits)
  have "counted s' ?S'"
  proof (cases "is_anon ?t")
    case True
    then have us: "used_by s' = used_by ?s" using ok by simp
    have anon: "used_by ?s ?t = None" using True by (simp add: used_by_def)
    show ?thesis
    proof (rule counted_mono [OF I(1) us lim world_finite [OF inv]])
      fix t
      assume "used_by ?s t \<noteq> None"
      then have "t \<noteq> ?t" using anon by auto
      then show "charges (entry (sv_tunnelManager s')) ?S' t \<subseteq> charges (entry (sv_tunnelManager ?s)) ?S t"
        using sub [of "entry (sv_tunnelManager ?s)" t] unfolding tm by (simp only: if_False)
    qed
  next
    case False
    then obtain u l where u: "used_by ?s ?t = Some u" "limit_of ?s ?t = Some l" "u < l" "used_by s' = (used_by ?s)(?t \<mapsto> u + 1)"
      using ok by auto
    show ?thesis
      by (rule counted_add [OF I(1) u(1,4) lim u(2,3) world_finite [OF inv], where c = "Pending y"])
         (unfold tm, rule sub)
  qed
  moreover have "owned (sv_tunnelManager s') ?S'" unfolding tm by (rule owned_same_token [OF I(2) y]) simp
  moreover have "sessions_ok s' ?S'"
    using sessions_ok_mono [OF I(3) dom] sessions_okD [OF sessions_ok_mono [OF I(3) dom] y]
    by (intro sessions_ok_upd) (simp_all add: session_ok_def)
  ultimately show ?thesis using I(4) tm by (simp add: world_inv_def)
qed

lemma world_inv_open_fails:
  assumes inv: "world_inv wd" and y: "wd_sessions wd y = Some ss" and p: "ss_pending ss = Some req"
  shows "world_inv (wd\<lparr>wd_server := decrementTunnels (ss_token ss) (wd_server wd),
    wd_sessions := (wd_sessions wd)(y \<mapsto> ss\<lparr>ss_pending := None\<rparr>)\<rparr>)"
proof -
  let ?s = "wd_server wd" and ?S = "wd_sessions wd" and ?t = "ss_token ss"
  let ?S' = "?S(y \<mapsto> ss\<lparr>ss_pending := None\<rparr>)" and ?s' = "decrementTunnels ?t ?s"
  have I: "counted ?s ?S" "owned (sv_tunnelManager ?s) ?S" "sessions_ok ?s ?S" "tm_inv (sv_tunnelManager ?s)"
    using inv by (auto simp: world_inv_def)
  have "Pending y \<in> charges (entry (sv_tunnelManager ?s)) ?S ?t" using y p by (simp add: charges_iff)
  then have "counted ?s' ?S'"
    using charges_unpend [where S = ?S and y = y and ss = ss, OF y]
    by (intro counted_drop [OF I(1) refl _ world_finite [OF inv], where c = "Pending y"]) simp_all
  moreover have "owned (sv_tunnelManager ?s) ?S'" by (rule owned_same_token [OF I(2) y]) simp
  moreover have so: "sessions_ok ?s' ?S" using I(3) by (rule sessions_ok_mono) (auto simp: used_by_decrement)
  then have "sessions_ok ?s' ?S'" using sessions_okD [OF so y]
    by (intro sessions_ok_upd) (simp_all add: session_ok_def)
  ultimately show ?thesis using I(4) by (simp add: world_inv_def)
qed

lemma subset_swap:
  "A \<subseteq> (if b then insert d B else B) \<Longrightarrow> B \<subseteq> C - {c} \<Longrightarrow> A \<subseteq> (if b then insert d (C - {c}) else C)"
  by (auto split: if_splits)

lemma world_inv_open_ok:
  assumes inv: "world_inv wd" and y: "wd_sessions wd y = Some ss" and p: "ss_pending ss = Some req"
    and E: "entry tm' = (entry (sv_tunnelManager (wd_server wd)))(k \<mapsto> e)" and tm': "tm_inv tm'"
    and e: "ts_Token e = ss_token ss" "ts_Session e = Some y"
  shows "world_inv (wd\<lparr>wd_server := (wd_server wd)\<lparr>sv_tunnelManager := tm'\<rparr>,
    wd_sessions := (wd_sessions wd)(y \<mapsto> ss\<lparr>ss_pending := None\<rparr>)\<rparr>)"
proof -
  let ?s = "wd_server wd" and ?S = "wd_sessions wd" and ?t = "ss_token ss"
  let ?S' = "?S(y \<mapsto> ss\<lparr>ss_pending := None\<rparr>)" and ?s' = "(wd_server wd)\<lparr>sv_tunnelManager := tm'\<rparr>"
  let ?E = "entry (sv_tunnelManager ?s)"
  have I: "counted ?s ?S" "owned (sv_tunnelManager ?s) ?S" "sessions_ok ?s ?S"
    using inv by (auto simp: world_inv_def)
  have c: "Pending y \<in> charges ?E ?S ?t" using y p by (simp add: charges_iff)
  have sub: "charges (entry tm') ?S' t \<subseteq>
      (if t = ?t then insert (Live k) (charges ?E ?S t - {Pending y}) else charges ?E ?S t)" for t
    unfolding E by (rule subset_swap [OF charges_store [of ?E k e ?S' t, unfolded e(1)]
        charges_unpend [where S = ?S and y = y and ss = ss and E = ?E and t = t, OF y]])
  have "counted ?s' ?S'"
    by (rule counted_swap [OF I(1) _ _ world_finite [OF inv] c, where d = "Live k"]) (simp_all add: sub)
  moreover have "owned (sv_tunnelManager ?s) ?S'" by (rule owned_same_token [OF I(2) y]) simp
  then have "owned tm' ?S'" unfolding owned_def E using e by auto
  moreover have so: "sessions_ok ?s' ?S" using I(3) by (rule sessions_ok_mono) simp
  then have "sessions_ok ?s' ?S'" using sessions_okD [OF so y]
    by (intro sessions_ok_upd) (simp_all add: session_ok_def)
  ultimately show ?thesis using tm' by (simp add: world_inv_def)
qed

lemma world_inv_open:
  assumes inv: "world_inv wd" and y: "wd_sessions wd y = Some ss" and p: "ss_pending ss = Some req"
    and q: "quiet att" and o: "openTunnel rnd rnds att now y (ss_token ss) req (wd_server wd) = (r, s')"
  shows "world_inv (wd\<lparr>wd_server := s', wd_sessions := (wd_sessions wd)(y \<mapsto> ss\<lparr>ss_pending := None\<rparr>)\<rparr>)"
  using o q
proof (cases rule: openTunnel_cases)
  case (fails e)
  then show ?thesis using world_inv_open_fails [OF inv y p] by simp
next
  case (http sub)
  let ?t = "(new_session y rnd (ss_token ss) req)\<lparr>ts_Subdomain := sub\<rparr>"
  have tm: "tm_inv (sv_tunnelManager (wd_server wd))" using inv by (simp add: world_inv_def)
  have "tm_inv (sv_tunnelManager s')"
    using tm_inv_RegisterHTTP [OF tm, of ?t sub now] http(1,4) by (simp add: new_session_def TunnelHTTP_def)
  moreover have "entry (sv_tunnelManager s') =
      (entry (sv_tunnelManager (wd_server wd)))(HTTPName sub \<mapsto> ?t\<lparr>ts_CreatedAt := now\<rparr>)"
    using RegisterHTTP_stores [OF http(4)] by simp
  ultimately show ?thesis
    using world_inv_open_ok [OF inv y p, of "sv_tunnelManager s'" "HTTPName sub" "?t\<lparr>ts_CreatedAt := now\<rparr>"] http(5)
    by (simp add: new_session_def)
next
  case (tcp port)
  let ?t = "new_session y rnd (ss_token ss) req"
  let ?e = "?t\<lparr>ts_Port := port, ts_Listener := Some port, ts_CreatedAt := now\<rparr>"
  have tm: "tm_inv (sv_tunnelManager (wd_server wd))" using inv by (simp add: world_inv_def)
  have "tm_inv (sv_tunnelManager s')"
    using tm_inv_RegisterTCP [OF quiet_env_ok [OF q] tm, of ?t now] tcp(1,3) by (simp add: new_session_def TunnelTCP_def)
  moreover have "entry (sv_tunnelManager s') = (entry (sv_tunnelManager (wd_server wd)))(TCPPort port \<mapsto> ?e)"
    using register_tcp_stores [OF q tcp(3) [unfolded RegisterTCP_def]]
    by (auto simp: entry_def fun_eq_iff split: tunnel_key.split)
  ultimately show ?thesis
    using world_inv_open_ok [OF inv y p, of "sv_tunnelManager s'" "TCPPort port" ?e] tcp(4)
    by (simp add: new_session_def)
qed

subsection \<open>The end of a session\<close>

lemma item_key_entry: "tm_inv tm \<Longrightarrow> entry tm k = Some t \<Longrightarrow> item_key t = k \<and> (ts_Type t = ''http'' \<or> ts_Type t = ''tcp'')"
  by (cases k) (auto simp: entry_def item_key_def http_entry_ok_def tcp_entry_ok_def
      dest: tm_inv_http tm_inv_tcp)

lemma ex_entry: "(\<exists>k. entry tm k = Some t) \<longleftrightarrow> (\<exists>n. httpTunnels tm n = Some t) \<or> (\<exists>p. tcpTunnels tm p = Some t)"
proof -
  have "entry tm (HTTPName n) = httpTunnels tm n" "entry tm (TCPPort p) = tcpTunnels tm p" for n p
    by (simp_all add: entry_def)
  then show ?thesis by (metis tunnel_key.exhaust)
qed

lemma SessionTunnels_keys:
  assumes "tm_inv tm" and "covers oh (httpTunnels tm)" and "covers ot (tcpTunnels tm)"
  shows "k \<in> item_key ` set (SessionTunnels oh ot y tm) \<longleftrightarrow> (\<exists>e. entry tm k = Some e \<and> ts_Session e = Some y)"
    and "t \<in> set (SessionTunnels oh ot y tm) \<Longrightarrow> ts_Type t = ''http'' \<or> ts_Type t = ''tcp''"
proof -
  have mem: "t \<in> set (SessionTunnels oh ot y tm) \<longleftrightarrow> ts_Session t = Some y \<and> (\<exists>k. entry tm k = Some t)" for t
    unfolding set_SessionTunnels [OF assms(2,3)] ex_entry by (auto simp: ran_def)
  show "k \<in> item_key ` set (SessionTunnels oh ot y tm) \<longleftrightarrow> (\<exists>e. entry tm k = Some e \<and> ts_Session e = Some y)"
    using mem item_key_entry [OF assms(1)] by (auto simp: image_iff)
  show "ts_Type t = ''http'' \<or> ts_Type t = ''tcp''" if "t \<in> set (SessionTunnels oh ot y tm)"
    using that mem item_key_entry [OF assms(1)] by blast
qed

lemma distinct_range_vals:
  "distinct ord \<Longrightarrow> (\<And>k v. m k = Some v \<Longrightarrow> f v = g k) \<Longrightarrow> inj g \<Longrightarrow> distinct (map f (filter P (range_vals ord m)))"
proof (induction ord)
  case (Cons k ord)
  have mem: "v \<in> set (range_vals ord m) \<Longrightarrow> \<exists>k' \<in> set ord. m k' = Some v" for v
    by (auto simp: range_vals_def List.map_filter_def)
  show ?case using Cons mem by (auto simp: range_vals_Cons inj_def split: option.split) (metis+)
qed simp

lemma SessionTunnels_distinct:
  assumes "tm_inv tm" and "covers oh (httpTunnels tm)" and "covers ot (tcpTunnels tm)"
  shows "distinct (map item_key (SessionTunnels oh ot y tm))"
proof -
  have h: "httpTunnels tm n = Some t \<Longrightarrow> item_key t = HTTPName n" for n t
    using item_key_entry [OF assms(1), of "HTTPName n" t] by (simp add: entry_def)
  have c: "tcpTunnels tm p = Some t \<Longrightarrow> item_key t = TCPPort p" for p t
    using item_key_entry [OF assms(1), of "TCPPort p" t] by (simp add: entry_def)
  have "distinct (map item_key (filter (\<lambda>s. ts_Session s = Some y) (range_vals oh (httpTunnels tm))))"
    by (rule distinct_range_vals [where g = HTTPName]) (use assms(2) h in \<open>auto simp: covers_def inj_def\<close>)
  moreover have "distinct (map item_key (filter (\<lambda>s. ts_Session s = Some y) (range_vals ot (tcpTunnels tm))))"
    by (rule distinct_range_vals [where g = TCPPort]) (use assms(3) c in \<open>auto simp: covers_def inj_def\<close>)
  moreover have "item_key t \<noteq> item_key t'"
    if "t \<in> ran (httpTunnels tm)" "t' \<in> ran (tcpTunnels tm)" for t t'
    using that h c by (force simp: ran_def)
  ultimately show ?thesis
    using set_range_vals [OF assms(2)] set_range_vals [OF assms(3)] by (fastforce simp: SessionTunnels_def)
qed

lemma world_inv_end:
  assumes inv: "world_inv wd" and y: "wd_sessions wd y = Some ss" and n: "\<not> ss_ended ss"
    and c: "covers oh (httpTunnels (sv_tunnelManager (wd_server wd)))" "covers ot (tcpTunnels (sv_tunnelManager (wd_server wd)))"
  shows "world_inv (wd\<lparr>wd_sessions := (wd_sessions wd)(y \<mapsto>
    ss\<lparr>ss_ended := True, ss_cleaning := SessionTunnels oh ot y (sv_tunnelManager (wd_server wd))\<rparr>)\<rparr>)"
proof -
  let ?s = "wd_server wd" and ?S = "wd_sessions wd"
  let ?tm = "sv_tunnelManager ?s"
  let ?R = "SessionTunnels oh ot y ?tm"
  let ?S' = "?S(y \<mapsto> ss\<lparr>ss_ended := True, ss_cleaning := ?R\<rparr>)"
  have I: "counted ?s ?S" "owned ?tm ?S" "sessions_ok ?s ?S" "tm_inv ?tm" using inv by (auto simp: world_inv_def)
  have ok: "session_ok (used_by ?s) ss" by (rule sessions_okD [OF I(3) y])
  then have nil: "ss_cleaning ss = []" using n by (simp add: session_ok_def)
  have tok: "ts_Token e = ss_token ss" if "entry ?tm k = Some e" "ts_Session e = Some y" for k e
    using that I(2) y unfolding owned_def by (metis option.inject)
  have "card (charges (entry ?tm) ?S' t) \<le> card (charges (entry ?tm) ?S t)" for t
    by (rule charges_snapshot [where R = ?R, OF y nil SessionTunnels_keys(1) [OF I(4) c] tok world_finite [OF inv]])
  then have "counted ?s ?S'"
    using I(1) unfolding counted_def by (metis (no_types, lifting) of_nat_le_iff order_trans)
  moreover have "owned ?tm ?S'" by (rule owned_same_token [OF I(2) y]) simp
  moreover have "session_ok (used_by ?s) (ss\<lparr>ss_ended := True, ss_cleaning := ?R\<rparr>)"
    using ok SessionTunnels_distinct [OF I(4) c] SessionTunnels_keys(2) [OF I(4) c] by (simp add: session_ok_def)
  then have "sessions_ok ?s ?S'" by (rule sessions_ok_upd [OF I(3)])
  ultimately show ?thesis using I(4) by (simp add: world_inv_def)
qed

lemma cleanup_one_entry:
  "ts_Type t = ''http'' \<or> ts_Type t = ''tcp'' \<Longrightarrow>
     entry (sv_tunnelManager (cleanup_one tok t s)) = (entry (sv_tunnelManager s))(item_key t := None)"
  by (auto simp: cleanup_one_http cleanup_one_tcp entry_Unregister item_key_def)

lemma cleanup_one_inv: "tm_inv (sv_tunnelManager s) \<Longrightarrow> tm_inv (sv_tunnelManager (cleanup_one tok t s))"
  by (simp add: cleanup_one_def StopTCPTunnel_def tm_inv_UnregisterHTTP tm_inv_UnregisterTCP)

lemma world_inv_clean:
  assumes inv: "world_inv wd" and y: "wd_sessions wd y = Some ss" and i: "ss_cleaning ss = t # R"
  shows "world_inv (wd\<lparr>wd_server := cleanup_one (ss_token ss) t (wd_server wd),
    wd_sessions := (wd_sessions wd)(y \<mapsto> ss\<lparr>ss_cleaning := R\<rparr>)\<rparr>)"
proof -
  let ?s = "wd_server wd" and ?S = "wd_sessions wd"
  let ?s' = "cleanup_one (ss_token ss) t ?s" and ?S' = "?S(y \<mapsto> ss\<lparr>ss_cleaning := R\<rparr>)"
  have I: "counted ?s ?S" "owned (sv_tunnelManager ?s) ?S" "sessions_ok ?s ?S" "tm_inv (sv_tunnelManager ?s)"
    using inv by (auto simp: world_inv_def)
  have ok: "session_ok (used_by ?s) ss" by (rule sessions_okD [OF I(3) y])
  then have d: "distinct (map item_key (t # R))" and ty: "ts_Type t = ''http'' \<or> ts_Type t = ''tcp''"
    and en: "ss_ended ss" using i by (auto simp: session_ok_def)
  have E: "entry (sv_tunnelManager ?s') = (entry (sv_tunnelManager ?s))(item_key t := None)"
    by (rule cleanup_one_entry [OF ty])
  have "Cleaning y (item_key t) \<in> charges (entry (sv_tunnelManager ?s)) ?S (ss_token ss)"
    using y i by (simp add: charges_iff cleaning_keys_def)
  then have "counted ?s' ?S'"
    by (intro counted_drop [OF I(1) _ _ world_finite [OF inv], where c = "Cleaning y (item_key t)"])
       (simp_all only: cleanup_one_sel E charges_clean [where S = ?S and y = y and ss = ss, OF y i d])
  moreover have "shrinks (entry (sv_tunnelManager ?s)) (entry (sv_tunnelManager ?s'))"
    unfolding E by (auto simp: shrinks_def)
  then have "owned (sv_tunnelManager ?s') ?S" by (rule owned_shrink [OF I(2)])
  then have "owned (sv_tunnelManager ?s') ?S'" by (rule owned_same_token [where y = y and ss = ss]) (simp_all add: y)
  moreover have so: "sessions_ok ?s' ?S" using I(3) by (rule sessions_ok_mono) (auto simp: used_by_decrement)
  then have "sessions_ok ?s' ?S'" using sessions_okD [OF so y] i en
    by (intro sessions_ok_upd) (simp_all add: session_ok_def)
  ultimately show ?thesis using cleanup_one_inv [OF I(4)] by (simp add: world_inv_def)
qed

subsection \<open>Every step keeps the invariant\<close>

lemma world_step_inv: "world_step B L J wd wd' \<Longrightarrow> world_inv wd \<Longrightarrow> world_inv wd'"
proof (induction rule: world_step.induct)
  case (connect wd y rnd un_auth un_reg ord w c token s')
  from handleConnection_session [OF connect.hyps(3)] obtain il
    where s': "s' = (wd_server wd)\<lparr>sv_ipLimiter := il\<rparr>" and t: "\<not> is_anon token \<longrightarrow> used_by (wd_server wd) token \<noteq> None"
    by blast
  show ?case
    using world_inv_connect [OF world_inv_ip [OF connect.prems, of il], of y token] connect.hyps(1) t s' by simp
next
  case (turned_away wd rnd un_auth un_reg ord w c r s')
  from handleConnection_other [OF turned_away.hyps(2,1)] obtain il ks'
    where s': "s' = (wd_server wd)\<lparr>sv_ipLimiter := il, sv_keyStore := ks'\<rparr>" and k: "counts_kept (sv_keyStore (wd_server wd)) ks'"
    by blast
  show ?case using world_inv_keys [OF world_inv_ip [OF turned_away.prems], of il ks'] s' k by simp
next
  case (admit wd y ss oh ot now req s')
  then show ?case by (intro world_inv_admit)
next
  case (refuse wd y ss oh ot now req e s')
  then have "sv_tunnelManager s' = sv_tunnelManager (wd_server wd)" "used_by s' = used_by (wd_server wd)"
      "limit_of s' = limit_of (wd_server wd)"
    using admitTunnel_fails [OF refuse.hyps(5)] by auto
  then show ?case using refuse.prems by (simp add: world_inv_def sessions_ok_def counted_def)
next
  case (open_tunnel wd y ss req att rnd rnds now r s')
  then show ?case by (intro world_inv_open)
next
  case (idle wd y ss oh ot now)
  then show ?case unfolding idleTimeout_def
    by (intro world_inv_shrink shrinks_reserve_all reserve_all_inv) (simp_all add: world_inv_def)
next
  case (end_session wd y ss oh ot)
  then show ?case by (intro world_inv_end)
next
  case (clean_up wd y ss t R)
  then show ?case by (intro world_inv_clean)
next
  case (registry wd tm')
  then show ?case using registry_event_ok [OF registry.hyps]
    by (intro world_inv_shrink) (simp_all add: world_inv_def)
next
  case (keys_changed wd ks')
  then show ?case using key_event_counts by (intro world_inv_keys)
qed

text \<open>Every tunnel of a credential is one of its charges.\<close>

lemma tunnels_le_charges:
  assumes "world_inv wd"
  shows "count_entries (\<lambda>e. ts_Token e = t) (httpTunnels (sv_tunnelManager (wd_server wd))) +
    count_entries (\<lambda>e. ts_Token e = t) (tcpTunnels (sv_tunnelManager (wd_server wd))) \<le>
    card (charges (entry (sv_tunnelManager (wd_server wd))) (wd_sessions wd) t)"
proof -
  let ?tm = "sv_tunnelManager (wd_server wd)" and ?S = "wd_sessions wd"
  let ?E = "entry ?tm"
  let ?H = "entries_with (\<lambda>e. ts_Token e = t) (httpTunnels ?tm)" and ?C = "entries_with (\<lambda>e. ts_Token e = t) (tcpTunnels ?tm)"
  let ?K = "HTTPName ` ?H \<union> TCPPort ` ?C"
  let ?y = "\<lambda>k. the (ts_Session (the (?E k)))"
  let ?f = "\<lambda>k. if k \<in> cleaning_keys ?S (?y k) then Cleaning (?y k) k else Live k"
  have I: "owned ?tm ?S" "tm_inv ?tm" using assms by (auto simp: world_inv_def)
  have fin: "finite ?H" "finite ?C" using tm_inv_finite [OF I(2)] by simp_all
  have K: "\<exists>e. ?E k = Some e \<and> ts_Token e = t" if "k \<in> ?K" for k
    using that by (auto simp: entries_with_def entry_def)
  have "card ?K = card ?H + card ?C"
    using fin by (subst card_Un_disjoint) (auto simp: card_image inj_on_def)
  moreover have "inj_on ?f ?K" by (auto simp: inj_on_def split: if_splits)
  moreover have "?f ` ?K \<subseteq> charges ?E ?S t"
  proof (rule image_subsetI)
    fix k
    assume "k \<in> ?K"
    then obtain e where e: "?E k = Some e" "ts_Token e = t" using K by blast
    then obtain y ss where y: "ts_Session e = Some y" "?S y = Some ss" "ss_token ss = t"
      using I(1) unfolding owned_def by metis
    then show "?f k \<in> charges ?E ?S t" using e by (auto simp: charges_iff live_charge_def)
  qed
  ultimately show ?thesis
    using card_inj_on_le [of ?f ?K "charges ?E ?S t"] world_finite [OF assms] by (simp add: count_entries_def)
qed

end
