(* ===== verification/Session_Properties.thy ===== *)
theory Session_Properties
  imports Server_Sessions Server_Properties
begin

text \<open>
  What the interleaving of all sessions guarantees: no credential ever has more tunnels than its limit,
  every tunnel belongs to a session with its token, and how the limit of one tunnel for anonymous
  addresses can nevertheless be passed.
\<close>

subsection \<open>The start\<close>

lemma NewServer_counts:
  assumes "NewServer B L J utrim f cfg = Inr s" and "used_by s t = Some u"
  shows "u = 0"
proof -
  obtain ts ks where ts: "NewTokenStore B (sc_Tokens cfg) (sc_MaxTunnelsPerToken cfg) = Inr ts"
    and ks: "NewKeyStore J utrim (sc_KeyStorePath cfg) f = Inr ks" and s: "sv_tokenStore s = ts" "sv_keyStore s = ks"
    using assms(1) by (auto simp: NewServer_def split: sum.splits)
  have "token_used ts t = Some u \<Longrightarrow> u = 0"
    using add_tokens_spec [OF ts [unfolded NewTokenStore_def]] by (auto simp: token_used_def)
  moreover have "key_used ks t = Some u \<Longrightarrow> u = 0"
    using ks by (auto simp: NewKeyStore_def key_used_def restarted_def load_key_def stored_key.defs api_key.defs Let_def
        split: if_splits file_read.splits sum.splits option.splits)
  ultimately show ?thesis using assms(2) s by (auto simp: used_by_def split: if_splits)
qed

definition start_world :: "('h, 'l) server \<Rightarrow> ('h, 'l) world" where
  "start_world s = \<lparr>wd_server = s, wd_sessions = Map.empty\<rparr>"

lemma start_world_inv:
  assumes "NewServer B L J utrim f cfg = Inr s"
  shows "world_inv (start_world s)"
proof -
  have tm: "sv_tunnelManager s = NewTunnelManager (fst (sc_TCPPortRange cfg)) (snd (sc_TCPPortRange cfg))"
    using assms by (auto simp: NewServer_def split: sum.splits)
  then have E: "entry (sv_tunnelManager s) = Map.empty"
    by (simp add: entry_def NewTunnelManager_def fun_eq_iff split: tunnel_key.split)
  have "charges Map.empty Map.empty t = {}" for t
    by (auto simp: charges_def live_charge_def)
  moreover have "u = 0" if "used_by s t = Some u" for t u using that by (rule NewServer_counts [OF assms])
  ultimately have "counted s Map.empty" unfolding counted_def E by force
  moreover have "owned (sv_tunnelManager s) Map.empty" by (simp add: owned_def E)
  moreover have "tm_inv (sv_tunnelManager s)" unfolding tm by (rule tm_inv_new)
  ultimately show ?thesis by (simp add: world_inv_def start_world_def sessions_ok_def)
qed

lemma world_run_inv:
  assumes "NewServer B L J utrim f cfg = Inr s" and "(world_step B L J)\<^sup>*\<^sup>* (start_world s) wd"
  shows "world_inv wd"
  using assms(2) by (induction rule: rtranclp_induct) (auto intro: start_world_inv [OF assms(1)] world_step_inv)

subsection \<open>Limits\<close>

text \<open>
  C1: However the requests, disconnections, idle timeouts, kills, expiries, key operations and
  connections of any number of sessions interleave, at no moment does a key or token have more tunnels,
  active or reserved, HTTP and TCP together, than its limit.
\<close>

theorem tunnels_within_limit:
  assumes "NewServer B L J utrim f cfg = Inr s" and "(world_step B L J)\<^sup>*\<^sup>* (start_world s) wd"
    and "limit_of (wd_server wd) t = Some l"
  shows "int (count_entries (\<lambda>e. ts_Token e = t) (httpTunnels (sv_tunnelManager (wd_server wd))) +
    count_entries (\<lambda>e. ts_Token e = t) (tcpTunnels (sv_tunnelManager (wd_server wd)))) \<le> max 0 l"
proof -
  have inv: "world_inv wd" by (rule world_run_inv [OF assms(1,2)])
  obtain u where u: "used_by (wd_server wd) t = Some u"
    using assms(3) keys.known [of "sv_keyStore (wd_server wd)" t] tokens.known [of "sv_tokenStore (wd_server wd)" t]
    by (auto simp: limit_of_def used_by_def split: if_splits)
  then have "int (card (charges (entry (sv_tunnelManager (wd_server wd))) (wd_sessions wd) t)) \<le> u" and "u \<le> max 0 l"
    using inv assms(3) by (auto simp: world_inv_def counted_def)
  then show ?thesis using tunnels_le_charges [OF inv, of t] by linarith
qed

definition small_config :: server_config where
  "small_config = (defaults zero_config)\<lparr>sc_Domain := ''example.com'', sc_Tokens := [''tok-1'']\<rparr>"

definition small_server :: "(string, unit) server" where
  "small_server = \<lparr>sv_cfg = small_config,
     sv_tokenStore = [''tok-1'' \<mapsto> \<lparr>ti_hash = rev ''tok-1'', ti_tunnelCount = 0, ti_maxTunnels = 10\<rparr>],
     sv_keyStore = \<lparr>ks_keys = Map.empty, ks_filePath = ''/etc/htn-tunnel/keys.json'', ks_file = NotExist\<rparr>,
     sv_rateLimiter = NewRateLimiter open_limiter 100 1000, sv_ipLimiter = newIPRateLimiter 10,
     sv_tunnelManager = NewTunnelManager 10000 65535\<rparr>"

lemma small_server_new: "NewServer rev_bcrypt open_limiter demo_json utrim_none NotExist small_config = Inr small_server"
  by (simp add: NewServer_def NewTokenStore_def NewKeyStore_def small_config_def small_server_def rev_bcrypt_def
      defaults_def zero_config_def or_default_def Let_def)

definition a_connection :: connection where
  "a_connection = \<lparr>cn_addr = ''10.0.0.1:5000'', cn_now = 3, cn_deadline_ok = True, cn_first = Some (MsgAuth, []),
     cn_reply_ok = True, cn_yamux_ok = True\<rparr>"

lemma small_connect:
  "\<exists>s'. handleConnection rev_bcrypt open_limiter demo_json (\<lambda>_. Some \<lparr>am_Token = ''tok-1''\<rparr>) (\<lambda>_. None) [] (\<lambda>_. 0) WriteOk
     a_connection small_server = (Session ''tok-1'', s')"
proof -
  obtain il where "ip_Allow open_limiter (extractIP ''10.0.0.1:5000'') 3 (sv_ipLimiter small_server) = (True, il)"
    by (simp add: ip_Allow_def open_limiter_def Let_def)
  then show ?thesis
    by (simp add: handleConnection_def a_connection_def authenticate_def token_valid_def small_server_def IsAPIKey_def
        HasPrefix_def token_Validate_def rev_bcrypt_def msg_type_defs Let_def)
qed

theorem tunnels_within_limit_witness:
  "\<exists>wd. (world_step rev_bcrypt open_limiter demo_json)\<^sup>*\<^sup>* (start_world small_server) wd \<and> wd_sessions wd 1 \<noteq> None \<and>
     int (count_entries (\<lambda>e. ts_Token e = ''tok-1'') (httpTunnels (sv_tunnelManager (wd_server wd))) +
       count_entries (\<lambda>e. ts_Token e = ''tok-1'') (tcpTunnels (sv_tunnelManager (wd_server wd)))) \<le> 10"
proof -
  obtain s' where h: "handleConnection rev_bcrypt open_limiter demo_json (\<lambda>_. Some \<lparr>am_Token = ''tok-1''\<rparr>) (\<lambda>_. None) []
      (\<lambda>_. 0) WriteOk a_connection small_server = (Session ''tok-1'', s')"
    using small_connect by blast
  let ?wd = "(start_world small_server)\<lparr>wd_server := s', wd_sessions := [1 \<mapsto> fresh_session ''tok-1'']\<rparr>"
  have "world_step rev_bcrypt open_limiter demo_json (start_world small_server) ?wd"
    using world_step.connect [of "start_world small_server" 1 "\<lambda>_. 0" rev_bcrypt open_limiter demo_json] h
    by (simp add: start_world_def) (simp add: small_server_def)
  then have run: "(world_step rev_bcrypt open_limiter demo_json)\<^sup>*\<^sup>* (start_world small_server) ?wd" by blast
  obtain il where "s' = small_server\<lparr>sv_ipLimiter := il\<rparr>" using handleConnection_session [OF h] by blast
  then have "limit_of (wd_server ?wd) ''tok-1'' = Some 10"
    by (simp add: limit_of_def is_anon_def IsAPIKey_def HasPrefix_def token_limit_def small_server_def)
  then show ?thesis using tunnels_within_limit [OF small_server_new run, of "''tok-1''" 10] run by auto
qed

text \<open>
  Every tunnel belongs to a session that connected, under the token that session authenticated with,
  in every state any interleaving can reach; so nobody's tunnel is ever charged to, or shown as, somebody
  else's.
\<close>

theorem tunnel_has_owner:
  assumes "NewServer B L J utrim f cfg = Inr s" and "(world_step B L J)\<^sup>*\<^sup>* (start_world s) wd"
    and "LookupHTTP (sv_tunnelManager (wd_server wd)) sub = Some e \<or> LookupTCP (sv_tunnelManager (wd_server wd)) port = Some e"
  shows "\<exists>y ss. ts_Session e = Some y \<and> wd_sessions wd y = Some ss \<and> ss_token ss = ts_Token e"
proof -
  have "owned (sv_tunnelManager (wd_server wd)) (wd_sessions wd)"
    using world_run_inv [OF assms(1,2)] by (simp add: world_inv_def)
  moreover have "\<exists>k. entry (sv_tunnelManager (wd_server wd)) k = Some e"
    using assms(3) unfolding ex_entry by (auto simp: LookupHTTP_def LookupTCP_def split: option.splits if_splits)
  ultimately show ?thesis unfolding owned_def by blast
qed

subsection \<open>A run with two anonymous clients\<close>

lemma open_ip: "\<exists>il. ip_Allow open_limiter ip now r = (True, il)"
  by (simp add: ip_Allow_def open_limiter_def Let_def)

definition anon_client :: string where
  "anon_client = anon_token (extractIP ''10.0.0.1:5000'')"

lemma anon_connect:
  assumes "sc_AllowAnonymous (sv_cfg s) = Some True"
  shows "\<exists>il. handleConnection rev_bcrypt open_limiter demo_json (\<lambda>_. Some \<lparr>am_Token = []\<rparr>) (\<lambda>_. None) [] (\<lambda>_. 0) WriteOk
    a_connection s = (Session anon_client, s\<lparr>sv_ipLimiter := il\<rparr>)"
proof -
  obtain il where "ip_Allow open_limiter (extractIP ''10.0.0.1:5000'') 3 (sv_ipLimiter s) = (True, il)"
    using open_ip by blast
  then show ?thesis using assms
    by (intro exI [of _ il]) (simp add: handleConnection_def a_connection_def authenticate_def anon_client_def
        msg_type_defs Let_def)
qed

lemma anon_admit:
  assumes "is_anon t" and "httpTunnels (sv_tunnelManager s) = Map.empty" and "tcpTunnels (sv_tunnelManager s) = Map.empty"
  shows "\<exists>rl. admitTunnel open_limiter [] [] 9 t anon_request s = (None, s\<lparr>sv_rateLimiter := rl\<rparr>)"
proof -
  obtain rl where "rate_Allow open_limiter t 9 (sv_rateLimiter s) = (True, rl)" using open_rate by blast
  then show ?thesis using assms
    by (intro exI [of _ rl]) (simp add: admitTunnel_def anon_request_def TunnelsForAnon_def incrementTunnels_def TunnelHTTP_def TunnelTCP_def Let_def)
qed

text \<open>The first attempt of ten draws from \<open>rnds 9\<close>; here every draw is the same number.\<close>

lemma anon_open:
  assumes "httpTunnels (sv_tunnelManager s) (RandomSubdomain (\<lambda>_. d)) = None"
  shows "\<exists>r. openTunnel (\<lambda>_. d) (\<lambda>_ _. d) calm 9 y t anon_request s = (r, s\<lparr>sv_tunnelManager :=
    (sv_tunnelManager s)\<lparr>httpTunnels := (httpTunnels (sv_tunnelManager s))(RandomSubdomain (\<lambda>_. d) \<mapsto>
      (new_session y (\<lambda>_. d) t anon_request)\<lparr>ts_Subdomain := RandomSubdomain (\<lambda>_. d), ts_CreatedAt := 9\<rparr>)\<rparr>\<rparr>)"
proof -
  let ?sub = "RandomSubdomain (\<lambda>_. d)" and ?t = "new_session y (\<lambda>_. d) t anon_request"
  have "register_random (Suc n) (\<lambda>_ _. d) 9 ?t (sv_tunnelManager s) = (Some ?sub, (sv_tunnelManager s)
      \<lparr>httpTunnels := (httpTunnels (sv_tunnelManager s))(?sub \<mapsto> ?t\<lparr>ts_Subdomain := ?sub, ts_CreatedAt := 9\<rparr>)\<rparr>)" for n
    using assms random_valid [of "\<lambda>_. d"] by (simp add: RegisterHTTP_def Let_def)
  from this [of 9] show ?thesis
    by (simp add: openTunnel_def registerHTTPTunnel_def anon_request_def Let_def)
qed

definition first_name :: string where
  "first_name = RandomSubdomain (\<lambda>_. 0)"

definition second_name :: string where
  "second_name = RandomSubdomain (\<lambda>_. 1)"

lemma names_differ: "first_name \<noteq> second_name"
  by (simp add: first_name_def second_name_def RandomSubdomain_def label_chars_def upt_conv_Cons)

lemma two_anonymous_tunnels:
  "\<exists>wd e e'. (world_step rev_bcrypt open_limiter demo_json)\<^sup>*\<^sup>* (start_world small_server) wd \<and>
     LookupHTTP (sv_tunnelManager (wd_server wd)) first_name = Some e \<and>
     LookupHTTP (sv_tunnelManager (wd_server wd)) second_name = Some e' \<and>
     ts_Token e = anon_client \<and> ts_Token e' = anon_client \<and> ts_Session e = Some 1 \<and> ts_Session e' = Some 2 \<and>
     sv_cfg (wd_server wd) = small_config"
proof -
  let ?step = "world_step rev_bcrypt open_limiter demo_json"
  let ?anon = "sc_AllowAnonymous (sv_cfg small_server) = Some True"
  have an: ?anon by (simp add: small_server_def small_config_def defaults_def zero_config_def or_default_def)
  have nk: "ks_keys (sv_keyStore small_server) k = None" for k by (simp add: small_server_def)
  have tm: "httpTunnels (sv_tunnelManager small_server) = Map.empty" "tcpTunnels (sv_tunnelManager small_server) = Map.empty"
    by (simp_all add: small_server_def NewTunnelManager_def)
  have ia: "is_anon anon_client" by (simp add: anon_client_def)
  let ?f = "fresh_session anon_client"
  let ?p = "?f\<lparr>ss_pending := Some anon_request\<rparr>"
  obtain il where c1: "handleConnection rev_bcrypt open_limiter demo_json (\<lambda>_. Some \<lparr>am_Token = []\<rparr>) (\<lambda>_. None) [] (\<lambda>_. 0)
      WriteOk a_connection small_server = (Session anon_client, small_server\<lparr>sv_ipLimiter := il\<rparr>)"
    using anon_connect [OF an] by blast
  let ?s1 = "small_server\<lparr>sv_ipLimiter := il\<rparr>"
  let ?w0 = "start_world small_server" and ?w1 = "\<lparr>wd_server = ?s1, wd_sessions = [1 \<mapsto> ?f]\<rparr>"
  have "?step ?w0 ?w1"
    using world_step.connect [of ?w0 1 "\<lambda>_. 0" rev_bcrypt open_limiter demo_json] c1 nk by (simp add: start_world_def)
  moreover obtain jl where c2: "handleConnection rev_bcrypt open_limiter demo_json (\<lambda>_. Some \<lparr>am_Token = []\<rparr>) (\<lambda>_. None) []
      (\<lambda>_. 0) WriteOk a_connection ?s1 = (Session anon_client, ?s1\<lparr>sv_ipLimiter := jl\<rparr>)"
    using anon_connect [of ?s1] an by auto
  let ?s2 = "?s1\<lparr>sv_ipLimiter := jl\<rparr>"
  let ?w2 = "\<lparr>wd_server = ?s2, wd_sessions = [1 \<mapsto> ?f, 2 \<mapsto> ?f]\<rparr>"
  have "?step ?w1 ?w2"
    using world_step.connect [of ?w1 2 "\<lambda>_. 0" rev_bcrypt open_limiter demo_json] c2 nk by simp
  moreover obtain rl where a1: "admitTunnel open_limiter [] [] 9 anon_client anon_request ?s2 = (None, ?s2\<lparr>sv_rateLimiter := rl\<rparr>)"
    using anon_admit [OF ia, of ?s2] tm by auto
  let ?s3 = "?s2\<lparr>sv_rateLimiter := rl\<rparr>"
  let ?w3 = "\<lparr>wd_server = ?s3, wd_sessions = [1 \<mapsto> ?p, 2 \<mapsto> ?f]\<rparr>"
  have "?step ?w2 ?w3"
    using world_step.admit [of ?w2 1 ?f "[]" "[]" open_limiter 9 anon_request ?s3] a1 tm
    by (simp add: fresh_session_def covers_def fun_upd_twist)
  moreover obtain rl' where a2: "admitTunnel open_limiter [] [] 9 anon_client anon_request ?s3 = (None, ?s3\<lparr>sv_rateLimiter := rl'\<rparr>)"
    using anon_admit [OF ia, of ?s3] tm by auto
  let ?s4 = "?s3\<lparr>sv_rateLimiter := rl'\<rparr>"
  let ?w4 = "\<lparr>wd_server = ?s4, wd_sessions = [1 \<mapsto> ?p, 2 \<mapsto> ?p]\<rparr>"
  have "?step ?w3 ?w4"
    using world_step.admit [of ?w3 2 ?f "[]" "[]" open_limiter 9 anon_request ?s4] a2 tm
    by (simp add: fresh_session_def covers_def)
  moreover obtain r s5 where o1: "openTunnel (\<lambda>_. 0) (\<lambda>_ _. 0) calm 9 1 anon_client anon_request ?s4 = (r, s5)"
      and s5: "s5 = ?s4\<lparr>sv_tunnelManager := (sv_tunnelManager small_server)\<lparr>httpTunnels := [first_name \<mapsto>
        (new_session 1 (\<lambda>_. 0) anon_client anon_request)\<lparr>ts_Subdomain := first_name, ts_CreatedAt := 9\<rparr>]\<rparr>\<rparr>"
    using anon_open [of ?s4 0 1 anon_client] tm by (auto simp: first_name_def)
  let ?w5 = "\<lparr>wd_server = s5, wd_sessions = [1 \<mapsto> ?f, 2 \<mapsto> ?p]\<rparr>"
  have "?step ?w4 ?w5"
    using world_step.open_tunnel [of ?w4 1 ?p anon_request calm "\<lambda>_. 0" "\<lambda>_ _. 0" 9 r s5] o1 quiet_calm
    by (simp add: fresh_session_def fun_upd_twist)
  moreover obtain r' s6 where o2: "openTunnel (\<lambda>_. 1) (\<lambda>_ _. 1) calm 9 2 anon_client anon_request s5 = (r', s6)"
      and s6: "s6 = s5\<lparr>sv_tunnelManager := (sv_tunnelManager s5)\<lparr>httpTunnels := (httpTunnels (sv_tunnelManager s5))(second_name \<mapsto>
        (new_session 2 (\<lambda>_. 1) anon_client anon_request)\<lparr>ts_Subdomain := second_name, ts_CreatedAt := 9\<rparr>)\<rparr>\<rparr>"
    using anon_open [of s5 1 2 anon_client] names_differ by (auto simp: s5 second_name_def first_name_def)
  let ?w6 = "\<lparr>wd_server = s6, wd_sessions = [1 \<mapsto> ?f, 2 \<mapsto> ?f]\<rparr>"
  have "?step ?w5 ?w6"
    using world_step.open_tunnel [of ?w5 2 ?p anon_request calm "\<lambda>_. 1" "\<lambda>_ _. 1" 9 r' s6] o2 quiet_calm
    by (simp add: fresh_session_def)
  ultimately have "?step\<^sup>*\<^sup>* ?w0 ?w6" by (meson converse_rtranclp_into_rtranclp rtranclp.rtrancl_refl)
  moreover have "httpTunnels (sv_tunnelManager s6) = [first_name \<mapsto>
        (new_session 1 (\<lambda>_. 0) anon_client anon_request)\<lparr>ts_Subdomain := first_name, ts_CreatedAt := 9\<rparr>,
      second_name \<mapsto> (new_session 2 (\<lambda>_. 1) anon_client anon_request)\<lparr>ts_Subdomain := second_name, ts_CreatedAt := 9\<rparr>]"
    by (simp add: s6 s5)
  moreover have "sv_cfg s6 = small_config" by (simp add: s6 s5 small_server_def)
  ultimately show ?thesis using names_differ
    by (intro exI [of _ ?w6]) (simp add: LookupHTTP_def new_session_def)
qed

theorem tunnel_has_owner_witness:
  "\<exists>wd y ss. (world_step rev_bcrypt open_limiter demo_json)\<^sup>*\<^sup>* (start_world small_server) wd \<and>
     wd_sessions wd y = Some ss \<and> ss_token ss = anon_client"
proof -
  obtain wd e where r: "(world_step rev_bcrypt open_limiter demo_json)\<^sup>*\<^sup>* (start_world small_server) wd"
    and e: "LookupHTTP (sv_tunnelManager (wd_server wd)) first_name = Some e" "ts_Token e = anon_client"
    using two_anonymous_tunnels by blast
  show ?thesis using tunnel_has_owner [OF small_server_new r disjI1 [OF e(1)]] e(2) r by auto
qed

text \<open>
  The limit of one tunnel for an anonymous address is not kept under concurrency: the check and the
  registration are separate, so two connections from the same address whose requests are both checked
  before either is registered end up with two tunnels at the same time.
\<close>

theorem anonymous_limit_race:
  "\<exists>wd e e'. (world_step rev_bcrypt open_limiter demo_json)\<^sup>*\<^sup>* (start_world small_server) wd \<and>
     LookupHTTP (sv_tunnelManager (wd_server wd)) first_name = Some e \<and>
     LookupHTTP (sv_tunnelManager (wd_server wd)) second_name = Some e' \<and> first_name \<noteq> second_name \<and>
     is_anon (ts_Token e) \<and> ts_Token e = ts_Token e'"
  using two_anonymous_tunnels names_differ by (auto simp: anon_client_def)

end
