(* ===== verification/Http_Proxy.thy ===== *)
theory Http_Proxy
  imports Server Request_Log
begin

text \<open>
  The HTTP side of the relay (\<open>internal/server/http_proxy.go\<close>): from the TLS server name or the
  \<open>Host\<close> header to a subdomain, from the subdomain to the dashboard, a tunnel or an error, the headers
  added on the way, and the record of the request that the client and the log get. Moving the bytes
  is left to theory \<open>Http_Serving\<close>; what \<open>httputil.ReverseProxy\<close> does with the answer of the backend is an
  argument here, as the calls it makes on the response writer.
\<close>

subsection \<open>Requests\<close>

text \<open>Header names are kept in their canonical form, as \<open>net/http\<close> does.\<close>

record http_request =
  hr_Method :: string
  hr_Host :: string
  hr_Path :: string
  hr_RemoteAddr :: string
  hr_Header :: "string \<rightharpoonup> string list"

definition upper_char :: "char \<Rightarrow> char" where
  "upper_char c = (if 97 \<le> (of_char c :: nat) \<and> (of_char c :: nat) \<le> 122
                   then char_of ((of_char c :: nat) - 32) else c)"

fun canonical_from :: "bool \<Rightarrow> string \<Rightarrow> string" where
  "canonical_from up [] = []"
| "canonical_from up (c # cs) =
     (if up then upper_char c else lower_char c) # canonical_from (c = CHR ''-'') cs"

definition CanonicalHeaderKey :: "string \<Rightarrow> string" where
  "CanonicalHeaderKey k = canonical_from True k"

definition header_Get :: "string \<Rightarrow> (string \<rightharpoonup> string list) \<Rightarrow> string" where
  "header_Get k h = (case h (CanonicalHeaderKey k) of Some (v # vs) \<Rightarrow> v | _ \<Rightarrow> [])"

definition header_Set :: "string \<Rightarrow> string \<Rightarrow> (string \<rightharpoonup> string list) \<Rightarrow> (string \<rightharpoonup> string list)" where
  "header_Set k v h = h(CanonicalHeaderKey k \<mapsto> [v])"

definition header_Del :: "string \<Rightarrow> (string \<rightharpoonup> string list) \<Rightarrow> (string \<rightharpoonup> string list)" where
  "header_Del k h = h(CanonicalHeaderKey k := None)"

definition hopByHopHeaders :: "string list" where
  "hopByHopHeaders = [''Connection'', ''Keep-Alive'', ''Proxy-Authenticate'', ''Proxy-Authorization'',
     ''TE'', ''Trailers'', ''Transfer-Encoding'', ''Upgrade'']"

definition addForwardingHeaders :: "http_request \<Rightarrow> (string \<rightharpoonup> string list) \<Rightarrow> (string \<rightharpoonup> string list)" where
  "addForwardingHeaders orig out =
     (let clientIP = extractIP (hr_RemoteAddr orig);
          prior = header_Get ''X-Forwarded-For'' (hr_Header orig);
          out1 = header_Set ''X-Forwarded-For'' (if prior \<noteq> [] then prior @ '', '' @ clientIP else clientIP) out;
          out2 = header_Set ''X-Forwarded-Proto'' ''https'' out1;
          out3 = header_Set ''X-Forwarded-Host'' (hr_Host orig) out2
      in fold header_Del hopByHopHeaders out3)"

text \<open>\<open>strings.EqualFold\<close>; folding above ASCII is an argument.\<close>

definition EqualFold :: "(string \<Rightarrow> string \<Rightarrow> bool) \<Rightarrow> string \<Rightarrow> string \<Rightarrow> bool" where
  "EqualFold ufold s t = (if ascii s \<and> ascii t then map lower_char s = map lower_char t else ufold s t)"

definition isWebSocketUpgrade :: "(string \<Rightarrow> string \<Rightarrow> bool) \<Rightarrow> (string \<Rightarrow> string) \<Rightarrow> http_request \<Rightarrow> bool" where
  "isWebSocketUpgrade ufold ulow r \<longleftrightarrow>
     EqualFold ufold (header_Get ''Upgrade'' (hr_Header r)) ''websocket'' \<and>
     Contains (ToLower ulow (header_Get ''Connection'' (hr_Header r))) ''upgrade''"

subsection \<open>Routing\<close>

definition extractSubdomain :: "(string \<Rightarrow> string) \<Rightarrow> string \<Rightarrow> string \<Rightarrow> string" where
  "extractSubdomain ulow domain host =
     (let idx = LastIndex host CHR '':''; h = (if idx \<ge> 0 then take (nat idx) host else host) in
      if ToLower ulow h = ToLower ulow domain then []
      else
        let suffix = CHR ''.'' # domain in
        if \<not> HasSuffix h suffix
        then (case SplitN2 h CHR ''.'' of p # ps \<Rightarrow> ToLower ulow p | [] \<Rightarrow> [])
        else ToLower ulow (TrimSuffix h suffix))"

text \<open>The subdomain of a request: from the server name of the TLS handshake, else from the \<open>Host\<close> header.\<close>

definition request_subdomain :: "(string \<Rightarrow> string) \<Rightarrow> string \<Rightarrow> string \<Rightarrow> http_request \<Rightarrow> string" where
  "request_subdomain ulow domain sni r =
     (let sub = extractSubdomain ulow domain sni in
      if sub = [] then extractSubdomain ulow domain (hr_Host r) else sub)"

definition special_host :: "string \<Rightarrow> bool" where
  "special_host sub \<longleftrightarrow> sub = ''dashboard'' \<or> sub = ''admin'' \<or> sub = ''www'' \<or> sub = []"

definition dashboard_target :: "server_config \<Rightarrow> string" where
  "dashboard_target cfg =
     (let addr = sc_DashboardAddr cfg in
      if HasPrefix addr '':'' then ''127.0.0.1'' @ addr
      else if HasPrefix addr ''0.0.0.0:'' then ''127.0.0.1'' @ TrimPrefix addr ''0.0.0.0''
      else addr)"

datatype route = ToDashboard string | NotFound string | ToWebSocket tunnel_session | ToTunnel tunnel_session

definition route_request ::
    "(string \<Rightarrow> string \<Rightarrow> bool) \<Rightarrow> (string \<Rightarrow> string) \<Rightarrow> server_config \<Rightarrow> tunnel_manager \<Rightarrow> http_request \<Rightarrow> string \<Rightarrow> route" where
  "route_request ufold ulow cfg tm r sub =
     (if special_host sub \<and> sc_DashboardEnabled cfg then ToDashboard (dashboard_target cfg)
      else case LookupHTTP tm sub of
        None \<Rightarrow> NotFound sub
      | Some ts \<Rightarrow> if isWebSocketUpgrade ufold ulow r then ToWebSocket ts else ToTunnel ts)"

subsection \<open>The response writer\<close>

record response_writer =
  rw_status :: int
  rw_size :: int

text \<open>\<open>Flush\<close> passes what was written on, and records nothing.\<close>

datatype writer_call = WriteHeader int | WriteBytes int | Flush

definition writer_step :: "writer_call \<Rightarrow> response_writer \<Rightarrow> response_writer" where
  "writer_step c w =
     (case c of
        WriteHeader code \<Rightarrow> w\<lparr>rw_status := code\<rparr>
      | WriteBytes n \<Rightarrow>
          (let w1 = (if rw_status w = 0 then w\<lparr>rw_status := 200\<rparr> else w) in w1\<lparr>rw_size := rw_size w1 + n\<rparr>)
      | Flush \<Rightarrow> w)"

definition run_writer :: "writer_call list \<Rightarrow> response_writer" where
  "run_writer cs = fold writer_step cs \<lparr>rw_status = 0, rw_size = 0\<rparr>"

subsection \<open>Records of a request\<close>

definition millis :: "duration \<Rightarrow> int" where
  "millis d = quot d 1000000"

definition log_path :: "string \<Rightarrow> string" where
  "log_path path = (if length path > 100 then take 97 path @ ''...'' else path)"

definition sendRequestLog ::
    "tunnel_session \<Rightarrow> string \<Rightarrow> string \<Rightarrow> int \<Rightarrow> duration \<Rightarrow> int \<Rightarrow> request_log_msg option" where
  "sendRequestLog ts mth path status dur sz =
     (if ts_ControlEnc ts = None then None
      else Some \<lparr>rl_Method = mth, rl_Path = log_path path,
                 rl_Status = (if status = 0 then 502 else status), rl_Duration = millis dur, rl_Size = sz\<rparr>)"

definition entry_of :: "tunnel_session \<Rightarrow> http_request \<Rightarrow> response_writer \<Rightarrow> time \<Rightarrow> duration \<Rightarrow> log_entry" where
  "entry_of ts r w start dur =
     \<lparr>e_Timestamp = start, e_TunnelID = ts_ID ts, e_Subdomain = ts_Subdomain ts,
      e_Token = maskToken (ts_Token ts), e_Method = hr_Method r, e_Path = hr_Path r,
      e_Status = rw_status w, e_DurationMs = millis dur, e_Size = rw_size w\<rparr>"

text \<open>
  \<open>serveRequest\<close>: the route, and for a proxied request, once the proxy has made its calls on the writer,
  the message to the client and the new request log (\<open>None\<close> when adding to it panics).
\<close>

definition serveRequest ::
    "(string \<Rightarrow> string \<Rightarrow> bool) \<Rightarrow> (string \<Rightarrow> string) \<Rightarrow> server_config \<Rightarrow> tunnel_manager \<Rightarrow> http_request \<Rightarrow> string \<Rightarrow>
     writer_call list \<Rightarrow> time \<Rightarrow> duration \<Rightarrow> request_log \<Rightarrow>
     route \<times> request_log_msg option \<times> request_log option" where
  "serveRequest ufold ulow cfg tm r sub calls start dur rl =
     (case route_request ufold ulow cfg tm r sub of
        ToTunnel ts \<Rightarrow>
          let w = run_writer calls in
          (ToTunnel ts,
           sendRequestLog ts (hr_Method r) (hr_Path r) (rw_status w) dur (rw_size w),
           Add (entry_of ts r w start dur) rl)
      | other \<Rightarrow> (other, None, Some rl))"

end
