(* ===== verification/Http_Properties.thy ===== *)
theory Http_Properties
  imports Http_Proxy Log_Adapter Server_Properties
begin

text \<open>
  The properties of the HTTP side: which host reaches which tunnel, that the address the server announces
  works, and that every proxied request is recorded once.
\<close>

subsection \<open>Hosts\<close>

lemma SplitHost: "CHR '':'' \<notin> set h \<Longrightarrow> LastIndex h CHR '':'' = - 1"
  by (rule LastIndex_neg)

lemma extract_plain:
  assumes "ascii sub" and "ascii domain" and "CHR '':'' \<notin> set (sub @ CHR ''.'' # domain)"
  shows "extractSubdomain ulow domain (sub @ CHR ''.'' # domain) = map lower_char sub"
proof -
  let ?h = "sub @ CHR ''.'' # domain"
  have asc: "ascii ?h" using assms(1,2) by (auto simp: ascii_def)
  then have "ToLower ulow ?h \<noteq> ToLower ulow domain"
    using assms(2) by (auto simp: ToLower_def dest: arg_cong [where f = length])
  then show ?thesis using assms HasSuffix_append [of sub "CHR ''.'' # domain"] TrimSuffix_append [of sub "CHR ''.'' # domain"]
    by (simp add: extractSubdomain_def SplitHost Let_def ToLower_def asc)
qed

lemma extract_port:
  assumes "CHR '':'' \<notin> set port"
  shows "extractSubdomain ulow domain (h @ CHR '':'' # port) =
    (if CHR '':'' \<in> set h then extractSubdomain ulow domain (h @ CHR '':'' # port) else extractSubdomain ulow domain h)"
  using assms by (simp add: extractSubdomain_def LastIndex_last SplitHost Let_def)

text \<open>A route that ends at a tunnel.\<close>

definition reaches :: "route \<Rightarrow> tunnel_session \<Rightarrow> bool" where
  "reaches r t \<longleftrightarrow> r = ToTunnel t \<or> r = ToWebSocket t"

lemma special_not_valid: "special_host sub \<Longrightarrow> ValidateSubdomain sub \<noteq> None"
  by (auto simp: special_host_def ValidateSubdomain_None label_shape_def reservedSubdomains_def)

lemma route_reaches:
  assumes "tm_inv tm"
  shows "reaches (route_request ufold ulow cfg tm r sub) t \<longleftrightarrow> LookupHTTP tm sub = Some t"
proof (cases "special_host sub")
  case True
  then have "httpTunnels tm sub = None"
    using special_not_valid [OF True] tm_inv_http [OF assms, of sub] by (cases "httpTunnels tm sub") (auto simp: http_entry_ok_def)
  then show ?thesis by (simp add: route_request_def reaches_def LookupHTTP_def)
next
  case False
  then show ?thesis by (auto simp: route_request_def reaches_def split: option.split)
qed

text \<open>
  A request reaches a tunnel exactly when the label before the domain, in any mixture of upper and
  lower case, with or without a port, is the name of an active tunnel, and it reaches that one; the names
  of the dashboard never lead to a tunnel.
\<close>

theorem host_reaches_tunnel:
  assumes "tm_inv tm" and "ascii sub" and "ascii (sc_Domain cfg)" and "CHR '':'' \<notin> set (sub @ CHR ''.'' # sc_Domain cfg)"
    and "CHR '':'' \<notin> set port" and "host = sub @ CHR ''.'' # sc_Domain cfg \<or> host = sub @ CHR ''.'' # sc_Domain cfg @ CHR '':'' # port"
  shows "reaches (route_request ufold ulow cfg tm r (extractSubdomain ulow (sc_Domain cfg) host)) t \<longleftrightarrow>
    LookupHTTP tm (map lower_char sub) = Some t"
proof -
  have "extractSubdomain ulow (sc_Domain cfg) host = map lower_char sub"
    using assms(6) extract_plain [OF assms(2-4), of ulow] extract_port [OF assms(5), of ulow "sc_Domain cfg" "sub @ CHR ''.'' # sc_Domain cfg"]
      assms(4) by auto
  then show ?thesis using route_reaches [OF assms(1)] by simp
qed

definition demo_http :: http_request where
  "demo_http = \<lparr>hr_Method = ''GET'', hr_Host = ''MyApp.example.com:443'', hr_Path = ''/'', hr_RemoteAddr = ''10.0.0.9:1'',
     hr_Header = Map.empty\<rparr>"

theorem host_reaches_tunnel_witness:
  "reaches (route_request (\<lambda>_ _. False) id (zero_config\<lparr>sc_Domain := ''example.com''\<rparr>) a_manager demo_http
     (extractSubdomain id ''example.com'' ''MyApp.example.com:443'')) (a_session\<lparr>ts_CreatedAt := 5\<rparr>)"
proof -
  have "map lower_char ''MyApp'' = ''myapp''" by code_simp
  then have "LookupHTTP a_manager (map lower_char ''MyApp'') = Some (a_session\<lparr>ts_CreatedAt := 5\<rparr>)"
    by (simp only:) (simp add: LookupHTTP_def a_manager_simps)
  then show ?thesis
    using host_reaches_tunnel [OF a_manager_inv, of "''MyApp''" "zero_config\<lparr>sc_Domain := ''example.com''\<rparr>" "''443''"
        "''MyApp.example.com:443''" "\<lambda>_ _. False" id demo_http "a_session\<lparr>ts_CreatedAt := 5\<rparr>"]
    by (simp add: ascii_def)
qed

text \<open>
  C18: The address the server announces works: a request that arrives for the host of the announced URL,
  whether known from the TLS handshake or from the \<open>Host\<close> header, is routed to a tunnel of the very
  session and token that asked for it.
\<close>

theorem announced_address_works:
  assumes "handleTunnelRequest L oh ot rnd rnds att now y token req s = (HTTPTunnel url, s')" and "quiet att"
    and "ascii (sc_Domain (sv_cfg s))" and "CHR '':'' \<notin> set (sc_Domain (sv_cfg s))"
  shows "\<exists>host t. url = ''https://'' @ host \<and> ts_Token t = token \<and> ts_Session t = Some y \<and>
    (\<forall>r. reaches (route_request ufold ulow (sv_cfg s') (sv_tunnelManager s') r
        (request_subdomain ulow (sc_Domain (sv_cfg s)) host r)) t) \<and>
    (\<forall>r. hr_Host r = host \<longrightarrow> reaches (route_request ufold ulow (sv_cfg s') (sv_tunnelManager s') r
        (request_subdomain ulow (sc_Domain (sv_cfg s)) [] r)) t)"
proof -
  obtain sub t where sub: "url = tunnel_url sub (sc_Domain (sv_cfg s))" "ValidateSubdomain sub = None"
      "LookupHTTP (sv_tunnelManager s') sub = Some t" "ts_Token t = token" "ts_Session t = Some y"
    using handleTunnelRequest_http [OF assms(1,2)] by blast
  let ?d = "sc_Domain (sv_cfg s)"
  let ?host = "sub @ CHR ''.'' # ?d"
  have shape: "label_shape sub" using sub(2) by (simp add: ValidateSubdomain_None)
  note facts = label_shape_facts [OF shape]
  have e: "extractSubdomain ulow ?d ?host = sub"
    using extract_plain [OF facts(3) assms(3), of ulow] facts(2,4) assms(4) by simp
  have special: "\<not> special_host sub" using special_not_valid sub(2) by blast
  have r: "reaches (route_request ufold ulow (sv_cfg s') (sv_tunnelManager s') r sub) t" for r
    using special sub(3) by (simp add: route_request_def reaches_def)
  have "request_subdomain ulow ?d ?host r = sub" for r using e facts(5) by (simp add: request_subdomain_def Let_def)
  moreover have "extractSubdomain ulow ?d [] = []"
    by (auto simp: extractSubdomain_def HasSuffix_def SplitN2_def ToLower_def ascii_def Let_def)
  then have "request_subdomain ulow ?d [] r = sub" if "hr_Host r = ?host" for r
    using that e by (simp add: request_subdomain_def Let_def)
  moreover have "url = ''https://'' @ ?host" using sub(1) by (simp add: tunnel_url_def)
  ultimately show ?thesis using r sub(4,5) by (intro exI [of _ ?host] exI [of _ t]) auto
qed

theorem announced_address_works_witness:
  "\<exists>url host. url = ''https://'' @ host \<and> (\<exists>s'. handleTunnelRequest open_limiter [] [] (\<lambda>_. 0) (\<lambda>_ _. 0) calm 9 1
     demo_user shop_request demo_server = (HTTPTunnel url, s'))"
proof -
  obtain url s' where h: "handleTunnelRequest open_limiter [] [] (\<lambda>_. 0) (\<lambda>_ _. 0) calm 9 1 demo_user shop_request demo_server =
      (HTTPTunnel url, s')"
    using demo_open_shop by blast
  have d: "sc_Domain (sv_cfg demo_server) = ''example.com''" by (simp add: demo_server_def defaults_def)
  have "\<exists>host. url = ''https://'' @ host"
    using announced_address_works [OF h quiet_calm, of "\<lambda>_ _. False" id] by (auto simp: d ascii_def)
  then show ?thesis using h by blast
qed

subsection \<open>Records\<close>

lemma Add_ring: "Add e rl = Some rl' \<Longrightarrow> rl_ring rl' = ring_add e (rl_ring rl)"
  by (auto simp: Add_def Let_def)

lemma length_log_path: "length (log_path p) \<le> 100"
  by (auto simp: log_path_def)

text \<open>
  A proxied request is recorded exactly once, as the newest entry of the log, under the tunnel's own
  name and with its token masked, and adding it never panics; the client is sent its method, at most a
  hundred bytes of its path and a status that is never zero. Requests for the dashboard, for unknown hosts
  and WebSocket upgrades are not recorded.
\<close>

theorem request_recorded_once:
  assumes "serveRequest ufold ulow cfg tm r sub calls start dur rl = (route, msg, res)"
    and "tm_inv tm" and "log_inv rl"
  shows "\<exists>rl'. res = Some rl' \<and>
    (case route of
       ToTunnel ts \<Rightarrow>
         snapshot [] (rl_ring rl') = take maxLogEntries (entry_of ts r (run_writer calls) start dur # snapshot [] (rl_ring rl)) \<and>
         e_Subdomain (entry_of ts r (run_writer calls) start dur) = sub \<and>
         (\<forall>m. msg = Some m \<longrightarrow> rl_Method m = hr_Method r \<and> rl_Status m \<noteq> 0 \<and> length (rl_Path m) \<le> 100)
     | _ \<Rightarrow> rl' = rl \<and> msg = None)"
proof (cases "\<exists>ts. route_request ufold ulow cfg tm r sub = ToTunnel ts")
  case True
  then obtain ts where ts: "route_request ufold ulow cfg tm r sub = ToTunnel ts" by blast
  let ?e = "entry_of ts r (run_writer calls) start dur"
  have "LookupHTTP tm sub = Some ts" using ts route_reaches [OF assms(2), of ufold ulow cfg r sub ts] by (simp add: reaches_def)
  then have "httpTunnels tm sub = Some ts" by (auto simp: LookupHTTP_def split: option.splits if_splits)
  then have name: "ts_Subdomain ts = sub" using tm_inv_http [OF assms(2)] by (auto simp: http_entry_ok_def)
  obtain rl' where rl': "Add ?e rl = Some rl'" using Add_inv [OF assms(3)] by blast
  have "ring_ok (rl_ring rl)" using assms(3) by (simp add: log_inv_def)
  then have "snapshot [] (rl_ring rl') = take maxLogEntries (?e # snapshot [] (rl_ring rl))"
    by (simp add: Add_ring [OF rl'] snapshot_ring_add)
  moreover have "route = ToTunnel ts" "res = Some rl'"
      "msg = sendRequestLog ts (hr_Method r) (hr_Path r) (rw_status (run_writer calls)) dur (rw_size (run_writer calls))"
    using assms(1) ts rl' by (simp_all add: serveRequest_def Let_def)
  ultimately show ?thesis using name
    by (auto simp: sendRequestLog_def length_log_path entry_of_def split: if_splits)
next
  case False
  then have "res = Some rl" "msg = None" "\<And>ts. route \<noteq> ToTunnel ts"
    using assms(1) by (auto simp: serveRequest_def split: route.splits)
  then show ?thesis by (auto split: route.split)
qed

theorem request_recorded_once_witness:
  "\<exists>rl'. snd (snd (serveRequest (\<lambda>_ _. False) id zero_config a_manager demo_http ''myapp'' [WriteHeader 200, WriteBytes 5]
     7 1000000 NewRequestLog)) = Some rl'"
proof -
  have "log_inv NewRequestLog" by (simp add: log_inv_def NewRequestLog_def ring_ok_new chan_made_def)
  moreover obtain route msg res where "serveRequest (\<lambda>_ _. False) id zero_config a_manager demo_http ''myapp''
      [WriteHeader 200, WriteBytes 5] 7 1000000 NewRequestLog = (route, msg, res)"
    by (meson prod_cases3)
  ultimately show ?thesis using request_recorded_once [OF _ a_manager_inv] by fastforce
qed

end
