(* ===== verification/Http_Serving.thy ===== *)
theory Http_Serving
  imports Http_Proxy
begin

text \<open>
  How \<open>internal/server/http_proxy.go\<close> moves requests: the redirect to HTTPS, the listener for one
  connection, the transport that sends a request through a stream of the tunnel and closes it again, and the
  WebSocket proxy with its three kinds of buffered bytes. Byte streams are lists; \<open>http.ReadResponse\<close> and the
  rendering of requests and responses are arguments.
\<close>

subsection \<open>Redirect\<close>

definition redirect_target :: "string \<Rightarrow> string \<Rightarrow> string" where
  "redirect_target host uri = ''https://'' @ host @ uri"

subsection \<open>A listener for one connection\<close>

text \<open>\<open>singleConnListener\<close>: a channel with room for one connection. \<open>Accept\<close> blocks on an empty open channel.\<close>

record 'c single_listener =
  sl_chan :: "'c option"
  sl_closed :: bool

definition newSingleConnListener :: "'c \<Rightarrow> 'c single_listener" where
  "newSingleConnListener c = \<lparr>sl_chan = Some c, sl_closed = False\<rparr>"

datatype 'c accept_result = AcceptedConn 'c | ListenerClosed | Blocked

definition single_Accept :: "'c single_listener \<Rightarrow> 'c accept_result \<times> 'c single_listener" where
  "single_Accept l =
     (case sl_chan l of
        Some c \<Rightarrow> (AcceptedConn c, l\<lparr>sl_chan := None\<rparr>)
      | None \<Rightarrow> (if sl_closed l then ListenerClosed else Blocked, l))"

text \<open>Closing drains the channel; closing twice panics (\<open>None\<close>).\<close>

definition single_Close :: "'c single_listener \<Rightarrow> 'c single_listener option" where
  "single_Close l = (if sl_closed l then None else Some \<lparr>sl_chan = None, sl_closed = True\<rparr>)"

text \<open>
  \<open>http.Server.Serve\<close> accepts until \<open>Accept\<close> returns an error: the connections it served within \<open>n\<close> calls of
  \<open>Accept\<close> and whether it has returned.
\<close>

fun serve_accepts :: "nat \<Rightarrow> 'c single_listener \<Rightarrow> 'c list \<times> bool" where
  "serve_accepts 0 l = ([], False)"
| "serve_accepts (Suc n) l =
     (case single_Accept l of
        (AcceptedConn c, l1) \<Rightarrow> (case serve_accepts n l1 of (cs, r) \<Rightarrow> (c # cs, r))
      | (ListenerClosed, l1) \<Rightarrow> ([], True)
      | (Blocked, l1) \<Rightarrow> serve_accepts n l1)"

subsection \<open>One request through a stream\<close>

datatype stream_state = NoStream | StreamOpen | StreamClosed

datatype transport_error = OpenStream string | WriteRequest string | ReadResponse string

record transport_env =
  te_open :: "string option"
  te_write :: "string option"
  te_response :: "string + string"

text \<open>The response body, wrapped so that closing it closes the stream and adds what was read to the session.\<close>

record stream_closer =
  sc_body :: string
  sc_read :: int
  sc_stream :: stream_state

definition RoundTrip :: "transport_env \<Rightarrow> (transport_error + stream_closer) \<times> stream_state" where
  "RoundTrip env =
     (case te_open env of
        Some e \<Rightarrow> (Inl (OpenStream e), NoStream)
      | None \<Rightarrow>
          (case te_write env of
             Some e \<Rightarrow> (Inl (WriteRequest e), StreamClosed)
           | None \<Rightarrow>
               (case te_response env of
                  Inl e \<Rightarrow> (Inl (ReadResponse e), StreamClosed)
                | Inr body \<Rightarrow> (Inr \<lparr>sc_body = body, sc_read = 0, sc_stream = StreamOpen\<rparr>, StreamOpen))))"

definition closer_Read :: "nat \<Rightarrow> stream_closer \<Rightarrow> string \<times> stream_closer" where
  "closer_Read n c =
     (take n (sc_body c), c\<lparr>sc_body := drop n (sc_body c), sc_read := sc_read c + int (length (take n (sc_body c)))\<rparr>)"

definition closer_Close :: "string \<Rightarrow> string \<Rightarrow> stream_closer \<Rightarrow> tunnel_manager \<Rightarrow> stream_closer \<times> tunnel_manager" where
  "closer_Close ident sub c tm = (c\<lparr>sc_stream := StreamClosed\<rparr>, count_http_bytes ident sub (sc_read c) tm)"

text \<open>The reverse proxy reads the body in pieces and then closes it.\<close>

fun read_all :: "nat list \<Rightarrow> stream_closer \<Rightarrow> string \<times> stream_closer" where
  "read_all [] c = ([], c)"
| "read_all (n # ns) c =
     (case closer_Read n c of (s, c1) \<Rightarrow> case read_all ns c1 of (t, c2) \<Rightarrow> (s @ t, c2))"

subsection \<open>WebSockets\<close>

text \<open>
  What one upgraded connection brings: whether hijacking and the stream work, the bytes the visitor sends
  (of which the HTTP server has already buffered some), the bytes the local service sends, how much of them
  the reader of the response has buffered beyond the response, and where each of the final copies stops.
\<close>

record ws_env =
  ws_hijacker :: bool
  ws_hijack_ok :: bool
  ws_open_ok :: bool
  ws_request_ok :: bool
  ws_reply_ok :: bool
  ws_flush_ok :: bool
  ws_visitor :: string
  ws_visitor_buffered :: nat
  ws_service :: string
  ws_service_buffered :: nat
  ws_copied_to_visitor :: nat
  ws_copied_to_service :: nat

record ws_result =
  wr_to_visitor :: string
  wr_to_service :: string
  wr_error :: "int option"

definition rewrite_origin :: "string \<Rightarrow> (string \<rightharpoonup> string list) \<Rightarrow> (string \<rightharpoonup> string list)" where
  "rewrite_origin local h = (if header_Get ''Origin'' h \<noteq> [] then header_Set ''Origin'' (''http://localhost:'' @ local) h else h)"

text \<open>
  \<open>read_resp\<close> splits what the service sends into the response and the rest; \<open>render_req\<close> and \<open>render_resp\<close>
  are \<open>Request.Write\<close> and \<open>Response.Write\<close>.
\<close>

definition proxyWebSocket ::
    "(http_request \<Rightarrow> string) \<Rightarrow> (string \<Rightarrow> ('resp \<times> string) option) \<Rightarrow> ('resp \<Rightarrow> string) \<Rightarrow> string \<Rightarrow> http_request \<Rightarrow> ws_env \<Rightarrow> ws_result" where
  "proxyWebSocket render_req read_resp render_resp local r env =
     (let nothing = \<lparr>wr_to_visitor = [], wr_to_service = [], wr_error = None\<rparr> in
      if \<not> ws_hijacker env then nothing\<lparr>wr_error := Some 500\<rparr>
      else if \<not> ws_hijack_ok env \<or> \<not> ws_open_ok env then nothing
      else
        let r1 = r\<lparr>hr_Header := rewrite_origin local (hr_Header r)\<rparr> in
        if \<not> ws_request_ok env then nothing
        else
          let n = min (ws_visitor_buffered env) (length (ws_visitor env));
              buffered = take n (ws_visitor env);
              to_service = render_req r1 @ (if n > 0 then buffered else [])
          in case read_resp (ws_service env) of
               None \<Rightarrow> nothing\<lparr>wr_to_service := to_service\<rparr>
             | Some (resp, rest) \<Rightarrow>
                 if \<not> ws_reply_ok env then nothing\<lparr>wr_to_service := to_service\<rparr>
                 else
                   let k = min (ws_service_buffered env) (length rest);
                       flushed = (if k > 0 then take k rest else [])
                   in if k > 0 \<and> \<not> ws_flush_ok env
                      then nothing\<lparr>wr_to_service := to_service, wr_to_visitor := render_resp resp\<rparr>
                      else \<lparr>wr_to_visitor = render_resp resp @ flushed @ take (ws_copied_to_visitor env) (drop k rest),
                            wr_to_service = to_service @ take (ws_copied_to_service env) (drop n (ws_visitor env)),
                            wr_error = None\<rparr>)"

subsection \<open>Properties\<close>

lemma take_take_drop: "take k xs @ take m (drop k xs) = take (k + m) xs"
  by (simp add: take_add)

text \<open>
  A WebSocket connection loses nothing at the seams: whatever was buffered while the upgrade was read, on
  either side, the visitor receives the response followed by the service's bytes from the first one on, in
  order and without a gap, and the service receives the rewritten request followed by the visitor's bytes in
  the same way, up to where the copying stopped.
\<close>

theorem websocket_seams_lossless:
  assumes "ws_hijacker env" and "ws_hijack_ok env" and "ws_open_ok env" and "ws_request_ok env" and "ws_reply_ok env"
    and "ws_flush_ok env" and "read_resp (ws_service env) = Some (resp, rest)"
  shows "\<exists>i j. wr_to_visitor (proxyWebSocket render_req read_resp render_resp local r env) = render_resp resp @ take i rest \<and>
    wr_to_service (proxyWebSocket render_req read_resp render_resp local r env) =
      render_req (r\<lparr>hr_Header := rewrite_origin local (hr_Header r)\<rparr>) @ take j (ws_visitor env) \<and>
    min (ws_service_buffered env) (length rest) \<le> i \<and> min (ws_visitor_buffered env) (length (ws_visitor env)) \<le> j \<and>
    (length rest \<le> ws_copied_to_visitor env \<longrightarrow> take i rest = rest) \<and>
    (length (ws_visitor env) \<le> ws_copied_to_service env \<longrightarrow> take j (ws_visitor env) = ws_visitor env)"
proof -
  let ?k = "min (ws_service_buffered env) (length rest)" and ?n = "min (ws_visitor_buffered env) (length (ws_visitor env))"
  let ?i = "?k + ws_copied_to_visitor env" and ?j = "?n + ws_copied_to_service env"
  have "(if ?k > 0 then take ?k rest else []) = take ?k rest" "(if ?n > 0 then take ?n (ws_visitor env) else []) = take ?n (ws_visitor env)"
    by auto
  then show ?thesis using assms
    by (intro exI [of _ ?i] exI [of _ ?j]) (simp add: proxyWebSocket_def Let_def take_take_drop)
qed

definition demo_ws :: ws_env where
  "demo_ws = \<lparr>ws_hijacker = True, ws_hijack_ok = True, ws_open_ok = True, ws_request_ok = True, ws_reply_ok = True,
     ws_flush_ok = True, ws_visitor = ''hello'', ws_visitor_buffered = 2, ws_service = ''101:open'', ws_service_buffered = 3,
     ws_copied_to_visitor = 100, ws_copied_to_service = 100\<rparr>"

theorem websocket_seams_lossless_witness:
  "wr_to_visitor (proxyWebSocket hr_Path (\<lambda>s. Some (take 4 s, drop 4 s)) id ''3000''
     \<lparr>hr_Method = ''GET'', hr_Host = ''h'', hr_Path = ''/ws'', hr_RemoteAddr = [], hr_Header = Map.empty\<rparr> demo_ws) = ''101:open''"
  using websocket_seams_lossless [of demo_ws "\<lambda>s. Some (take 4 s, drop 4 s)" "''101:''" "''open''" hr_Path id "''3000''"
      "\<lparr>hr_Method = ''GET'', hr_Host = ''h'', hr_Path = ''/ws'', hr_RemoteAddr = [], hr_Header = Map.empty\<rparr>"]
  by (auto simp: demo_ws_def)

text \<open>
  No stream stays open: a failed round trip leaves none, and after a successful one the closing of the body
  closes the stream and adds exactly what was read to the tunnel's count.
\<close>

lemma read_all_counts:
  "read_all ns c = (s, c') \<Longrightarrow> sc_read c' = sc_read c + int (length s) \<and> sc_stream c' = sc_stream c \<and> s @ sc_body c' = sc_body c"
  by (induction ns arbitrary: c s c') (fastforce simp: closer_Read_def split: prod.splits)+

lemma round_trip_closes:
  "RoundTrip env = (Inl e, st) \<Longrightarrow> st \<noteq> StreamOpen"
  "RoundTrip env = (Inr c, st) \<Longrightarrow> read_all ns c = (s, c') \<Longrightarrow>
     closer_Close ident sub c' tm = (c2, tm2) \<Longrightarrow>
     sc_stream c2 = StreamClosed \<and> tm2 = count_http_bytes ident sub (int (length s)) tm"
  using read_all_counts
  by (auto simp: RoundTrip_def closer_Close_def split: option.splits sum.splits)

text \<open>
  The server of one connection never returns: after the connection has been accepted, \<open>Accept\<close> blocks, and
  nothing closes the listener, so the goroutine of every HTTPS connection stays for ever.
\<close>

lemma serve_blocks: "serve_accepts n \<lparr>sl_chan = None, sl_closed = False\<rparr> = ([], False)"
  by (induction n) (simp_all add: single_Accept_def)

lemma single_serve_never_returns: "0 < n \<Longrightarrow> serve_accepts n (newSingleConnListener c) = ([c], False)"
  by (cases n) (simp_all add: newSingleConnListener_def single_Accept_def serve_blocks)

end
