(* ===== verification/Wire.thy ===== *)
theory Wire
  imports Codec_Proofs Server_Proofs
begin

text \<open>
  The messages of \<open>internal/protocol/message.go\<close> as they go over the wire, the frames in which the server
  sends its answers, and the dispatch of the control loop (\<open>handleControlSession\<close>). \<open>encoding/json\<close> is
  the argument \<open>J\<close>: how a message is marshalled, and one reader per type of message. The wording of a
  refusal is the argument \<open>text\<close>; nothing depends on it.
\<close>

subsection \<open>Messages\<close>

record auth_response_msg =
  ar_Success :: bool
  ar_Message :: string

record tunnel_response_msg =
  tr_Success :: bool
  tr_URL :: string
  tr_RemotePort :: int
  tr_Message :: string

record register_response_msg =
  rr_Success :: bool
  rr_Key :: string
  rr_Subdomains :: "string list"
  rr_Message :: string

record account_info_resp_msg =
  ai_Name :: string
  ai_Subdomains :: "string list"
  ai_MaxTunnels :: int
  ai_Domain :: string

datatype message =
    AuthM auth_msg
  | AuthResponseM auth_response_msg
  | TunnelRequestM tunnel_request
  | TunnelResponseM tunnel_response_msg
  | RegisterM register_msg
  | RegisterResponseM register_response_msg
  | AccountInfoRespM account_info_resp_msg
  | RequestLogM request_log_msg

record wire_json =
  wj_marshal :: "message \<Rightarrow> string + bytes"
  wj_auth :: "bytes \<Rightarrow> auth_msg option"
  wj_auth_response :: "bytes \<Rightarrow> auth_response_msg option"
  wj_tunnel_request :: "bytes \<Rightarrow> tunnel_request option"
  wj_tunnel_response :: "bytes \<Rightarrow> tunnel_response_msg option"
  wj_register :: "bytes \<Rightarrow> register_msg option"
  wj_register_response :: "bytes \<Rightarrow> register_response_msg option"
  wj_account_info :: "bytes \<Rightarrow> account_info_resp_msg option"
  wj_request_log :: "bytes \<Rightarrow> request_log_msg option"

text \<open>
  What a conversation needs of \<open>encoding/json\<close> for one message: it is marshalled to a payload a frame
  can hold, and the payload reads back as the message.
\<close>

fun reads_back :: "wire_json \<Rightarrow> message \<Rightarrow> bytes \<Rightarrow> bool" where
  "reads_back J (AuthM m) p = (wj_auth J p = Some m)"
| "reads_back J (AuthResponseM m) p = (wj_auth_response J p = Some m)"
| "reads_back J (TunnelRequestM m) p = (wj_tunnel_request J p = Some m)"
| "reads_back J (TunnelResponseM m) p = (wj_tunnel_response J p = Some m)"
| "reads_back J (RegisterM m) p = (wj_register J p = Some m)"
| "reads_back J (RegisterResponseM m) p = (wj_register_response J p = Some m)"
| "reads_back J (AccountInfoRespM m) p = (wj_account_info J p = Some m)"
| "reads_back J (RequestLogM m) p = (wj_request_log J p = Some m)"

definition carries :: "wire_json \<Rightarrow> message \<Rightarrow> bool" where
  "carries J m =
     (case wj_marshal J m of
        Inl e \<Rightarrow> False
      | Inr p \<Rightarrow> int (length p) \<le> MaxMessageSize \<and> reads_back J m p)"

subsection \<open>The server's answers\<close>

fun reply_of :: "(response \<Rightarrow> string) \<Rightarrow> response \<Rightarrow> msg_type \<times> message option" where
  "reply_of text (AuthResponse ok) =
     (MsgAuthResponse, Some (AuthResponseM
        \<lparr>ar_Success = ok, ar_Message = (if ok then ''authenticated'' else text (AuthResponse ok))\<rparr>))"
| "reply_of text RegistrationDisabled =
     (MsgRegisterResp, Some (RegisterResponseM
        \<lparr>rr_Success = False, rr_Key = [], rr_Subdomains = [], rr_Message = text RegistrationDisabled\<rparr>))"
| "reply_of text InvalidRegistration =
     (MsgRegisterResp, Some (RegisterResponseM
        \<lparr>rr_Success = False, rr_Key = [], rr_Subdomains = [], rr_Message = text InvalidRegistration\<rparr>))"
| "reply_of text (RegistrationFailed e) =
     (MsgRegisterResp, Some (RegisterResponseM
        \<lparr>rr_Success = False, rr_Key = [], rr_Subdomains = [], rr_Message = text (RegistrationFailed e)\<rparr>))"
| "reply_of text (Registered key subs) =
     (MsgRegisterResp, Some (RegisterResponseM
        \<lparr>rr_Success = True, rr_Key = key, rr_Subdomains = subs, rr_Message = []\<rparr>))"
| "reply_of text (TunnelError e) =
     (MsgTunnelResp, Some (TunnelResponseM
        \<lparr>tr_Success = False, tr_URL = [], tr_RemotePort = 0, tr_Message = text (TunnelError e)\<rparr>))"
| "reply_of text (HTTPTunnel url) =
     (MsgTunnelResp, Some (TunnelResponseM
        \<lparr>tr_Success = True, tr_URL = url, tr_RemotePort = 0, tr_Message = []\<rparr>))"
| "reply_of text (TCPTunnel port) =
     (MsgTunnelResp, Some (TunnelResponseM
        \<lparr>tr_Success = True, tr_URL = [], tr_RemotePort = port, tr_Message = []\<rparr>))"
| "reply_of text (AccountInfo name subs n domain) =
     (MsgAccountInfoResp, Some (AccountInfoRespM
        \<lparr>ai_Name = name, ai_Subdomains = subs, ai_MaxTunnels = n, ai_Domain = domain\<rparr>))"
| "reply_of text HeartbeatAck = (MsgHeartbeatAck, None)"

text \<open>The bytes \<open>enc.Encode\<close> puts on a connection that takes them.\<close>

definition reply_bytes :: "wire_json \<Rightarrow> (response \<Rightarrow> string) \<Rightarrow> response \<Rightarrow> bytes" where
  "reply_bytes J text r =
     (case reply_of text r of (t, m) \<Rightarrow> fst (Encode (wj_marshal J) buffer_write [] t m))"

subsection \<open>The control loop\<close>

text \<open>
  One message of the loop in \<open>handleControlSession\<close>: the answer, if there is one, and the server
  afterwards. A request that does not parse and a message of another type are only logged.
\<close>

definition control_message ::
    "'l limiter_api \<Rightarrow> wire_json \<Rightarrow> string list \<Rightarrow> int list \<Rightarrow> (nat \<Rightarrow> nat) \<Rightarrow> (nat \<Rightarrow> nat \<Rightarrow> nat) \<Rightarrow>
     (nat \<Rightarrow> tcp_attempt) \<Rightarrow> time \<Rightarrow> nat \<Rightarrow> string \<Rightarrow> msg_type \<times> bytes \<Rightarrow> ('h, 'l) server \<Rightarrow>
     response option \<times> ('h, 'l) server" where
  "control_message L J oh ot rnd rnds att now y token m s =
     (case m of (t, raw) \<Rightarrow>
        if t = MsgHeartbeat then (Some HeartbeatAck, s)
        else if t = MsgAccountInfo then (Some (handleAccountInfo token s), s)
        else if t = MsgTunnelReq then
          (case wj_tunnel_request J raw of
             None \<Rightarrow> (None, s)
           | Some req \<Rightarrow>
               (case handleTunnelRequest L oh ot rnd rnds att now y token req s of (r, s') \<Rightarrow> (Some r, s')))
        else (None, s))"

text \<open>
  What the client of a control stream reads after writing \<open>w\<close> on it: the answer to its message, and an
  error \<open>e\<close> of the transport behind it.
\<close>

definition control_peer ::
    "'l limiter_api \<Rightarrow> wire_json \<Rightarrow> (response \<Rightarrow> string) \<Rightarrow> string list \<Rightarrow> int list \<Rightarrow> (nat \<Rightarrow> nat) \<Rightarrow>
     (nat \<Rightarrow> nat \<Rightarrow> nat) \<Rightarrow> (nat \<Rightarrow> tcp_attempt) \<Rightarrow> time \<Rightarrow> nat \<Rightarrow> string \<Rightarrow> ('h, 'l) server \<Rightarrow> io_err \<Rightarrow> bytes \<Rightarrow> reader" where
  "control_peer L J text oh ot rnd rnds att now y token s e w =
     \<lparr>rd_data =
        (case Decode \<lparr>rd_data = w, rd_end = EOF\<rparr> of
           (Inl err, d) \<Rightarrow> []
         | (Inr m, d) \<Rightarrow>
             (case control_message L J oh ot rnd rnds att now y token m s of
                (None, s') \<Rightarrow> []
              | (Some r, s') \<Rightarrow> reply_bytes J text r)),
      rd_end = e\<rparr>"

text \<open>The same for the raw connection, on which \<open>handleConnection\<close> reads the first frame.\<close>

definition first_frame :: "bytes \<Rightarrow> (msg_type \<times> bytes) option" where
  "first_frame w =
     (case Decode \<lparr>rd_data = w, rd_end = EOF\<rparr> of (Inl e, d) \<Rightarrow> None | (Inr m, d) \<Rightarrow> Some m)"

definition connection_reply :: "wire_json \<Rightarrow> (response \<Rightarrow> string) \<Rightarrow> conn_outcome \<Rightarrow> bytes" where
  "connection_reply J text out =
     (case out of
        Dropped \<Rightarrow> []
      | Answered r \<Rightarrow> reply_bytes J text r
      | Session token \<Rightarrow> reply_bytes J text (AuthResponse True))"

definition connection_peer ::
    "'h bcrypt_api \<Rightarrow> 'l limiter_api \<Rightarrow> json_api \<Rightarrow> wire_json \<Rightarrow> (response \<Rightarrow> string) \<Rightarrow> string list \<Rightarrow> (nat \<Rightarrow> nat) \<Rightarrow>
     write_outcome \<Rightarrow> connection \<Rightarrow> ('h, 'l) server \<Rightarrow> io_err \<Rightarrow> bytes \<Rightarrow> reader" where
  "connection_peer B L K J text ord rnd wo c s e w =
     \<lparr>rd_data = connection_reply J text
        (fst (handleConnection B L K (wj_auth J) (wj_register J) ord rnd wo (c\<lparr>cn_first := first_frame w\<rparr>) s)),
      rd_end = e\<rparr>"

subsection \<open>Frames of messages that can be carried\<close>

lemma carriesE:
  assumes "carries J m"
  obtains p where "wj_marshal J m = Inr p" "int (length p) \<le> MaxMessageSize" "reads_back J m p"
  using assms by (auto simp: carries_def split: sum.splits)

lemma Encode_carried:
  "wj_marshal J m = Inr p \<Longrightarrow> Encode (wj_marshal J) buffer_write w t (Some m) = (w @ frame t p, None)"
  by (rule Encode_buffer) simp

lemma Encode_empty: "Encode f buffer_write w t None = (w @ frame t [], None)"
  by (rule Encode_buffer) simp

lemma Decode_carried:
  assumes "int (length p) \<le> MaxMessageSize"
  shows "Decode \<lparr>rd_data = frame t p @ rest, rd_end = e\<rparr> = (Inr (t, p), \<lparr>rd_data = rest, rd_end = e\<rparr>)"
  using Decode_frame_ok [of t p "\<lparr>rd_data = frame t p @ rest, rd_end = e\<rparr>" rest] assms
  by (simp add: frame_ok_def)

lemma Decode_carried_only:
  "int (length p) \<le> MaxMessageSize \<Longrightarrow>
     Decode \<lparr>rd_data = frame t p, rd_end = e\<rparr> = (Inr (t, p), \<lparr>rd_data = [], rd_end = e\<rparr>)"
  using Decode_carried [of p t "[]" e] by simp

lemma first_frame_carried: "int (length p) \<le> MaxMessageSize \<Longrightarrow> first_frame (frame t p) = Some (t, p)"
  by (simp add: first_frame_def Decode_carried_only)

lemma reply_bytes_carried:
  "reply_of text r = (t, Some m) \<Longrightarrow> wj_marshal J m = Inr p \<Longrightarrow> reply_bytes J text r = frame t p"
  by (simp add: reply_bytes_def Encode_carried)

lemma Decode_nothing: "Decode \<lparr>rd_data = [], rd_end = e\<rparr> = (Inl (ReadLength e), \<lparr>rd_data = [], rd_end = e\<rparr>)"
  by (simp add: Decode_def ReadFull_def)

end
