(* ===== verification/Client.thy ===== *)
theory Client
  imports Wire
begin

text \<open>
  The client: connecting and asking for a tunnel (\<open>internal/client/client.go\<close>, \<open>tunnel.go\<close>), the
  reconnecting loop and the heartbeat (\<open>reconnect.go\<close>). A stream is a writer (its state \<open>'w\<close> and the write
  operation) together with its peer: what can be read once the writer is in a given state. Dialling, yamux
  and the waiting of \<open>select\<close> are arguments.
\<close>

subsection \<open>The control connection\<close>

record client_config =
  cc_ServerAddr :: string
  cc_Token :: string

text \<open>A pointer to something that can be closed: \<open>nil\<close>, open or closed.\<close>

datatype handle = NilHandle | OpenHandle | ClosedHandle

record client =
  cl_cfg :: client_config
  cl_conn :: handle
  cl_session :: handle

definition NewClient :: "client_config \<Rightarrow> client" where
  "NewClient cfg = \<lparr>cl_cfg = cfg, cl_conn = NilHandle, cl_session = NilHandle\<rparr>"

datatype client_error =
    DialFailed string
  | SendFailed encode_error
  | ReadFailed decode_error
  | UnexpectedType msg_type
  | BadResponse
  | AuthFailed string
  | YamuxFailed string
  | OpenFailed string
  | RequestFailed string
  | UnknownType string

record 'w link =
  lk_start :: 'w
  lk_write :: "'w \<Rightarrow> bytes \<Rightarrow> 'w \<times> io_err option"
  lk_peer :: "'w \<Rightarrow> reader"

text \<open>
  One question and its answer: encode, decode, check the type, unmarshal. With the result comes what is
  left to read.
\<close>

definition exchange ::
    "wire_json \<Rightarrow> (bytes \<Rightarrow> 'r option) \<Rightarrow> 'w link \<Rightarrow> msg_type \<Rightarrow> message option \<Rightarrow> msg_type \<Rightarrow> (client_error + 'r) \<times> reader" where
  "exchange J un lk t m want =
     (case Encode (wj_marshal J) (lk_write lk) (lk_start lk) t m of
        (w, Some e) \<Rightarrow> (Inl (SendFailed e), lk_peer lk w)
      | (w, None) \<Rightarrow>
          (case Decode (lk_peer lk w) of
             (Inl e, d) \<Rightarrow> (Inl (ReadFailed e), d)
           | (Inr (mt, raw), d) \<Rightarrow>
               if mt \<noteq> want then (Inl (UnexpectedType mt), d)
               else case un raw of None \<Rightarrow> (Inl BadResponse, d) | Some v \<Rightarrow> (Inr v, d)))"

text \<open>What \<open>Connect\<close> meets: the dialled connection, yamux, and the control stream.\<close>

record 'w dial_env =
  de_dial :: "string + 'w link"
  de_yamux :: "string option"
  de_control :: "string option"

definition Connect :: "wire_json \<Rightarrow> 'w dial_env \<Rightarrow> client \<Rightarrow> client_error option \<times> client" where
  "Connect J env c =
     (case de_dial env of
        Inl e \<Rightarrow> (Some (DialFailed e), c)
      | Inr lk \<Rightarrow>
          let c1 = c\<lparr>cl_conn := OpenHandle\<rparr>; failed = (\<lambda>e. (Some e, c1\<lparr>cl_conn := ClosedHandle\<rparr>)) in
          (case exchange J (wj_auth_response J) lk MsgAuth (Some (AuthM \<lparr>am_Token = cc_Token (cl_cfg c)\<rparr>))
                  MsgAuthResponse of
             (Inl e, d) \<Rightarrow> failed e
           | (Inr resp, d) \<Rightarrow>
               if \<not> ar_Success resp then failed (AuthFailed (ar_Message resp))
               else case de_yamux env of
                 Some e \<Rightarrow> failed (YamuxFailed e)
               | None \<Rightarrow>
                   let c2 = c1\<lparr>cl_session := OpenHandle\<rparr> in
                   (case de_control env of
                      Some e \<Rightarrow> (Some (OpenFailed e), c2\<lparr>cl_session := ClosedHandle\<rparr>)
                    | None \<Rightarrow> (None, c2))))"

definition client_Close :: "client \<Rightarrow> client" where
  "client_Close c =
     (let c1 = (if cl_session c \<noteq> NilHandle then c\<lparr>cl_session := ClosedHandle\<rparr> else c) in
      if cl_conn c1 \<noteq> NilHandle then c1\<lparr>cl_conn := ClosedHandle\<rparr> else c1)"

text \<open>yamux owns the connection it was given, so closing the session closes the connection.\<close>

definition released :: "client \<Rightarrow> bool" where
  "released c \<longleftrightarrow> cl_session c \<noteq> OpenHandle \<and> (cl_conn c = OpenHandle \<longrightarrow> cl_session c = ClosedHandle)"

subsection \<open>Requests on the control stream\<close>

record tunnel_info =
  ti_URL :: string
  ti_RemotePort :: int
  ti_LocalPort :: int

definition tunnel_exchange ::
    "wire_json \<Rightarrow> 'w link \<Rightarrow> tunnel_request \<Rightarrow> (client_error + tunnel_response_msg) \<times> reader" where
  "tunnel_exchange J lk req =
     (case exchange J (wj_tunnel_response J) lk MsgTunnelReq (Some (TunnelRequestM req)) MsgTunnelResp of
        (Inl e, d) \<Rightarrow> (Inl e, d)
      | (Inr resp, d) \<Rightarrow> if \<not> tr_Success resp then (Inl (RequestFailed (tr_Message resp)), d) else (Inr resp, d))"

definition RequestHTTPTunnel ::
    "wire_json \<Rightarrow> 'w link \<Rightarrow> int \<Rightarrow> string \<Rightarrow> (client_error + tunnel_info) \<times> reader" where
  "RequestHTTPTunnel J lk localPort subdomain =
     (case tunnel_exchange J lk \<lparr>rq_Type = TunnelHTTP, rq_Subdomain = subdomain, rq_LocalPort = localPort\<rparr> of
        (Inl e, d) \<Rightarrow> (Inl e, d)
      | (Inr resp, d) \<Rightarrow> (Inr \<lparr>ti_URL = tr_URL resp, ti_RemotePort = 0, ti_LocalPort = localPort\<rparr>, d))"

definition RequestTCPTunnel :: "wire_json \<Rightarrow> 'w link \<Rightarrow> int \<Rightarrow> (client_error + tunnel_info) \<times> reader" where
  "RequestTCPTunnel J lk localPort =
     (case tunnel_exchange J lk \<lparr>rq_Type = TunnelTCP, rq_Subdomain = [], rq_LocalPort = localPort\<rparr> of
        (Inl e, d) \<Rightarrow> (Inl e, d)
      | (Inr resp, d) \<Rightarrow> (Inr \<lparr>ti_URL = [], ti_RemotePort = tr_RemotePort resp, ti_LocalPort = localPort\<rparr>, d))"

definition GetAccountInfo :: "wire_json \<Rightarrow> 'w link \<Rightarrow> client_error + account_info_resp_msg" where
  "GetAccountInfo J lk = fst (exchange J (wj_account_info J) lk MsgAccountInfo None MsgAccountInfoResp)"

subsection \<open>Serving\<close>

text \<open>
  \<open>ServeTunnel\<close> over the outcomes of \<open>AcceptStream\<close>: a stream is handed to a goroutine of its own, an
  error ends the loop, silently when the context has been cancelled. With every error comes whether it
  was. A loop whose outcomes run out is still waiting (\<open>None\<close>).
\<close>

datatype accept_outcome = Accepted nat | AcceptError string bool

fun ServeTunnel :: "accept_outcome list \<Rightarrow> nat list \<times> string option option" where
  "ServeTunnel [] = ([], None)"
| "ServeTunnel (Accepted s # os) = (case ServeTunnel os of (ss, r) \<Rightarrow> (s # ss, r))"
| "ServeTunnel (AcceptError e cancelled # os) = ([], Some (if cancelled then None else Some e))"

subsection \<open>Heartbeats\<close>

definition heartbeatInterval :: duration where "heartbeatInterval = 30 * second"
definition maxHeartbeatMisses :: nat where "maxHeartbeatMisses = 3"
definition baseBackoff :: duration where "baseBackoff = 1 * second"
definition maxBackoff :: duration where "maxBackoff = 60 * second"

text \<open>
  What the \<open>select\<close> of \<open>runHeartbeat\<close> finds ready, in the order in which it takes it: the end of the
  context, a message or an error from the reading goroutine, or a tick of the ticker together with the
  outcome of sending the heartbeat.
\<close>

datatype hb_event = CtxDone | CtrlMsg "decode_error + msg_type \<times> bytes" | Tick "encode_error option"

datatype hb_result = Beating nat | HbStopped | HbReadFailed decode_error | HbSendFailed encode_error | HbDead nat

fun hb_step :: "nat \<Rightarrow> hb_event \<Rightarrow> hb_result" where
  "hb_step misses CtxDone = HbStopped"
| "hb_step misses (CtrlMsg (Inl e)) = HbReadFailed e"
| "hb_step misses (CtrlMsg (Inr (t, raw))) = (if t = MsgHeartbeatAck then Beating 0 else Beating misses)"
| "hb_step misses (Tick (Some e)) = HbSendFailed e"
| "hb_step misses (Tick None) =
     (if misses + 1 \<ge> maxHeartbeatMisses then HbDead (misses + 1) else Beating (misses + 1))"

fun runHeartbeat :: "nat \<Rightarrow> hb_event list \<Rightarrow> hb_result" where
  "runHeartbeat misses [] = Beating misses"
| "runHeartbeat misses (ev # evs) =
     (case hb_step misses ev of Beating n \<Rightarrow> runHeartbeat n evs | r \<Rightarrow> r)"

text \<open>The entries of the request log that are shown: those that parse, of messages read before the loop ends.\<close>

fun shown_logs :: "wire_json \<Rightarrow> nat \<Rightarrow> hb_event list \<Rightarrow> request_log_msg list" where
  "shown_logs J misses [] = []"
| "shown_logs J misses (ev # evs) =
     (case hb_step misses ev of
        Beating n \<Rightarrow>
          (case ev of
             CtrlMsg (Inr (t, raw)) \<Rightarrow>
               if t = MsgRequestLog then (case wj_request_log J raw of None \<Rightarrow> [] | Some l \<Rightarrow> [l]) else []
           | _ \<Rightarrow> []) @ shown_logs J n evs
      | _ \<Rightarrow> [])"

subsection \<open>Reconnecting\<close>

record reconnector =
  rc_cfg :: client_config
  rc_tunnelType :: string
  rc_localPort :: int
  rc_subdomain :: string
  rc_version :: string

definition NewReconnector :: "client_config \<Rightarrow> string \<Rightarrow> int \<Rightarrow> string \<Rightarrow> string \<Rightarrow> reconnector" where
  "NewReconnector cfg tunnelType localPort subdomain version =
     \<lparr>rc_cfg = cfg, rc_tunnelType = tunnelType, rc_localPort = localPort, rc_subdomain = subdomain,
      rc_version = version\<rparr>"

definition extractSubdomainFromURL :: "string \<Rightarrow> string" where
  "extractSubdomainFromURL rawURL =
     (let idx = length ''https://''; s = (if length rawURL > idx then drop idx rawURL else rawURL) in
      takeWhile (\<lambda>ch. ch \<noteq> CHR ''.'') s)"

definition minDuration :: "duration \<Rightarrow> duration \<Rightarrow> duration" where
  "minDuration a b = (if a < b then a else b)"

definition requestTunnel :: "wire_json \<Rightarrow> 'w link \<Rightarrow> reconnector \<Rightarrow> (client_error + tunnel_info) \<times> reader" where
  "requestTunnel J lk r =
     (if rc_tunnelType r = ''http'' then RequestHTTPTunnel J lk (rc_localPort r) (rc_subdomain r)
      else if rc_tunnelType r = ''tcp'' then RequestTCPTunnel J lk (rc_localPort r)
      else (Inl (UnknownType (rc_tunnelType r)), lk_peer lk (lk_start lk)))"

text \<open>
  One round of the loop of \<open>Run\<close>: whether the context was cancelled before it, during the wait after a
  failure or by the end of serving, the connection and the control stream.
\<close>

record 'w round =
  ro_cancelled :: bool
  ro_dial :: "'w dial_env"
  ro_control :: "'w link"
  ro_wait_cancelled :: bool
  ro_serve_cancelled :: bool

record run_state =
  rs_r :: reconnector
  rs_backoff :: duration
  rs_attempt :: nat

datatype run_log = Waited duration | Serving tunnel_info | LeftOpen

text \<open>\<open>LeftOpen\<close> would record a client that the round leaves behind with an open connection.\<close>

definition left_open :: "client \<Rightarrow> run_log list" where
  "left_open c = (if released c then [] else [LeftOpen])"

definition failed_round :: "'w round \<Rightarrow> run_state \<Rightarrow> run_log list \<times> bool \<times> run_state" where
  "failed_round ro st =
     (let st1 = st\<lparr>rs_attempt := rs_attempt st + 1\<rparr> in
      if ro_wait_cancelled ro then ([], True, st1)
      else ([Waited (rs_backoff st)], False, st1\<lparr>rs_backoff := minDuration (rs_backoff st * 2) maxBackoff\<rparr>))"

definition run_round :: "wire_json \<Rightarrow> 'w round \<Rightarrow> run_state \<Rightarrow> run_log list \<times> bool \<times> run_state" where
  "run_round J ro st =
     (if ro_cancelled ro then ([], True, st)
      else case Connect J (ro_dial ro) (NewClient (rc_cfg (rs_r st))) of
        (Some e, c) \<Rightarrow> (case failed_round ro st of (l, ret, st1) \<Rightarrow> (left_open c @ l, ret, st1))
      | (None, c) \<Rightarrow>
          (case requestTunnel J (ro_control ro) (rs_r st) of
             (Inl e, d) \<Rightarrow>
               (case failed_round ro st of (l, ret, st1) \<Rightarrow> (left_open (client_Close c) @ l, ret, st1))
           | (Inr info, d) \<Rightarrow>
               let r = rs_r st;
                   r1 = (if rc_tunnelType r = ''http'' \<and> ti_URL info \<noteq> []
                         then r\<lparr>rc_subdomain := extractSubdomainFromURL (ti_URL info)\<rparr> else r);
                   st1 = \<lparr>rs_r = r1, rs_backoff = baseBackoff, rs_attempt = 0\<rparr>
               in (Serving info # left_open (client_Close c), ro_serve_cancelled ro, st1)))"

text \<open>The loop over the rounds the world offers; the second component says whether \<open>Run\<close> returned.\<close>

fun Run :: "wire_json \<Rightarrow> 'w round list \<Rightarrow> run_state \<Rightarrow> run_log list \<times> bool \<times> run_state" where
  "Run J [] st = ([], False, st)"
| "Run J (ro # ros) st =
     (case run_round J ro st of
        (l, True, st1) \<Rightarrow> (l, True, st1)
      | (l, False, st1) \<Rightarrow> (case Run J ros st1 of (l', ret, st2) \<Rightarrow> (l @ l', ret, st2)))"

definition run_start :: "reconnector \<Rightarrow> run_state" where
  "run_start r = \<lparr>rs_r = r, rs_backoff = baseBackoff, rs_attempt = 0\<rparr>"

end
