(* ===== verification/Client_Proofs.thy ===== *)
theory Client_Proofs
  imports Client
begin

text \<open>
  Lemmas on the client: which handles a call leaves open, the course of failing rounds, the heartbeat's
  count, and the conversations of the client with the server over the wire.
\<close>

subsection \<open>Handles\<close>

lemma released_Close: "released (client_Close c)"
  by (simp add: released_def client_Close_def Let_def)

lemma Connect_failed_released:
  "Connect J env (NewClient cfg) = (Some e, c) \<Longrightarrow> released c"
  by (auto simp: Connect_def NewClient_def released_def Let_def split: sum.splits prod.splits option.splits if_splits)

lemma left_open_Close [simp]: "left_open (client_Close c) = []"
  by (simp add: left_open_def released_Close)

lemma left_open_failed: "Connect J env (NewClient cfg) = (Some e, c) \<Longrightarrow> left_open c = []"
  using Connect_failed_released by (simp add: left_open_def)

subsection \<open>Rounds\<close>

text \<open>The reasons a round fails for: no connection, or no tunnel.\<close>

definition round_error :: "wire_json \<Rightarrow> 'w round \<Rightarrow> reconnector \<Rightarrow> client_error option" where
  "round_error J ro r =
     (case fst (Connect J (ro_dial ro) (NewClient (rc_cfg r))) of
        Some e \<Rightarrow> Some e
      | None \<Rightarrow> (case fst (requestTunnel J (ro_control ro) r) of Inl e \<Rightarrow> Some e | Inr info \<Rightarrow> None))"

definition served :: "tunnel_info \<Rightarrow> reconnector \<Rightarrow> reconnector" where
  "served info r =
     (if rc_tunnelType r = ''http'' \<and> ti_URL info \<noteq> []
      then r\<lparr>rc_subdomain := extractSubdomainFromURL (ti_URL info)\<rparr> else r)"

lemma run_round_failed:
  assumes "\<not> ro_cancelled ro" and "round_error J ro (rs_r st) = Some e"
  shows "run_round J ro st = failed_round ro st"
proof (cases "Connect J (ro_dial ro) (NewClient (rc_cfg (rs_r st)))")
  case (Pair a c)
  show ?thesis
  proof (cases a)
    case (Some e')
    then show ?thesis using Pair assms(1) left_open_failed [of J "ro_dial ro" "rc_cfg (rs_r st)" e' c]
      by (simp add: run_round_def split: prod.split)
  next
    case None
    then show ?thesis using Pair assms by (auto simp: run_round_def round_error_def split: prod.splits sum.splits)
  qed
qed

lemma run_round_ok:
  assumes "\<not> ro_cancelled ro" and "fst (Connect J (ro_dial ro) (NewClient (rc_cfg (rs_r st)))) = None"
    and "fst (requestTunnel J (ro_control ro) (rs_r st)) = Inr info"
  shows "run_round J ro st = ([Serving info], ro_serve_cancelled ro, run_start (served info (rs_r st)))"
  using assms
  by (cases "Connect J (ro_dial ro) (NewClient (rc_cfg (rs_r st)))"; cases "requestTunnel J (ro_control ro) (rs_r st)")
    (simp add: run_round_def run_start_def served_def Let_def)

lemma run_round_log:
  "run_round J ro st = (l, ret, st1) \<Longrightarrow> LeftOpen \<notin> set l"
proof -
  assume a: "run_round J ro st = (l, ret, st1)"
  show ?thesis
  proof (cases "ro_cancelled ro")
    case True
    then show ?thesis using a by (auto simp: run_round_def)
  next
    case False
    show ?thesis
    proof (cases "round_error J ro (rs_r st)")
      case (Some e)
      then show ?thesis using run_round_failed [OF False Some] a
        by (auto simp: failed_round_def Let_def split: if_splits)
    next
      case None
      then obtain info where "fst (Connect J (ro_dial ro) (NewClient (rc_cfg (rs_r st)))) = None"
          "fst (requestTunnel J (ro_control ro) (rs_r st)) = Inr info"
        by (auto simp: round_error_def split: option.splits sum.splits)
      then show ?thesis using run_round_ok [OF False] a by auto
    qed
  qed
qed

lemma Run_append:
  "Run J (xs @ ys) st =
     (case Run J xs st of
        (l, True, st1) \<Rightarrow> (l, True, st1)
      | (l, False, st1) \<Rightarrow> (case Run J ys st1 of (l', ret, st2) \<Rightarrow> (l @ l', ret, st2)))"
  by (induction xs arbitrary: st) (auto split: prod.splits bool.splits)

subsection \<open>Backoff\<close>

definition backoff_after :: "nat \<Rightarrow> duration" where
  "backoff_after k = min (2 ^ k * second) maxBackoff"

lemma backoff_after_0: "backoff_after 0 = baseBackoff"
  by (simp add: backoff_after_def baseBackoff_def maxBackoff_def second_def)

lemma backoff_after_Suc: "minDuration (backoff_after k * 2) maxBackoff = backoff_after (Suc k)"
  by (auto simp: backoff_after_def minDuration_def maxBackoff_def second_def min_def)

lemma backoff_bounds: "baseBackoff \<le> backoff_after k" "backoff_after k \<le> maxBackoff"
proof -
  have "(1::int) \<le> 2 ^ k" by simp
  then show "baseBackoff \<le> backoff_after k" "backoff_after k \<le> maxBackoff"
    by (simp_all add: backoff_after_def baseBackoff_def maxBackoff_def second_def)
qed

lemma backoff_capped: "6 \<le> k \<Longrightarrow> backoff_after k = maxBackoff"
proof -
  assume "6 \<le> k"
  then have "(2::int) ^ 6 \<le> 2 ^ k" by (rule power_increasing) simp
  then show ?thesis by (simp add: backoff_after_def maxBackoff_def second_def)
qed

lemma failed_round_wait:
  assumes "\<not> ro_wait_cancelled ro"
  shows "failed_round ro \<lparr>rs_r = r, rs_backoff = backoff_after k, rs_attempt = k\<rparr> =
    ([Waited (backoff_after k)], False, \<lparr>rs_r = r, rs_backoff = backoff_after (Suc k), rs_attempt = Suc k\<rparr>)"
  using assms backoff_after_Suc [of k] by (simp add: failed_round_def Let_def)

definition fails :: "wire_json \<Rightarrow> reconnector \<Rightarrow> 'w round \<Rightarrow> bool" where
  "fails J r ro \<longleftrightarrow> \<not> ro_cancelled ro \<and> \<not> ro_wait_cancelled ro \<and> round_error J ro r \<noteq> None"

lemma Run_failing_from:
  "list_all (fails J r) ros \<Longrightarrow>
   Run J ros \<lparr>rs_r = r, rs_backoff = backoff_after k, rs_attempt = k\<rparr> =
     (map (\<lambda>i. Waited (backoff_after i)) [k..<k + length ros], False,
      \<lparr>rs_r = r, rs_backoff = backoff_after (k + length ros), rs_attempt = k + length ros\<rparr>)"
proof (induction ros arbitrary: k)
  case (Cons ro ros)
  let ?st = "\<lparr>rs_r = r, rs_backoff = backoff_after k, rs_attempt = k\<rparr>"
  from Cons.prems obtain e where ro: "\<not> ro_cancelled ro" "\<not> ro_wait_cancelled ro" "round_error J ro r = Some e"
    by (auto simp: fails_def)
  then have "run_round J ro ?st = ([Waited (backoff_after k)], False,
      \<lparr>rs_r = r, rs_backoff = backoff_after (Suc k), rs_attempt = Suc k\<rparr>)"
    using run_round_failed [of ro J ?st e] failed_round_wait [OF ro(2)] by simp
  moreover have "[k..<k + length (ro # ros)] = k # [Suc k..<Suc k + length ros]" by (simp add: upt_conv_Cons del: upt_Suc)
  ultimately show ?case using Cons.IH [of "Suc k"] Cons.prems by (simp del: upt_Suc)
qed simp

lemma Run_failing:
  "list_all (fails J r) ros \<Longrightarrow>
   Run J ros (run_start r) =
     (map (\<lambda>i. Waited (backoff_after i)) [0..<length ros], False,
      \<lparr>rs_r = r, rs_backoff = backoff_after (length ros), rs_attempt = length ros\<rparr>)"
  using Run_failing_from [of J r ros 0] by (simp add: run_start_def backoff_after_0)

subsection \<open>Heartbeats\<close>

text \<open>The heartbeats sent since the last acknowledgement, and the events that do not end the loop by themselves.\<close>

definition unanswered :: "nat \<Rightarrow> hb_event \<Rightarrow> nat" where
  "unanswered n ev =
     (case ev of
        Tick r \<Rightarrow> n + 1
      | CtrlMsg (Inr (t, raw)) \<Rightarrow> if t = MsgHeartbeatAck then 0 else n
      | _ \<Rightarrow> n)"

definition ordinary :: "hb_event \<Rightarrow> bool" where
  "ordinary ev = (case ev of CtxDone \<Rightarrow> False | CtrlMsg m \<Rightarrow> (case m of Inl e \<Rightarrow> False | Inr x \<Rightarrow> True) | Tick r \<Rightarrow> r = None)"

lemma hb_step_ordinary:
  assumes "ordinary ev" and "n < maxHeartbeatMisses"
  shows "hb_step n ev = (if unanswered n ev \<ge> maxHeartbeatMisses then HbDead maxHeartbeatMisses else Beating (unanswered n ev))"
  using assms
  by (auto simp: ordinary_def unanswered_def maxHeartbeatMisses_def split: hb_event.splits sum.splits prod.splits if_splits)

lemma runHeartbeat_ordinary:
  assumes "list_all ordinary evs" and "n < maxHeartbeatMisses"
  shows "runHeartbeat n evs =
    (if \<exists>k \<le> length evs. foldl unanswered n (take k evs) \<ge> maxHeartbeatMisses
     then HbDead maxHeartbeatMisses else Beating (foldl unanswered n evs))"
  using assms
proof (induction evs arbitrary: n)
  case (Cons ev evs)
  have step: "hb_step n ev =
      (if unanswered n ev \<ge> maxHeartbeatMisses then HbDead maxHeartbeatMisses else Beating (unanswered n ev))"
    using Cons.prems hb_step_ordinary by simp
  have split: "(\<exists>k \<le> length (ev # evs). foldl unanswered n (take k (ev # evs)) \<ge> maxHeartbeatMisses) \<longleftrightarrow>
      (\<exists>k \<le> length evs. foldl unanswered (unanswered n ev) (take k evs) \<ge> maxHeartbeatMisses)"
  proof
    assume "\<exists>k \<le> length (ev # evs). foldl unanswered n (take k (ev # evs)) \<ge> maxHeartbeatMisses"
    then obtain k where k: "k \<le> length (ev # evs)" "foldl unanswered n (take k (ev # evs)) \<ge> maxHeartbeatMisses" by blast
    then obtain j where "k = Suc j" using Cons.prems(2) by (cases k) auto
    then show "\<exists>k \<le> length evs. foldl unanswered (unanswered n ev) (take k evs) \<ge> maxHeartbeatMisses" using k by auto
  next
    assume "\<exists>k \<le> length evs. foldl unanswered (unanswered n ev) (take k evs) \<ge> maxHeartbeatMisses"
    then obtain k where "k \<le> length evs" "foldl unanswered (unanswered n ev) (take k evs) \<ge> maxHeartbeatMisses" by blast
    then show "\<exists>k \<le> length (ev # evs). foldl unanswered n (take k (ev # evs)) \<ge> maxHeartbeatMisses"
      by (intro exI [of _ "Suc k"]) simp
  qed
  show ?case
  proof (cases "unanswered n ev \<ge> maxHeartbeatMisses")
    case True
    then have "\<exists>k \<le> length evs. foldl unanswered (unanswered n ev) (take k evs) \<ge> maxHeartbeatMisses"
      by (intro exI [of _ 0]) simp
    then show ?thesis using step split True by (simp only: runHeartbeat.simps) simp
  next
    case False
    then have "runHeartbeat (unanswered n ev) evs = (if \<exists>k \<le> length evs. foldl unanswered (unanswered n ev) (take k evs) \<ge> maxHeartbeatMisses
        then HbDead maxHeartbeatMisses else Beating (foldl unanswered (unanswered n ev) evs))"
      using Cons.IH [of "unanswered n ev"] Cons.prems by simp
    then show ?thesis unfolding split using step False by simp
  qed
qed simp

end
