(* ===== verification/Client_Properties.thy ===== *)
theory Client_Properties
  imports Client_Proofs Server_Properties
begin

text \<open>
  The properties of the client: how it retries, when it gives a connection up, that it leaves nothing
  open, and that it and the server agree on the outcome of a connection and of a request.
\<close>

subsection \<open>Retrying\<close>

text \<open>
  C19: The client always comes back: however many rounds fail, for whatever reason, it waits 1, 2, 4 and so
  on seconds, never more than a minute, and the first round that gets a connection and a tunnel is
  served; from there it starts over with the shortest wait and asks for the name it was given.
\<close>

theorem client_recovers:
  assumes "list_all (fails J r) ros"
    and "\<not> ro_cancelled ro" and "fst (Connect J (ro_dial ro) (NewClient (rc_cfg r))) = None"
    and "fst (requestTunnel J (ro_control ro) r) = Inr info" and "\<not> ro_serve_cancelled ro"
  shows "Run J (ros @ ro # rest) (run_start r) =
    (case Run J rest (run_start (served info r)) of (l, ret, st) \<Rightarrow>
       (map (\<lambda>i. Waited (min (2 ^ i * second) (60 * second))) [0..<length ros] @ Serving info # l, ret, st))"
proof -
  let ?st = "\<lparr>rs_r = r, rs_backoff = backoff_after (length ros), rs_attempt = length ros\<rparr>"
  have "run_round J ro ?st = ([Serving info], False, run_start (served info r))"
    using run_round_ok [of ro J ?st info] assms by simp
  then show ?thesis
    by (simp add: Run_append Run_failing [OF assms(1)] backoff_after_def maxBackoff_def split: prod.split)
qed

definition refused_dial :: "nat dial_env" where
  "refused_dial = \<lparr>de_dial = Inl ''connection refused'', de_yamux = None, de_control = None\<rparr>"

definition demo_frame :: bytes where
  "demo_frame = [1]"

text \<open>A codec that knows one message of each kind, and a peer that answers with the given frame.\<close>

definition demo_wire :: wire_json where
  "demo_wire = \<lparr>wj_marshal = (\<lambda>_. Inr demo_frame), wj_auth = (\<lambda>_. Some \<lparr>am_Token = []\<rparr>),
     wj_auth_response = (\<lambda>_. Some \<lparr>ar_Success = True, ar_Message = ''authenticated''\<rparr>),
     wj_tunnel_request = (\<lambda>_. None),
     wj_tunnel_response = (\<lambda>_. Some \<lparr>tr_Success = True, tr_URL = ''https://shop.example.com'', tr_RemotePort = 0, tr_Message = []\<rparr>),
     wj_register = (\<lambda>_. None), wj_register_response = (\<lambda>_. None), wj_account_info = (\<lambda>_. None),
     wj_request_log = (\<lambda>_. None)\<rparr>"

definition demo_link :: "msg_type \<Rightarrow> nat link" where
  "demo_link t = \<lparr>lk_start = 0, lk_write = (\<lambda>n bs. (n + length bs, None)),
     lk_peer = (\<lambda>n. \<lparr>rd_data = frame t demo_frame, rd_end = EOF\<rparr>)\<rparr>"

definition down_round :: "nat round" where
  "down_round = \<lparr>ro_cancelled = False, ro_dial = refused_dial, ro_control = demo_link MsgTunnelResp,
     ro_wait_cancelled = False, ro_serve_cancelled = False\<rparr>"

definition up_round :: "nat round" where
  "up_round = down_round\<lparr>ro_dial := \<lparr>de_dial = Inr (demo_link MsgAuthResponse), de_yamux = None, de_control = None\<rparr>\<rparr>"

definition demo_reconnector :: reconnector where
  "demo_reconnector = NewReconnector \<lparr>cc_ServerAddr = ''example.com:4443'', cc_Token = []\<rparr> ''http'' 3000 [] ''1.0''"

definition demo_info :: tunnel_info where
  "demo_info = \<lparr>ti_URL = ''https://shop.example.com'', ti_RemotePort = 0, ti_LocalPort = 3000\<rparr>"

lemma demo_exchange:
  "wj_marshal J = (\<lambda>_. Inr demo_frame) \<Longrightarrow> un demo_frame = Some v \<Longrightarrow>
     exchange J un (demo_link t) mt m t = (Inr v, \<lparr>rd_data = [], rd_end = EOF\<rparr>)"
  by (cases m)
    (simp_all add: exchange_def Encode_def demo_link_def demo_wire_def demo_frame_def Decode_carried_only MaxMessageSize_def)

lemma down_round_fails: "fails demo_wire r down_round"
  by (simp add: fails_def down_round_def round_error_def Connect_def refused_dial_def)

lemma up_round_connects: "fst (Connect demo_wire (ro_dial up_round) (NewClient cfg)) = None"
proof -
  have "exchange demo_wire (wj_auth_response demo_wire) (demo_link MsgAuthResponse) MsgAuth m MsgAuthResponse =
      (Inr \<lparr>ar_Success = True, ar_Message = ''authenticated''\<rparr>, \<lparr>rd_data = [], rd_end = EOF\<rparr>)" for m
    by (rule demo_exchange) (simp_all add: demo_wire_def)
  then show ?thesis by (simp add: up_round_def Connect_def Let_def)
qed

lemma up_round_tunnel: "fst (requestTunnel demo_wire (ro_control up_round) demo_reconnector) = Inr demo_info"
proof -
  have "exchange demo_wire (wj_tunnel_response demo_wire) (demo_link MsgTunnelResp) MsgTunnelReq m MsgTunnelResp =
      (Inr \<lparr>tr_Success = True, tr_URL = ''https://shop.example.com'', tr_RemotePort = 0, tr_Message = []\<rparr>, \<lparr>rd_data = [], rd_end = EOF\<rparr>)" for m
    by (rule demo_exchange) (simp_all add: demo_wire_def)
  then show ?thesis
    by (simp add: requestTunnel_def demo_reconnector_def NewReconnector_def up_round_def down_round_def
        RequestHTTPTunnel_def tunnel_exchange_def demo_info_def)
qed

theorem client_recovers_witness:
  "Run demo_wire [down_round, down_round, up_round] (run_start demo_reconnector) =
    ([Waited (1 * second), Waited (2 * second), Serving demo_info], False,
     run_start (demo_reconnector\<lparr>rc_subdomain := ''shop''\<rparr>))"
proof -
  have s: "served demo_info demo_reconnector = demo_reconnector\<lparr>rc_subdomain := ''shop''\<rparr>"
    by (simp add: served_def demo_info_def demo_reconnector_def NewReconnector_def extractSubdomainFromURL_def)
  have "[0..<length [down_round, down_round]] = [0, 1]" by (simp add: upt_rec)
  moreover have "\<not> ro_cancelled up_round" "\<not> ro_serve_cancelled up_round" by (simp_all add: up_round_def down_round_def)
  ultimately show ?thesis
    using client_recovers [of demo_wire demo_reconnector "[down_round, down_round]" up_round demo_info "[]"]
      down_round_fails up_round_connects up_round_tunnel
    by (simp add: s second_def)
qed

text \<open>
  C30: Whatever happens in its rounds (a refused dial, a failed handshake, a refused tunnel, a lost
  connection, a cancelled wait), the client never leaves a connection open behind it: a failed
  \<open>Connect\<close> closes what it opened, and every other round ends with \<open>Close\<close>.
\<close>

theorem client_never_leaks: "LeftOpen \<notin> set (fst (Run J ros st))"
proof (induction ros arbitrary: st)
  case (Cons ro ros)
  obtain l ret st1 where r: "run_round J ro st = (l, ret, st1)" by (cases "run_round J ro st") auto
  then show ?case using Cons.IH [of st1] run_round_log [OF r] by (auto split: prod.split bool.split)
qed simp

subsection \<open>Heartbeats\<close>

text \<open>
  C36: As long as the stream works, the heartbeat loop declares the connection dead exactly at the third
  heartbeat in a row that no acknowledgement has followed, and otherwise goes on; so a silent server is
  noticed after three ticks of the ticker, whatever else arrives, and an answering one never is.
\<close>

theorem heartbeat_dead_exact:
  assumes "list_all ordinary evs"
  shows "runHeartbeat 0 evs =
    (if \<exists>k \<le> length evs. foldl unanswered 0 (take k evs) \<ge> 3 then HbDead 3 else Beating (foldl unanswered 0 evs))"
  using runHeartbeat_ordinary [OF assms, of 0] by (simp add: maxHeartbeatMisses_def)

theorem heartbeat_dead_exact_witness:
  "runHeartbeat 0 [Tick None, CtrlMsg (Inr (MsgHeartbeatAck, [])), Tick None, Tick None, CtrlMsg (Inr (MsgRequestLog, [])), Tick None] = HbDead 3"
  (is "runHeartbeat 0 ?evs = _")
proof -
  have "\<exists>k \<le> length ?evs. foldl unanswered 0 (take k ?evs) \<ge> 3"
    by (rule exI [of _ 6]) (simp add: unanswered_def msg_type_defs)
  then show ?thesis using heartbeat_dead_exact [of ?evs] by (simp add: ordinary_def)
qed

end
