(* ===== verification/Client_Server.thy ===== *)
theory Client_Server
  imports Client_Properties
begin

text \<open>
  The client and the server together, over the wire: every message goes through \<open>Encode\<close>, the frames
  and \<open>Decode\<close> on its way. The links are those of a connection that works: what the client writes
  arrives, and what it reads is what the server answers.
\<close>

subsection \<open>Connecting\<close>

abbreviation working_link :: "(bytes \<Rightarrow> reader) \<Rightarrow> bytes link" where
  "working_link peer \<equiv> \<lparr>lk_start = [], lk_write = buffer_write, lk_peer = peer\<rparr>"

abbreviation working_dial :: "(bytes \<Rightarrow> reader) \<Rightarrow> bytes dial_env" where
  "working_dial peer \<equiv> \<lparr>de_dial = Inr (working_link peer), de_yamux = None, de_control = None\<rparr>"

lemma exchange_working:
  assumes "(case m of None \<Rightarrow> Inr [] | Some v \<Rightarrow> wj_marshal J v) = Inr p"
  shows "exchange J un (working_link peer) t m want =
    (case Decode (peer (frame t p)) of
       (Inl e, d) \<Rightarrow> (Inl (ReadFailed e), d)
     | (Inr (mt, raw), d) \<Rightarrow>
         if mt \<noteq> want then (Inl (UnexpectedType mt), d)
         else case un raw of None \<Rightarrow> (Inl BadResponse, d) | Some v \<Rightarrow> (Inr v, d))"
  using Encode_buffer [OF assms, of "[]" t] by (simp add: exchange_def)

lemma handleConnection_auth:
  assumes "cn_first c = Some (MsgAuth, raw)" and "un_auth raw = Some m"
  shows "fst (handleConnection B L K un_auth un_reg ord rnd wo c s) =
    (if fst (ip_Allow L (extractIP (cn_addr c)) (cn_now c) (sv_ipLimiter s)) \<and> cn_deadline_ok c
     then if (am_Token m = [] \<and> sc_AllowAnonymous (sv_cfg s) = Some True) \<or> (am_Token m \<noteq> [] \<and> token_valid B s (am_Token m))
          then if cn_reply_ok c \<and> cn_yamux_ok c
               then Session (if am_Token m = [] then anon_token (extractIP (cn_addr c)) else am_Token m)
               else Dropped
          else Answered (AuthResponse False)
     else Dropped)"
proof -
  have "MsgAuth \<noteq> MsgRegister" by (simp add: msg_type_defs)
  then show ?thesis using assms
    by (cases "ip_Allow L (extractIP (cn_addr c)) (cn_now c) (sv_ipLimiter s)")
      (auto simp: handleConnection_def authenticate_def token_valid_def Let_def)
qed

text \<open>
  C15: The two ends agree on who gets in. On a working connection the client's \<open>Connect\<close> succeeds exactly
  when the server, reading the client's own frame, makes a session of it: the address is within its
  rate, and the token is valid, or empty while anonymous use is allowed. Otherwise the client reports an
  error, so no client believes in a session the server does not have, nor under another token.
\<close>

theorem connect_agrees_with_server:
  assumes "carries J (AuthM \<lparr>am_Token = cc_Token cfg\<rparr>)"
    and "carries J (AuthResponseM \<lparr>ar_Success = True, ar_Message = ''authenticated''\<rparr>)"
    and "carries J (AuthResponseM \<lparr>ar_Success = False, ar_Message = text (AuthResponse False)\<rparr>)"
    and "cn_deadline_ok c" and "cn_reply_ok c" and "cn_yamux_ok c"
  shows "(fst (Connect J (working_dial (connection_peer B L K J text ord rnd wo c s e)) (NewClient cfg)) = None \<longleftrightarrow>
      fst (ip_Allow L (extractIP (cn_addr c)) (cn_now c) (sv_ipLimiter s)) \<and>
      (if cc_Token cfg = [] then sc_AllowAnonymous (sv_cfg s) = Some True else token_valid B s (cc_Token cfg))) \<and>
    (fst (Connect J (working_dial (connection_peer B L K J text ord rnd wo c s e)) (NewClient cfg)) = None \<longleftrightarrow>
      fst (handleConnection B L K (wj_auth J) (wj_register J) ord rnd wo
             (c\<lparr>cn_first := first_frame (fst (Encode (wj_marshal J) buffer_write [] MsgAuth
                                (Some (AuthM \<lparr>am_Token = cc_Token cfg\<rparr>))))\<rparr>) s) =
        Session (if cc_Token cfg = [] then anon_token (extractIP (cn_addr c)) else cc_Token cfg))"
    (is "(_ \<longleftrightarrow> ?in) \<and> _")
proof -
  obtain p where p: "wj_marshal J (AuthM \<lparr>am_Token = cc_Token cfg\<rparr>) = Inr p"
      "int (length p) \<le> MaxMessageSize" "wj_auth J p = Some \<lparr>am_Token = cc_Token cfg\<rparr>"
    using carriesE [OF assms(1)] by auto
  obtain q where q: "wj_marshal J (AuthResponseM \<lparr>ar_Success = True, ar_Message = ''authenticated''\<rparr>) = Inr q"
      "int (length q) \<le> MaxMessageSize" "wj_auth_response J q = Some \<lparr>ar_Success = True, ar_Message = ''authenticated''\<rparr>"
    using carriesE [OF assms(2)] by auto
  obtain n where n: "wj_marshal J (AuthResponseM \<lparr>ar_Success = False, ar_Message = text (AuthResponse False)\<rparr>) = Inr n"
      "int (length n) \<le> MaxMessageSize"
      "wj_auth_response J n = Some \<lparr>ar_Success = False, ar_Message = text (AuthResponse False)\<rparr>"
    using carriesE [OF assms(3)] by auto
  let ?peer = "connection_peer B L K J text ord rnd wo c s e"
  have x: "exchange J (wj_auth_response J) (working_link ?peer) MsgAuth (Some (AuthM \<lparr>am_Token = cc_Token cfg\<rparr>)) MsgAuthResponse =
      (case Decode (?peer (frame MsgAuth p)) of
         (Inl e, d) \<Rightarrow> (Inl (ReadFailed e), d)
       | (Inr (mt, raw), d) \<Rightarrow>
           if mt \<noteq> MsgAuthResponse then (Inl (UnexpectedType mt), d)
           else case wj_auth_response J raw of None \<Rightarrow> (Inl BadResponse, d) | Some v \<Rightarrow> (Inr v, d))"
    by (rule exchange_working) (simp add: p)
  have first: "cn_first (c\<lparr>cn_first := first_frame (frame MsgAuth p)\<rparr>) = Some (MsgAuth, p)"
    by (simp add: first_frame_carried p)
  have out: "fst (handleConnection B L K (wj_auth J) (wj_register J) ord rnd wo (c\<lparr>cn_first := first_frame (frame MsgAuth p)\<rparr>) s) =
      (if ?in then Session (if cc_Token cfg = [] then anon_token (extractIP (cn_addr c)) else cc_Token cfg)
       else if fst (ip_Allow L (extractIP (cn_addr c)) (cn_now c) (sv_ipLimiter s)) then Answered (AuthResponse False)
       else Dropped)"
    unfolding handleConnection_auth [where un_auth = "wj_auth J", OF first p(3)] using assms(4-6) by simp
  have yes: "reply_bytes J text (AuthResponse True) = frame MsgAuthResponse q"
    by (rule reply_bytes_carried [OF _ q(1)]) simp
  have no: "reply_bytes J text (AuthResponse False) = frame MsgAuthResponse n"
    by (rule reply_bytes_carried [OF _ n(1)]) simp
  have "?peer (frame MsgAuth p) = \<lparr>rd_data = (if ?in then frame MsgAuthResponse q
      else if fst (ip_Allow L (extractIP (cn_addr c)) (cn_now c) (sv_ipLimiter s)) then frame MsgAuthResponse n else []), rd_end = e\<rparr>"
    by (simp only: connection_peer_def out) (simp add: connection_reply_def yes no)
  then have "fst (Connect J (working_dial ?peer) (NewClient cfg)) = None \<longleftrightarrow> ?in" using x q n
    by (auto simp: Connect_def NewClient_def Decode_carried_only Decode_nothing Let_def)
  moreover have "fst (Encode (wj_marshal J) buffer_write [] MsgAuth (Some (AuthM \<lparr>am_Token = cc_Token cfg\<rparr>))) = frame MsgAuth p"
    by (simp add: Encode_carried p)
  ultimately show ?thesis by (simp only: out) simp
qed

definition bytes_of :: "string \<Rightarrow> bytes" where
  "bytes_of s = map (\<lambda>c. word_of_nat (of_char c)) s"

definition chars_of :: "bytes \<Rightarrow> string" where
  "chars_of bs = map (\<lambda>b. char_of (unat b)) bs"

lemma chars_of_bytes_of [simp]: "chars_of (bytes_of s) = s"
proof -
  have "char_of (unat (word_of_nat (of_char c) :: byte)) = c" for c
  proof -
    have "(of_char c :: nat) < 256" by simp
    then have "unat (word_of_nat (of_char c) :: byte) = of_char c" by (simp add: unsigned_of_nat take_bit_nat_eq_self)
    then show ?thesis by simp
  qed
  then show ?thesis by (simp add: chars_of_def bytes_of_def comp_def map_idI)
qed

text \<open>A codec for short messages: one string field each, a refusal as the empty payload.\<close>

definition tiny_wire :: wire_json where
  "tiny_wire = \<lparr>wj_marshal = (\<lambda>m. case m of AuthM a \<Rightarrow> Inr (bytes_of (am_Token a))
       | AuthResponseM r \<Rightarrow> Inr (if ar_Success r then [1] else [])
       | TunnelRequestM q \<Rightarrow> Inr (bytes_of (rq_Subdomain q))
       | TunnelResponseM r \<Rightarrow> Inr (bytes_of (tr_URL r)) | _ \<Rightarrow> Inl ''not used''),
     wj_auth = (\<lambda>p. Some \<lparr>am_Token = chars_of p\<rparr>),
     wj_auth_response = (\<lambda>p. Some (if p = [] then \<lparr>ar_Success = False, ar_Message = ''no''\<rparr>
       else \<lparr>ar_Success = True, ar_Message = ''authenticated''\<rparr>)),
     wj_tunnel_request = (\<lambda>p. Some \<lparr>rq_Type = TunnelHTTP, rq_Subdomain = chars_of p, rq_LocalPort = 3000\<rparr>),
     wj_tunnel_response = (\<lambda>p. Some (if p = [] then \<lparr>tr_Success = False, tr_URL = [], tr_RemotePort = 0, tr_Message = ''no''\<rparr>
       else \<lparr>tr_Success = True, tr_URL = chars_of p, tr_RemotePort = 0, tr_Message = []\<rparr>)),
     wj_register = (\<lambda>_. None), wj_register_response = (\<lambda>_. None), wj_account_info = (\<lambda>_. None),
     wj_request_log = (\<lambda>_. None)\<rparr>"

lemma tiny_carries_auth: "length t \<le> 1000 \<Longrightarrow> carries tiny_wire (AuthM \<lparr>am_Token = t\<rparr>)"
  by (simp add: carries_def tiny_wire_def MaxMessageSize_def) (simp add: bytes_of_def)

lemma tiny_carries_answers:
  "carries tiny_wire (AuthResponseM \<lparr>ar_Success = True, ar_Message = ''authenticated''\<rparr>)"
  "carries tiny_wire (AuthResponseM \<lparr>ar_Success = False, ar_Message = ''no''\<rparr>)"
  "carries tiny_wire (TunnelResponseM \<lparr>tr_Success = False, tr_URL = [], tr_RemotePort = 0, tr_Message = ''no''\<rparr>)"
  by (simp_all add: carries_def tiny_wire_def MaxMessageSize_def) (simp add: bytes_of_def)

definition demo_connection :: connection where
  "demo_connection = \<lparr>cn_addr = ''10.0.0.1:5000'', cn_now = 3, cn_deadline_ok = True, cn_first = None,
     cn_reply_ok = True, cn_yamux_ok = True\<rparr>"

theorem connect_agrees_with_server_witness:
  "fst (Connect tiny_wire (working_dial (connection_peer rev_bcrypt open_limiter demo_json tiny_wire (\<lambda>_. ''no'') [] (\<lambda>_. 0)
       WriteOk demo_connection demo_server EOF)) (NewClient \<lparr>cc_ServerAddr = ''s:4443'', cc_Token = demo_user\<rparr>)) = None"
proof -
  have ip: "fst (ip_Allow open_limiter ip t l)" for ip t and l :: "unit ip_limiter"
    by (simp add: ip_Allow_def open_limiter_def Let_def)
  have "token_valid rev_bcrypt demo_server demo_user" and "demo_user \<noteq> []"
    using demo_user_props GenerateAPIKey_not_Nil
    by (simp_all add: token_valid_def demo_server_def demo_store_def key_Validate_def demo_user_def demo_key_def)
  moreover have "length demo_user \<le> 1000" using length_GenerateAPIKey by (simp add: demo_user_def)
  ultimately show ?thesis
    using connect_agrees_with_server [OF tiny_carries_auth tiny_carries_answers(1), of
        "\<lparr>cc_ServerAddr = ''s:4443'', cc_Token = demo_user\<rparr>" "\<lambda>_. ''no''" demo_connection rev_bcrypt open_limiter demo_json
        "[]" "\<lambda>_. 0" WriteOk demo_server EOF] tiny_carries_answers(2) ip
    by (simp add: demo_connection_def)
qed

subsection \<open>Asking for a tunnel\<close>

definition request_of :: "reconnector \<Rightarrow> tunnel_request" where
  "request_of r = \<lparr>rq_Type = rc_tunnelType r, rq_Subdomain = (if rc_tunnelType r = ''http'' then rc_subdomain r else []),
     rq_LocalPort = rc_localPort r\<rparr>"

lemma requestTunnel_exchange:
  assumes "rc_tunnelType r = ''http'' \<or> rc_tunnelType r = ''tcp''"
  shows "fst (requestTunnel J lk r) =
    (case fst (tunnel_exchange J lk (request_of r)) of
       Inl e \<Rightarrow> Inl e
     | Inr resp \<Rightarrow> Inr \<lparr>ti_URL = (if rc_tunnelType r = ''http'' then tr_URL resp else []),
         ti_RemotePort = (if rc_tunnelType r = ''http'' then 0 else tr_RemotePort resp), ti_LocalPort = rc_localPort r\<rparr>)"
  using assms
  by (auto simp: requestTunnel_def RequestHTTPTunnel_def RequestTCPTunnel_def request_of_def TunnelHTTP_def TunnelTCP_def
      split: prod.split sum.split)

lemma tunnel_exchange_server:
  assumes "carries J (TunnelRequestM req)"
    and "handleTunnelRequest L oh ot rnd rnds att now y token req s = (resp, s')"
    and "reply_of text resp = (MsgTunnelResp, Some (TunnelResponseM m))" and "carries J (TunnelResponseM m)"
  shows "fst (tunnel_exchange J (working_link (control_peer L J text oh ot rnd rnds att now y token s e)) req) =
    (if tr_Success m then Inr m else Inl (RequestFailed (tr_Message m)))"
proof -
  obtain p where p: "wj_marshal J (TunnelRequestM req) = Inr p" "int (length p) \<le> MaxMessageSize" "wj_tunnel_request J p = Some req"
    using carriesE [OF assms(1)] by auto
  obtain q where q: "wj_marshal J (TunnelResponseM m) = Inr q" "int (length q) \<le> MaxMessageSize" "wj_tunnel_response J q = Some m"
    using carriesE [OF assms(4)] by auto
  have "control_message L J oh ot rnd rnds att now y token (MsgTunnelReq, p) s = (Some resp, s')"
    using p(3) assms(2) by (simp add: control_message_def msg_type_defs)
  then have "control_peer L J text oh ot rnd rnds att now y token s e (frame MsgTunnelReq p) = \<lparr>rd_data = frame MsgTunnelResp q, rd_end = e\<rparr>"
    using reply_bytes_carried [OF assms(3) q(1)] p(2) by (simp add: control_peer_def Decode_carried_only)
  then show ?thesis
    using q p exchange_working [where m = "Some (TunnelRequestM req)" and J = J and p = p and un = "wj_tunnel_response J" and
        peer = "control_peer L J text oh ot rnd rnds att now y token s e" and t = MsgTunnelReq and want = MsgTunnelResp]
    by (simp add: tunnel_exchange_def Decode_carried_only)
qed


definition shop_client :: reconnector where
  "shop_client = NewReconnector \<lparr>cc_ServerAddr = ''s:4443'', cc_Token = demo_user\<rparr> ''http'' 3000 ''shop'' ''1.0''"

lemma shop_client_request: "request_of shop_client = shop_request"
  by (simp add: shop_client_def NewReconnector_def request_of_def shop_request_def TunnelHTTP_def)

lemma tiny_carries_request: "carries tiny_wire (TunnelRequestM shop_request)"
  by (simp add: carries_def tiny_wire_def MaxMessageSize_def shop_request_def) (simp add: bytes_of_def)

lemma demo_shop_url:
  "\<exists>s'. handleTunnelRequest open_limiter [] [] (\<lambda>_. 0) (\<lambda>_ _. 0) calm 9 1 demo_user shop_request demo_server =
     (HTTPTunnel ''https://shop.example.com'', s')"
proof -
  obtain u s' where h: "handleTunnelRequest open_limiter [] [] (\<lambda>_. 0) (\<lambda>_ _. 0) calm 9 1 demo_user shop_request demo_server =
      (HTTPTunnel u, s')" using demo_open_shop by blast
  obtain s1 where a: "admitTunnel open_limiter [] [] 9 demo_user shop_request demo_server = (None, s1)"
    using h by (auto simp: handleTunnelRequest_def split: prod.splits option.splits)
  have "sc_Domain (sv_cfg s1) = ''example.com''" using admitTunnel_ok [OF a] by (simp add: demo_server_def defaults_def)
  then have "u = ''https://shop.example.com''" using h a
    by (auto simp: handleTunnelRequest_def openTunnel_def registerHTTPTunnel_def shop_request_def tunnel_url_def Let_def
        split: prod.splits option.splits)
  then show ?thesis using h by blast
qed


subsection \<open>After a lost connection\<close>

lemma extract_tunnel_url:
  assumes "ValidateSubdomain sub = None"
  shows "extractSubdomainFromURL (tunnel_url sub domain) = sub"
proof -
  have "CHR ''.'' \<notin> set sub" "sub \<noteq> []"
    using assms label_shape_facts(1,5) by (auto simp: ValidateSubdomain_None)
  then have "takeWhile (\<lambda>ch. ch \<noteq> CHR ''.'') (sub @ CHR ''.'' # domain) = sub"
    by (subst takeWhile_append2) auto
  then show ?thesis using \<open>sub \<noteq> []\<close> by (simp add: extractSubdomainFromURL_def tunnel_url_def)
qed

lemma served_name:
  assumes "handleTunnelRequest L oh ot rnd rnds att now y token (request_of r) s = (HTTPTunnel url, s')" and "quiet att"
    and "rc_tunnelType r = ''http''"
  obtains sub where "ValidateSubdomain sub = None" "url = tunnel_url sub (sc_Domain (sv_cfg s))"
    "served \<lparr>ti_URL = url, ti_RemotePort = 0, ti_LocalPort = p\<rparr> r = r\<lparr>rc_subdomain := sub\<rparr>"
proof -
  obtain sub where sub: "url = tunnel_url sub (sc_Domain (sv_cfg s))" "ValidateSubdomain sub = None"
    using handleTunnelRequest_http [OF assms(1,2)] by blast
  then have "url \<noteq> []" by (simp add: tunnel_url_def)
  then show thesis using that sub extract_tunnel_url [OF sub(2)] assms(3) by (simp add: served_def)
qed

text \<open>
  C27: A user who loses the connection comes back under the same address: the client asks for the name of
  the URL it was given, and if that request is admitted and the name is free, the server announces the
  same URL again, whether the name had been chosen by the user or by chance.
\<close>

theorem reconnect_regains_url:
  assumes "handleTunnelRequest L oh ot rnd rnds att now y token (request_of r) s = (HTTPTunnel url, s')" and "quiet att"
    and "rc_tunnelType r = ''http''" and "r' = served \<lparr>ti_URL = url, ti_RemotePort = 0, ti_LocalPort = rc_localPort r\<rparr> r"
    and "admitTunnel L2 oh2 ot2 now2 token (request_of r') s2 = (None, s3)"
    and "httpTunnels (sv_tunnelManager s2) (rc_subdomain r') = None" and "sc_Domain (sv_cfg s2) = sc_Domain (sv_cfg s)"
  shows "fst (handleTunnelRequest L2 oh2 ot2 rnd2 rnds2 att2 now2 y2 token (request_of r') s2) = HTTPTunnel url"
proof -
  obtain sub where sub: "ValidateSubdomain sub = None" "url = tunnel_url sub (sc_Domain (sv_cfg s))"
      "r' = r\<lparr>rc_subdomain := sub\<rparr>"
    using served_name [OF assms(1-3)] assms(4) by metis
  have s3: "sv_tunnelManager s3 = sv_tunnelManager s2" "sv_cfg s3 = sv_cfg s2" using admitTunnel_ok [OF assms(5)] by auto
  have "sub \<noteq> []" using sub(1) label_shape_facts(5) by (auto simp: ValidateSubdomain_None)
  then show ?thesis using assms(3,5-7) sub s3
    by (auto simp: handleTunnelRequest_def openTunnel_def registerHTTPTunnel_def request_of_def RegisterHTTP_def
        TunnelHTTP_def Let_def)
qed

theorem reconnect_regains_url_witness:
  "fst (handleTunnelRequest open_limiter [] [] (\<lambda>_. 1) (\<lambda>_ _. 1) calm 9 2 demo_user
     (request_of (served \<lparr>ti_URL = ''https://shop.example.com'', ti_RemotePort = 0, ti_LocalPort = 3000\<rparr> shop_client)) demo_server) =
   HTTPTunnel ''https://shop.example.com''"
proof -
  let ?r = "served \<lparr>ti_URL = ''https://shop.example.com'', ti_RemotePort = 0, ti_LocalPort = 3000\<rparr> shop_client"
  obtain s' where h: "handleTunnelRequest open_limiter [] [] (\<lambda>_. 0) (\<lambda>_ _. 0) calm 9 1 demo_user (request_of shop_client) demo_server =
      (HTTPTunnel ''https://shop.example.com'', s')" using demo_shop_url by (auto simp: shop_client_request)
  have c: "rc_tunnelType shop_client = ''http''" "rc_localPort shop_client = 3000" "rc_subdomain ?r = ''shop''" "?r = shop_client"
    by (simp_all add: shop_client_def NewReconnector_def served_def extractSubdomainFromURL_def)
  obtain s3 where a: "admitTunnel open_limiter [] [] 9 demo_user (request_of ?r) demo_server = (None, s3)"
    using h by (auto simp: handleTunnelRequest_def c(4) split: prod.splits option.splits)
  have "httpTunnels (sv_tunnelManager demo_server) (rc_subdomain ?r) = None" by (simp add: demo_server_def NewTunnelManager_def)
  then show ?thesis using reconnect_regains_url [OF h quiet_calm c(1) _ a] c(2) by simp
qed

text \<open>
  An anonymous client that loses its connection never gets a tunnel again: after the first grant it
  asks for the name it was given by chance, and the server refuses every named request of an anonymous
  session, in every later state, so all further rounds of the client fail.
\<close>

theorem anonymous_reconnect_refused:
  assumes "handleTunnelRequest L oh ot rnd rnds att now y token (request_of r) s = (HTTPTunnel url, s')" and "quiet att"
    and "rc_tunnelType r = ''http''" and "r' = served \<lparr>ti_URL = url, ti_RemotePort = 0, ti_LocalPort = rc_localPort r\<rparr> r"
    and "is_anon token2"
  shows "handleTunnelRequest L2 oh2 ot2 rnd2 rnds2 att2 now2 y2 token2 (request_of r') s2 = (TunnelError AnonCustomSubdomain, s2)"
proof -
  obtain sub where sub: "ValidateSubdomain sub = None" "r' = r\<lparr>rc_subdomain := sub\<rparr>"
    using served_name [OF assms(1-3)] assms(4) by metis
  have port: "1 \<le> rc_localPort r" "rc_localPort r \<le> 65535"
    using assms(1) by (auto simp: handleTunnelRequest_def admitTunnel_def request_of_def split: if_splits)
  have "sub \<noteq> []" using sub(1) label_shape_facts(5) by (auto simp: ValidateSubdomain_None)
  then show ?thesis using sub assms(3,5) port
    by (simp add: handleTunnelRequest_def admitTunnel_def request_of_def TunnelTCP_def)
qed

definition guest_client :: reconnector where
  "guest_client = NewReconnector \<lparr>cc_ServerAddr = ''s:4443'', cc_Token = []\<rparr> ''http'' 3000 [] ''1.0''"

lemma guest_client_granted:
  "\<exists>url s'. handleTunnelRequest open_limiter [] [] (\<lambda>_. 0) (\<lambda>_ _. 0) calm 9 1 (anon_token ''10.0.0.1'') (request_of guest_client) demo_server =
     (HTTPTunnel url, s')"
proof -
  let ?req = "request_of guest_client" and ?tok = "anon_token ''10.0.0.1''"
  obtain rl where rl: "rate_Allow open_limiter ?tok 9 (sv_rateLimiter demo_server) = (True, rl)" using open_rate by blast
  have req: "?req = \<lparr>rq_Type = TunnelHTTP, rq_Subdomain = [], rq_LocalPort = 3000\<rparr>"
    by (simp add: request_of_def guest_client_def NewReconnector_def TunnelHTTP_def)
  have a: "admitTunnel open_limiter [] [] 9 ?tok ?req demo_server = (None, demo_server\<lparr>sv_rateLimiter := rl\<rparr>)"
    using rl by (simp add: admitTunnel_def req TunnelsForAnon_def incrementTunnels_def TunnelHTTP_def TunnelTCP_def Let_def)
  have "fst (register_random (Suc n) (\<lambda>_ _. 0) 9 t (NewTunnelManager 10000 65535)) = Some (RandomSubdomain (\<lambda>_. 0))" for n t
    using random_valid [of "\<lambda>_. 0"] by (simp add: RegisterHTTP_def NewTunnelManager_def Let_def)
  then have "fst (register_random 10 (\<lambda>_ _. 0) 9 t (NewTunnelManager 10000 65535)) = Some (RandomSubdomain (\<lambda>_. 0))" for t
    by (simp only: eval_nat_numeral)
  then obtain tm where "register_random 10 (\<lambda>_ _. 0) 9 (new_session 1 (\<lambda>_. 0) ?tok ?req) (NewTunnelManager 10000 65535) =
      (Some (RandomSubdomain (\<lambda>_. 0)), tm)" by (metis prod.collapse)
  then show ?thesis
    using a by (simp add: handleTunnelRequest_def openTunnel_def registerHTTPTunnel_def req demo_server_def Let_def)
qed

theorem anonymous_reconnect_refused_witness:
  "\<exists>url s'. handleTunnelRequest open_limiter [] [] (\<lambda>_. 0) (\<lambda>_ _. 0) calm 9 1 (anon_token ''10.0.0.1'') (request_of guest_client) demo_server =
       (HTTPTunnel url, s') \<and>
     fst (handleTunnelRequest open_limiter [] [] (\<lambda>_. 0) (\<lambda>_ _. 0) calm 10 2 (anon_token ''10.0.0.1'')
       (request_of (served \<lparr>ti_URL = url, ti_RemotePort = 0, ti_LocalPort = rc_localPort guest_client\<rparr> guest_client)) demo_server) =
     TunnelError AnonCustomSubdomain"
proof -
  obtain url s' where h: "handleTunnelRequest open_limiter [] [] (\<lambda>_. 0) (\<lambda>_ _. 0) calm 9 1 (anon_token ''10.0.0.1'')
      (request_of guest_client) demo_server = (HTTPTunnel url, s')" using guest_client_granted by blast
  have "rc_tunnelType guest_client = ''http''" by (simp add: guest_client_def NewReconnector_def)
  then show ?thesis using h anonymous_reconnect_refused [OF h quiet_calm _ refl is_anon_anon_token, where ?L2.0 = open_limiter and ?s2.0 = demo_server] by auto
qed

subsection \<open>A request in the middle of a request\<close>

text \<open>
  The tunnel is registered before its response is written, and the log of a proxied request goes to the
  same stream: when a visitor is served in between, the client reads the log first and gives up.
\<close>

lemma log_before_response:
  assumes "wj_marshal J (TunnelRequestM req) = Inr p" and "int (length q) \<le> MaxMessageSize"
    and "rd_data (peer (frame MsgTunnelReq p)) = frame MsgRequestLog q @ rest"
  shows "fst (tunnel_exchange J (working_link peer) req) = Inl (UnexpectedType MsgRequestLog)"
proof -
  obtain e where "peer (frame MsgTunnelReq p) = \<lparr>rd_data = frame MsgRequestLog q @ rest, rd_end = e\<rparr>"
    using assms(3) by (metis reader.surjective old.unit.exhaust)
  moreover have "MsgRequestLog \<noteq> MsgTunnelResp" by (simp add: msg_type_defs)
  ultimately have "exchange J (wj_tunnel_response J) (working_link peer) MsgTunnelReq (Some (TunnelRequestM req)) MsgTunnelResp =
      (Inl (UnexpectedType MsgRequestLog), \<lparr>rd_data = rest, rd_end = e\<rparr>)"
    using Decode_carried [OF assms(2)] assms(1)
    by (subst exchange_working [where p = p]) simp_all
  then show ?thesis by (simp add: tunnel_exchange_def)
qed

end
