(* ===== verification/Cli.thy ===== *)
theory Cli
  imports Client
begin

text \<open>
  The command line client (\<open>cmd/htn-tunnel/main.go\<close>), its saved configuration (\<open>ClientConfig\<close> in
  \<open>internal/config/config.go\<close>) and the browser callback of the login (\<open>auth_callback.go\<close>). What is printed
  is left out; what is read (a line of input, a number typed, the answer of the browser) is an argument,
  and so is the YAML library.
\<close>

subsection \<open>Arguments\<close>

definition parsePort :: "string \<Rightarrow> string + int" where
  "parsePort s =
     (case Atoi s of
        None \<Rightarrow> Inl s
      | Some p \<Rightarrow> if p < 1 \<or> p > 65535 then Inl s else Inr p)"

definition parsePortSubdomain :: "(string \<Rightarrow> string) \<Rightarrow> string \<Rightarrow> string + int \<times> string" where
  "parsePortSubdomain ulow arg =
     (let parts = SplitN2 arg CHR '':'' in
      case Atoi (parts ! 0) of
        None \<Rightarrow> Inl (parts ! 0)
      | Some p \<Rightarrow>
          if p < 1 \<or> p > 65535 then Inl (parts ! 0)
          else Inr (p, if length parts = 2 \<and> parts ! 1 \<noteq> [] then ToLower ulow (parts ! 1) else []))"

text \<open>\<open>splitHostPort\<close> looks for the last colon and never fails.\<close>

fun split_at_last :: "string \<Rightarrow> string \<Rightarrow> (string \<times> string) option" where
  "split_at_last [] acc = None"
| "split_at_last (c # cs) acc =
     (if c = CHR '':'' then Some (rev cs, acc) else split_at_last cs (c # acc))"

definition splitHostPort :: "string \<Rightarrow> string \<times> string" where
  "splitHostPort addr = (case split_at_last (rev addr) [] of None \<Rightarrow> (addr, []) | Some hp \<Rightarrow> hp)"

definition extractHost :: "string \<Rightarrow> string" where
  "extractHost addr = (let host = fst (splitHostPort addr) in if host = [] then addr else host)"

fun join_from :: "bool \<Rightarrow> string \<Rightarrow> string list \<Rightarrow> string" where
  "join_from started acc [] = acc"
| "join_from started acc (s # ss) = join_from True ((if started then acc @ '', '' else acc) @ s) ss"

definition joinOrNone :: "string list \<Rightarrow> string" where
  "joinOrNone ss = (if ss = [] then ''(none)'' else join_from False [] ss)"

subsection \<open>The saved configuration\<close>

text \<open>
  The user's side of the file system: why the configuration directory cannot be used, if it cannot, and
  the file in it.
\<close>

record home =
  hm_dir :: "string option"
  hm_file :: file_read

record yaml_api =
  ya_unmarshal :: "string \<Rightarrow> string + client_config"
  ya_marshal :: "client_config \<Rightarrow> string + string"

datatype cli_error =
    ConfigDir string | ReadClientConfig string | ParseClientConfig string | MarshalClientConfig string
  | WriteClientConfig string
  | BadPort string | NeedServer | NoKey | CallbackFailed string | LoginTimeout | NotOwned string | Cancelled
  | ClientFailed client_error

definition zero_client_config :: client_config where
  "zero_client_config = \<lparr>cc_ServerAddr = [], cc_Token = []\<rparr>"

definition LoadClientConfig :: "yaml_api \<Rightarrow> home \<Rightarrow> cli_error + client_config" where
  "LoadClientConfig Y h =
     (case hm_dir h of
        Some e \<Rightarrow> Inl (ConfigDir e)
      | None \<Rightarrow>
          (case hm_file h of
             NotExist \<Rightarrow> Inr zero_client_config
           | ReadError e \<Rightarrow> Inl (ReadClientConfig e)
           | FileData data \<Rightarrow>
               (case ya_unmarshal Y data of Inl e \<Rightarrow> Inl (ParseClientConfig e) | Inr cfg \<Rightarrow> Inr cfg)))"

definition SaveClientConfig :: "yaml_api \<Rightarrow> write_outcome \<Rightarrow> client_config \<Rightarrow> home \<Rightarrow> cli_error option \<times> home" where
  "SaveClientConfig Y w cfg h =
     (case hm_dir h of
        Some e \<Rightarrow> (Some (ConfigDir e), h)
      | None \<Rightarrow>
          (case ya_marshal Y cfg of
             Inl e \<Rightarrow> (Some (MarshalClientConfig e), h)
           | Inr data \<Rightarrow>
               (case w of
                  WriteOk \<Rightarrow> (None, h\<lparr>hm_file := FileData data\<rparr>)
                | WriteError e left \<Rightarrow> (Some (WriteClientConfig e), h\<lparr>hm_file := left\<rparr>))))"

record flags =
  fl_server :: string
  fl_token :: string

definition defaultServer :: string where
  "defaultServer = ''localhost:4443''"

definition loadClientCfg :: "yaml_api \<Rightarrow> flags \<Rightarrow> home \<Rightarrow> cli_error + client_config" where
  "loadClientCfg Y fl h =
     (case LoadClientConfig Y h of
        Inl e \<Rightarrow> Inl e
      | Inr cfg \<Rightarrow>
          let cfg1 = (if fl_server fl \<noteq> [] then cfg\<lparr>cc_ServerAddr := fl_server fl\<rparr> else cfg);
              cfg2 = (if fl_token fl \<noteq> [] then cfg1\<lparr>cc_Token := fl_token fl\<rparr> else cfg1);
              cfg3 = (if cc_ServerAddr cfg2 = [] then cfg2\<lparr>cc_ServerAddr := defaultServer\<rparr> else cfg2)
          in Inr cfg3)"

subsection \<open>Commands that change the configuration\<close>

definition authCmd :: "yaml_api \<Rightarrow> flags \<Rightarrow> write_outcome \<Rightarrow> string \<Rightarrow> home \<Rightarrow> cli_error option \<times> home" where
  "authCmd Y fl w token h =
     (let cfg = zero_client_config\<lparr>cc_Token := token\<rparr>;
          cfg1 = (if fl_server fl \<noteq> [] then cfg\<lparr>cc_ServerAddr := fl_server fl\<rparr> else cfg)
      in SaveClientConfig Y w cfg1 h)"

definition logoutCmd :: "yaml_api \<Rightarrow> write_outcome \<Rightarrow> home \<Rightarrow> cli_error option \<times> home" where
  "logoutCmd Y w h =
     (let cfg = (case LoadClientConfig Y h of
                   Inl e \<Rightarrow> zero_client_config
                 | Inr old \<Rightarrow> zero_client_config\<lparr>cc_ServerAddr := cc_ServerAddr old\<rparr>)
      in SaveClientConfig Y w cfg h)"

text \<open>A line of input (\<open>None\<close> at the end of the input) turned into an address.\<close>

definition address_line :: "(string \<Rightarrow> string) \<Rightarrow> string option \<Rightarrow> string option" where
  "address_line utrim line =
     (case line of
        None \<Rightarrow> None
      | Some s \<Rightarrow>
          let addr = TrimSpace utrim s in
          if addr = [] then None
          else Some (if CHR '':'' \<notin> set addr then addr @ '':4443'' else addr))"

text \<open>\<open>setup\<close> goes on with a nil configuration when loading fails, which panics; \<open>None\<close> is the panic.\<close>

definition setupCmd ::
    "yaml_api \<Rightarrow> (string \<Rightarrow> string) \<Rightarrow> flags \<Rightarrow> write_outcome \<Rightarrow> string option \<Rightarrow> home \<Rightarrow> (cli_error option \<times> home) option" where
  "setupCmd Y utrim fl w line h =
     (case loadClientCfg Y fl h of
        Inl e \<Rightarrow> None
      | Inr cfg \<Rightarrow>
          Some (case address_line utrim line of
             None \<Rightarrow> (Some NeedServer, h)
           | Some addr \<Rightarrow> SaveClientConfig Y w (cfg\<lparr>cc_ServerAddr := addr\<rparr>) h))"

definition ensureServer ::
    "yaml_api \<Rightarrow> (string \<Rightarrow> string) \<Rightarrow> write_outcome \<Rightarrow> string option \<Rightarrow> client_config \<Rightarrow> home \<Rightarrow> bool \<times> client_config \<times> home" where
  "ensureServer Y utrim w line cfg h =
     (if cc_ServerAddr cfg \<noteq> [] \<and> cc_ServerAddr cfg \<noteq> defaultServer then (True, cfg, h)
      else case address_line utrim line of
        None \<Rightarrow> (False, cfg, h)
      | Some addr \<Rightarrow>
          let cfg1 = cfg\<lparr>cc_ServerAddr := addr\<rparr> in (True, cfg1, snd (SaveClientConfig Y w cfg1 h)))"

subsection \<open>Login\<close>

text \<open>
  The callback server keeps the first answer of the browser: the channel has room for one and a send
  that would block is dropped.
\<close>

record callback_result =
  cb_Key :: string
  cb_Name :: string

definition callback_answer :: "callback_result list \<Rightarrow> callback_result option" where
  "callback_answer requests = (case requests of [] \<Rightarrow> None | r # rs \<Rightarrow> Some r)"

record login_env =
  lo_callback :: "string option"
  lo_browser_ok :: bool
  lo_line :: "string option"
  lo_requests :: "callback_result list"

definition runLogin ::
    "yaml_api \<Rightarrow> (string \<Rightarrow> string) \<Rightarrow> write_outcome \<Rightarrow> login_env \<Rightarrow> client_config \<Rightarrow> home \<Rightarrow>
     cli_error option \<times> client_config \<times> home" where
  "runLogin Y utrim w le cfg h =
     (let save = (\<lambda>key. let cfg1 = cfg\<lparr>cc_Token := key\<rparr> in
                    case SaveClientConfig Y w cfg1 h of (e, h1) \<Rightarrow> (e, cfg1, h1)) in
      case lo_callback le of
        Some e \<Rightarrow> (Some (CallbackFailed e), cfg, h)
      | None \<Rightarrow>
          if \<not> lo_browser_ok le then
            (case lo_line le of
               None \<Rightarrow> (Some NoKey, cfg, h)
             | Some s \<Rightarrow> let key = TrimSpace utrim s in if key = [] then (Some NoKey, cfg, h) else save key)
          else
            (case callback_answer (lo_requests le) of
               None \<Rightarrow> (Some LoginTimeout, cfg, h)
             | Some r \<Rightarrow> if cb_Key r = [] then (Some NoKey, cfg, h) else save (cb_Key r)))"

text \<open>\<open>login\<close> and \<open>dashboard\<close>, which like \<open>setup\<close> do not look at the error of loading.\<close>

definition loginCmd ::
    "yaml_api \<Rightarrow> (string \<Rightarrow> string) \<Rightarrow> flags \<Rightarrow> write_outcome \<Rightarrow> string option \<Rightarrow> login_env \<Rightarrow> home \<Rightarrow>
     (cli_error option \<times> home) option" where
  "loginCmd Y utrim fl w line le h =
     (case loadClientCfg Y fl h of
        Inl e \<Rightarrow> None
      | Inr cfg \<Rightarrow>
          Some (case ensureServer Y utrim w line cfg h of
             (False, cfg1, h1) \<Rightarrow> (Some NeedServer, h1)
           | (True, cfg1, h1) \<Rightarrow> (case runLogin Y utrim w le cfg1 h1 of (e, cfg2, h2) \<Rightarrow> (e, h2))))"

definition dashboardCmd :: "yaml_api \<Rightarrow> flags \<Rightarrow> home \<Rightarrow> string option" where
  "dashboardCmd Y fl h =
     (case loadClientCfg Y fl h of
        Inl e \<Rightarrow> None
      | Inr cfg \<Rightarrow> Some (''https://dashboard.'' @ extractHost (cc_ServerAddr cfg) @ ''/_dashboard/''))"

subsection \<open>Choosing a subdomain\<close>

text \<open>A connection of its own for each look at the account.\<close>

record 'w account_env =
  ac_dial :: "'w dial_env"
  ac_control :: "'w link"

definition fetch_account :: "wire_json \<Rightarrow> 'w account_env \<Rightarrow> client_config \<Rightarrow> account_info_resp_msg option" where
  "fetch_account J env cfg =
     (case Connect J (ac_dial env) (NewClient cfg) of
        (Some e, c) \<Rightarrow> None
      | (None, c) \<Rightarrow> (case GetAccountInfo J (ac_control env) of Inl e \<Rightarrow> None | Inr info \<Rightarrow> Some info))"

definition chosen :: "string list \<Rightarrow> int \<Rightarrow> string" where
  "chosen subs choice =
     (if 1 \<le> choice \<and> choice \<le> int (length subs) then subs ! nat (choice - 1) else [])"

definition pickSubdomain :: "wire_json \<Rightarrow> 'w account_env \<Rightarrow> int \<Rightarrow> client_config \<Rightarrow> string" where
  "pickSubdomain J env choice cfg =
     (case fetch_account J env cfg of
        None \<Rightarrow> []
      | Some info \<Rightarrow> if ai_Subdomains info = [] then [] else chosen (ai_Subdomains info) choice)"

definition validateSubdomain :: "wire_json \<Rightarrow> 'w account_env \<Rightarrow> client_config \<Rightarrow> string \<Rightarrow> cli_error option" where
  "validateSubdomain J env cfg sub =
     (case fetch_account J env cfg of
        None \<Rightarrow> None
      | Some info \<Rightarrow> if sub \<in> set (ai_Subdomains info) then None else Some (NotOwned sub))"

definition handleSubdomainError ::
    "wire_json \<Rightarrow> 'w account_env \<Rightarrow> int \<Rightarrow> client_config \<Rightarrow> cli_error \<Rightarrow> cli_error + string" where
  "handleSubdomainError J env choice cfg origErr =
     (case fetch_account J env cfg of
        None \<Rightarrow> Inl origErr
      | Some info \<Rightarrow>
          let subs = ai_Subdomains info in
          if subs = [] then Inl origErr
          else if choice = int (length subs) + 2 then Inl Cancelled
          else Inr (chosen subs choice))"

subsection \<open>Starting a tunnel\<close>

record 'w http_env =
  he_line :: "string option"
  he_write :: write_outcome
  he_login :: login_env
  he_pick :: "'w account_env"
  he_validate :: "'w account_env"
  he_fallback :: "'w account_env"
  he_choice :: int

text \<open>The part of \<open>httpCmd\<close> that makes sure a named tunnel has a key.\<close>

definition ensure_key ::
    "yaml_api \<Rightarrow> (string \<Rightarrow> string) \<Rightarrow> 'w http_env \<Rightarrow> string \<Rightarrow> client_config \<Rightarrow> home \<Rightarrow> (cli_error + client_config) \<times> home" where
  "ensure_key Y utrim env sub cfg h =
     (if sub \<noteq> [] \<and> cc_Token cfg = [] then
        (case ensureServer Y utrim (he_write env) (he_line env) cfg h of
           (False, cfg1, h1) \<Rightarrow> (Inl NeedServer, h1)
         | (True, cfg1, h1) \<Rightarrow>
             (case runLogin Y utrim (he_write env) (he_login env) cfg1 h1 of
                (Some e, cfg2, h2) \<Rightarrow> (Inl e, h2)
              | (None, cfg2, h2) \<Rightarrow> (Inr cfg2, h2)))
      else (Inr cfg, h))"

definition choose_subdomain :: "wire_json \<Rightarrow> 'w http_env \<Rightarrow> string \<Rightarrow> client_config \<Rightarrow> cli_error + string" where
  "choose_subdomain J env sub cfg =
     (if sub = [] \<and> cc_Token cfg \<noteq> [] then Inr (pickSubdomain J (he_pick env) (he_choice env) cfg)
      else if sub \<noteq> [] \<and> cc_Token cfg \<noteq> [] then
        (case validateSubdomain J (he_validate env) cfg sub of
           None \<Rightarrow> Inr sub
         | Some err \<Rightarrow> handleSubdomainError J (he_fallback env) (he_choice env) cfg err)
      else Inr sub)"

definition httpCmd ::
    "yaml_api \<Rightarrow> wire_json \<Rightarrow> (string \<Rightarrow> string) \<Rightarrow> (string \<Rightarrow> string) \<Rightarrow> flags \<Rightarrow> string \<Rightarrow> 'w http_env \<Rightarrow> string \<Rightarrow> string \<Rightarrow> home \<Rightarrow>
     (cli_error + reconnector) \<times> home" where
  "httpCmd Y J ulow utrim fl flag_sub env version arg h =
     (case parsePortSubdomain ulow arg of
        Inl s \<Rightarrow> (Inl (BadPort s), h)
      | Inr (localPort, sub0) \<Rightarrow>
          let sub = (if sub0 = [] \<and> flag_sub \<noteq> [] then flag_sub else sub0) in
          (case loadClientCfg Y fl h of
             Inl e \<Rightarrow> (Inl e, h)
           | Inr cfg0 \<Rightarrow>
               (case ensure_key Y utrim env sub cfg0 h of
                  (Inl e, h1) \<Rightarrow> (Inl e, h1)
                | (Inr cfg, h1) \<Rightarrow>
                    (case choose_subdomain J env sub cfg of
                       Inl e \<Rightarrow> (Inl e, h1)
                     | Inr sub1 \<Rightarrow> (Inr (NewReconnector cfg ''http'' localPort sub1 version), h1)))))"

definition tcpCmd :: "yaml_api \<Rightarrow> flags \<Rightarrow> string \<Rightarrow> string \<Rightarrow> home \<Rightarrow> cli_error + reconnector" where
  "tcpCmd Y fl version arg h =
     (case parsePort arg of
        Inl s \<Rightarrow> Inl (BadPort s)
      | Inr localPort \<Rightarrow>
          (case loadClientCfg Y fl h of
             Inl e \<Rightarrow> Inl e
           | Inr cfg \<Rightarrow> Inr (NewReconnector cfg ''tcp'' localPort [] version)))"

text \<open>\<open>status\<close>: nothing more than the saved configuration without a key, else the account.\<close>

definition client_statusCmd ::
    "yaml_api \<Rightarrow> wire_json \<Rightarrow> flags \<Rightarrow> 'w account_env \<Rightarrow> home \<Rightarrow> cli_error + (string \<times> account_info_resp_msg) option" where
  "client_statusCmd Y J fl env h =
     (case loadClientCfg Y fl h of
        Inl e \<Rightarrow> Inl e
      | Inr cfg \<Rightarrow>
          if cc_Token cfg = [] then Inr None
          else case Connect J (ac_dial env) (NewClient cfg) of
            (Some e, c) \<Rightarrow> Inl (ClientFailed e)
          | (None, c) \<Rightarrow>
              (case GetAccountInfo J (ac_control env) of
                 Inl e \<Rightarrow> Inl (ClientFailed e)
               | Inr info \<Rightarrow>
                   let t = cc_Token cfg;
                       masked = (if length t > 12 then take 8 t @ ''...'' @ drop (length t - 4) t else t)
                   in Inr (Some (masked, info))))"

end
