(* ===== verification/Cli_Properties.thy ===== *)
theory Cli_Properties
  imports Cli Client_Properties
begin

text \<open>
  The properties of the command line client: what an argument means, what is kept between commands, and
  which name a tunnel is asked for.
\<close>

subsection \<open>Arguments\<close>

text \<open>
  What a user types as \<open>port:name\<close> is understood: every port from 1 to 65535 with any name, whose letters
  become small, or with none.
\<close>

lemma port_argument_understood:
  assumes "1 \<le> port" and "port \<le> 65535"
  shows "parsePortSubdomain ulow (Itoa port @ CHR '':'' # name) = Inr (int port, if name = [] then [] else ToLower ulow name)"
    and "parsePortSubdomain ulow (Itoa port) = Inr (int port, [])"
    and "parsePort (Itoa port) = Inr (int port)"
  using assms Atoi_Itoa [of port] Itoa_facts [of port]
  by (simp_all add: parsePortSubdomain_def parsePort_def SplitN2_sep SplitN2_nosep Let_def)

lemma port_in_range:
  "parsePortSubdomain ulow arg = Inr (p, sub) \<Longrightarrow> 1 \<le> p \<and> p \<le> 65535"
  by (auto simp: parsePortSubdomain_def Let_def split: option.splits if_splits)

lemma split_at_last_spec:
  "CHR '':'' \<notin> set xs \<Longrightarrow> split_at_last (xs @ CHR '':'' # ys) acc = Some (rev ys, rev xs @ acc)"
  by (induction xs arbitrary: acc) auto

lemma split_at_last_None: "CHR '':'' \<notin> set xs \<Longrightarrow> split_at_last xs acc = None"
  by (induction xs arbitrary: acc) auto

lemma extractHost_spec:
  "CHR '':'' \<notin> set port \<Longrightarrow> host \<noteq> [] \<Longrightarrow> extractHost (host @ CHR '':'' # port) = host"
  "CHR '':'' \<notin> set addr \<Longrightarrow> extractHost addr = addr"
  using split_at_last_spec [of "rev port" "rev host" "[]"] split_at_last_None [of "rev addr" "[]"]
  by (simp_all add: extractHost_def splitHostPort_def Let_def)

subsection \<open>The saved configuration\<close>

text \<open>The law of the YAML library the client relies on.\<close>

definition yaml_ok :: "yaml_api \<Rightarrow> bool" where
  "yaml_ok Y \<longleftrightarrow> (\<forall>cfg data. ya_marshal Y cfg = Inr data \<longrightarrow> ya_unmarshal Y data = Inr cfg)"

lemma saved_is_loaded:
  assumes "yaml_ok Y" and "SaveClientConfig Y w cfg h = (None, h')"
  shows "LoadClientConfig Y h' = Inr cfg"
  using assms by (auto simp: SaveClientConfig_def LoadClientConfig_def yaml_ok_def
      split: option.splits sum.splits write_outcome.splits)

lemma loaded_cfg:
  "LoadClientConfig Y h = Inr cfg \<Longrightarrow> fl_server fl = [] \<Longrightarrow> fl_token fl = [] \<Longrightarrow>
     loadClientCfg Y fl h = Inr (if cc_ServerAddr cfg = [] then cfg\<lparr>cc_ServerAddr := defaultServer\<rparr> else cfg)"
  by (simp add: loadClientCfg_def Let_def)

text \<open>
  A session of commands keeps what it should: a login that succeeds makes every later command use the
  new key with the same server, and a logout that succeeds leaves no key behind but keeps the server.
\<close>

theorem login_logout_remembered:
  assumes "yaml_ok Y" and "fl_server fl = []" and "fl_token fl = []" and "cc_ServerAddr cfg \<noteq> []"
    and "runLogin Y utrim w le cfg h = (None, cfg1, h1)" and "logoutCmd Y w2 h1 = (None, h2)"
  shows "loadClientCfg Y fl h1 = Inr cfg1 \<and> cc_Token cfg1 \<noteq> [] \<and> cc_ServerAddr cfg1 = cc_ServerAddr cfg \<and>
    loadClientCfg Y fl h2 = Inr \<lparr>cc_ServerAddr = cc_ServerAddr cfg, cc_Token = []\<rparr>"
proof -
  obtain key where key: "key \<noteq> []" "cfg1 = cfg\<lparr>cc_Token := key\<rparr>" "SaveClientConfig Y w cfg1 h = (None, h1)"
    using assms(5) by (auto simp: runLogin_def Let_def split: option.splits if_splits prod.splits)
  have l1: "LoadClientConfig Y h1 = Inr cfg1" using saved_is_loaded [OF assms(1) key(3)] .
  then have "SaveClientConfig Y w2 \<lparr>cc_ServerAddr = cc_ServerAddr cfg, cc_Token = []\<rparr> h1 = (None, h2)"
    using assms(6) key(2) by (simp add: logoutCmd_def zero_client_config_def)
  then have "LoadClientConfig Y h2 = Inr \<lparr>cc_ServerAddr = cc_ServerAddr cfg, cc_Token = []\<rparr>"
    using saved_is_loaded [OF assms(1)] by blast
  then show ?thesis using l1 key assms(2-4) by (simp add: loaded_cfg)
qed

definition demo_yaml :: yaml_api where
  "demo_yaml = \<lparr>ya_unmarshal = (\<lambda>s. if s = ''none'' then Inr \<lparr>cc_ServerAddr = ''t.org:4443'', cc_Token = []\<rparr>
       else Inr \<lparr>cc_ServerAddr = ''t.org:4443'', cc_Token = s\<rparr>),
     ya_marshal = (\<lambda>c. if cc_ServerAddr c \<noteq> ''t.org:4443'' \<or> cc_Token c = ''none'' then Inl ''not used''
       else Inr (if cc_Token c = [] then ''none'' else cc_Token c))\<rparr>"

lemma demo_yaml_ok: "yaml_ok demo_yaml"
  by (auto simp: yaml_ok_def demo_yaml_def split: if_splits)

theorem login_logout_remembered_witness:
  "\<exists>h1 h2. runLogin demo_yaml id WriteOk \<lparr>lo_callback = None, lo_browser_ok = True, lo_line = None,
        lo_requests = [\<lparr>cb_Key = ''htn_1'', cb_Name = ''ann''\<rparr>]\<rparr> \<lparr>cc_ServerAddr = ''t.org:4443'', cc_Token = []\<rparr>
        \<lparr>hm_dir = None, hm_file = NotExist\<rparr> = (None, \<lparr>cc_ServerAddr = ''t.org:4443'', cc_Token = ''htn_1''\<rparr>, h1) \<and>
     logoutCmd demo_yaml WriteOk h1 = (None, h2) \<and>
     loadClientCfg demo_yaml \<lparr>fl_server = [], fl_token = []\<rparr> h2 = Inr \<lparr>cc_ServerAddr = ''t.org:4443'', cc_Token = []\<rparr>"
proof -
  let ?cfg = "\<lparr>cc_ServerAddr = ''t.org:4443'', cc_Token = []\<rparr>"
  let ?h1 = "\<lparr>hm_dir = None, hm_file = FileData ''htn_1''\<rparr>" and ?h2 = "\<lparr>hm_dir = None, hm_file = FileData ''none''\<rparr>"
  have a: "runLogin demo_yaml id WriteOk \<lparr>lo_callback = None, lo_browser_ok = True, lo_line = None,
        lo_requests = [\<lparr>cb_Key = ''htn_1'', cb_Name = ''ann''\<rparr>]\<rparr> ?cfg \<lparr>hm_dir = None, hm_file = NotExist\<rparr> =
        (None, \<lparr>cc_ServerAddr = ''t.org:4443'', cc_Token = ''htn_1''\<rparr>, ?h1)"
    by (simp add: runLogin_def callback_answer_def SaveClientConfig_def demo_yaml_def Let_def)
  have b: "logoutCmd demo_yaml WriteOk ?h1 = (None, ?h2)"
    by (simp add: logoutCmd_def LoadClientConfig_def SaveClientConfig_def demo_yaml_def zero_client_config_def)
  show ?thesis
    using login_logout_remembered [OF demo_yaml_ok, of "\<lparr>fl_server = [], fl_token = []\<rparr>" ?cfg, OF _ _ _ a b] a b by auto
qed

text \<open>
  \<open>auth\<close> writes a configuration of its own: without \<open>--server\<close> the address saved before is lost, and the
  next command goes to the default server.
\<close>

lemma auth_forgets_server:
  assumes "yaml_ok Y" and "fl_server fl = []" and "fl_token fl = []" and "authCmd Y fl w token h = (None, h')"
  shows "loadClientCfg Y fl h' = Inr \<lparr>cc_ServerAddr = defaultServer, cc_Token = token\<rparr>"
proof -
  have "LoadClientConfig Y h' = Inr \<lparr>cc_ServerAddr = [], cc_Token = token\<rparr>"
    using saved_is_loaded [OF assms(1)] assms(2,4) by (simp add: authCmd_def zero_client_config_def)
  then show ?thesis using assms(2,3) by (simp add: loaded_cfg)
qed

text \<open>A configuration file that does not parse makes the very commands that would replace it panic.\<close>

lemma bad_config_panics:
  assumes "hm_dir h = None" and "hm_file h = FileData data" and "ya_unmarshal Y data = Inl e"
  shows "setupCmd Y utrim fl w line h = None" and "loginCmd Y utrim fl w line le h = None" and "dashboardCmd Y fl h = None"
  using assms by (simp_all add: setupCmd_def loginCmd_def dashboardCmd_def loadClientCfg_def LoadClientConfig_def)

subsection \<open>Which name is asked for\<close>

lemma chosen_owned: "chosen subs n = [] \<or> chosen subs n \<in> set subs"
  by (auto simp: chosen_def)

lemma choose_owned:
  assumes "choose_subdomain J env sub cfg = Inr name" and "cc_Token cfg \<noteq> []"
    and "fetch_account J (he_pick env) cfg = Some info" and "fetch_account J (he_validate env) cfg = Some info"
    and "fetch_account J (he_fallback env) cfg = Some info"
  shows "name = [] \<or> name \<in> set (ai_Subdomains info)"
  using assms chosen_owned [of "ai_Subdomains info" "he_choice env"]
  by (auto simp: choose_subdomain_def pickSubdomain_def validateSubdomain_def handleSubdomainError_def Let_def
      split: if_splits)

text \<open>
  \<open>htn-tunnel http\<close> asks only for what the user may have: with a key whose account the server shows, the
  tunnel is for a valid local port and for a random name or one of the account's own, whatever name was
  typed, given as a flag or picked; and without a key it is never for a chosen name.
\<close>

theorem http_command_name_owned:
  assumes "httpCmd Y J ulow utrim fl flag_sub env version arg h = (Inr r, h')"
    and "\<And>acc cfg. acc \<in> {he_pick env, he_validate env, he_fallback env} \<Longrightarrow> cc_Token cfg \<noteq> [] \<Longrightarrow> fetch_account J acc cfg = Some info"
  shows "1 \<le> rc_localPort r \<and> rc_localPort r \<le> 65535 \<and> rc_tunnelType r = ''http'' \<and>
    (rc_subdomain r = [] \<or> cc_Token (rc_cfg r) \<noteq> [] \<and> rc_subdomain r \<in> set (ai_Subdomains info))"
proof -
  obtain p sub0 cfg0 sub cfg h1 name where
    p: "parsePortSubdomain ulow arg = Inr (p, sub0)"
    and k: "ensure_key Y utrim env sub cfg0 h = (Inr cfg, h1)"
    and n: "choose_subdomain J env sub cfg = Inr name"
    and r: "r = NewReconnector cfg ''http'' p name version"
    using assms(1) by (auto simp: httpCmd_def Let_def split: sum.splits prod.splits)
  have key: "sub \<noteq> [] \<Longrightarrow> cc_Token cfg \<noteq> []"
  proof -
    assume "sub \<noteq> []"
    then show "cc_Token cfg \<noteq> []" using k
      by (auto simp: ensure_key_def runLogin_def Let_def split: if_splits bool.splits option.splits prod.splits)
  qed
  have "name = [] \<or> cc_Token cfg \<noteq> [] \<and> name \<in> set (ai_Subdomains info)"
  proof (cases "cc_Token cfg = []")
    case True
    then have "name = []" using key n by (auto simp: choose_subdomain_def)
    then show ?thesis by simp
  next
    case False
    then show ?thesis using choose_owned [OF n False] assms(2) by blast
  qed
  then show ?thesis using port_in_range [OF p] by (simp add: r NewReconnector_def)
qed

definition shop_account :: account_info_resp_msg where
  "shop_account = \<lparr>ai_Name = ''ann'', ai_Subdomains = [''shop''], ai_MaxTunnels = 10, ai_Domain = ''t.org''\<rparr>"

definition account_wire :: wire_json where
  "account_wire = demo_wire\<lparr>wj_account_info := (\<lambda>_. Some shop_account)\<rparr>"

definition shop_env :: "nat http_env" where
  "shop_env = (let acc = \<lparr>ac_dial = \<lparr>de_dial = Inr (demo_link MsgAuthResponse), de_yamux = None, de_control = None\<rparr>,
       ac_control = demo_link MsgAccountInfoResp\<rparr> in
     \<lparr>he_line = None, he_write = WriteOk, he_login = \<lparr>lo_callback = None, lo_browser_ok = True, lo_line = None, lo_requests = []\<rparr>,
      he_pick = acc, he_validate = acc, he_fallback = acc, he_choice = 1\<rparr>)"

lemma shop_env_account:
  "acc \<in> {he_pick shop_env, he_validate shop_env, he_fallback shop_env} \<Longrightarrow> fetch_account account_wire acc cfg = Some shop_account"
proof -
  assume "acc \<in> {he_pick shop_env, he_validate shop_env, he_fallback shop_env}"
  then have acc: "ac_dial acc = \<lparr>de_dial = Inr (demo_link MsgAuthResponse), de_yamux = None, de_control = None\<rparr>"
      "ac_control acc = demo_link MsgAccountInfoResp" by (auto simp: shop_env_def Let_def)
  have m: "wj_marshal account_wire = (\<lambda>_. Inr demo_frame)" by (simp add: account_wire_def demo_wire_def)
  have "exchange account_wire (wj_auth_response account_wire) (demo_link MsgAuthResponse) MsgAuth m MsgAuthResponse =
      (Inr \<lparr>ar_Success = True, ar_Message = ''authenticated''\<rparr>, \<lparr>rd_data = [], rd_end = EOF\<rparr>)" for m
    by (rule demo_exchange [OF m]) (simp add: account_wire_def demo_wire_def)
  moreover have "exchange account_wire (wj_account_info account_wire) (demo_link MsgAccountInfoResp) MsgAccountInfo m MsgAccountInfoResp =
      (Inr shop_account, \<lparr>rd_data = [], rd_end = EOF\<rparr>)" for m
    by (rule demo_exchange [OF m]) (simp add: account_wire_def)
  ultimately show ?thesis by (simp add: fetch_account_def acc Connect_def GetAccountInfo_def Let_def)
qed

text \<open>The user types a name of someone else's and picks the first of the own ones.\<close>

theorem http_command_name_owned_witness:
  "\<exists>r h'. httpCmd demo_yaml account_wire id id \<lparr>fl_server = [], fl_token = ''htn_1''\<rparr> [] shop_env ''1.0'' ''3000:other''
       \<lparr>hm_dir = None, hm_file = NotExist\<rparr> = (Inr r, h') \<and> rc_subdomain r = ''shop'' \<and> rc_localPort r \<le> 65535"
proof -
  let ?cfg = "\<lparr>cc_ServerAddr = defaultServer, cc_Token = ''htn_1''\<rparr>"
  let ?r = "NewReconnector ?cfg ''http'' 3000 ''shop'' ''1.0''" and ?h = "\<lparr>hm_dir = None, hm_file = NotExist\<rparr>"
  have "parsePortSubdomain id ''3000:other'' = Inr (3000, ''other'')" by code_simp
  moreover have "loadClientCfg demo_yaml \<lparr>fl_server = [], fl_token = ''htn_1''\<rparr> ?h = Inr ?cfg"
    by (simp add: loadClientCfg_def LoadClientConfig_def zero_client_config_def)
  moreover have "choose_subdomain account_wire shop_env ''other'' ?cfg = Inr ''shop''"
    using shop_env_account [of "he_validate shop_env" ?cfg] shop_env_account [of "he_fallback shop_env" ?cfg]
    by (simp add: choose_subdomain_def validateSubdomain_def handleSubdomainError_def shop_account_def chosen_def Let_def)
      (simp add: shop_env_def chosen_def Let_def)
  ultimately have h: "httpCmd demo_yaml account_wire id id \<lparr>fl_server = [], fl_token = ''htn_1''\<rparr> [] shop_env ''1.0'' ''3000:other'' ?h =
      (Inr ?r, ?h)" by (simp add: httpCmd_def ensure_key_def Let_def)
  show ?thesis using http_command_name_owned [OF h shop_env_account] h
    by (intro exI [of _ ?r] exI [of _ ?h]) (simp add: NewReconnector_def)
qed

end
