(* ===== verification/Display.thy ===== *)
theory Display
  imports Complex_Main Protocol Go_Strings
begin

text \<open>
  What the client prints (\<open>internal/client/display.go\<close>). A string is a list of runes here, because \<open>visibleLen\<close>
  walks over runes; a rune is its number. The colours are escape sequences that end in the letter m.
\<close>

type_synonym rune = nat
type_synonym runes = "nat list"

definition runes_of :: "string \<Rightarrow> runes" where
  "runes_of s = map of_char s"

definition escape :: rune where "escape = 27"

definition colour :: "string \<Rightarrow> runes" where
  "colour code = escape # runes_of (CHR ''['' # code @ ''m'')"

definition ansi_reset :: runes where "ansi_reset = colour ''0''"
definition bold :: runes where "bold = colour ''1''"
definition green :: runes where "green = colour ''32''"
definition yellow :: runes where "yellow = colour ''33''"
definition red :: runes where "red = colour ''31''"
definition cyan :: runes where "cyan = colour ''36''"
definition gray :: runes where "gray = colour ''90''"

subsection \<open>Widths\<close>

fun visible_from :: "bool \<Rightarrow> nat \<Rightarrow> runes \<Rightarrow> nat" where
  "visible_from inEsc n [] = n"
| "visible_from inEsc n (r # rs) =
     (if r = escape then visible_from True n rs
      else if inEsc then visible_from (if r = 109 then False else inEsc) n rs
      else visible_from inEsc (n + 1) rs)"

definition visibleLen :: "runes \<Rightarrow> nat" where
  "visibleLen s = visible_from False 0 s"

definition Repeat :: "rune \<Rightarrow> nat \<Rightarrow> runes" where
  "Repeat r n = replicate n r"

definition padRight :: "string \<Rightarrow> nat \<Rightarrow> string" where
  "padRight s n = (if length s \<ge> n then s else s @ replicate (n - length s) CHR '' '')"

definition padLeft :: "string \<Rightarrow> nat \<Rightarrow> string" where
  "padLeft s n = (if length s \<ge> n then s else replicate (n - length s) CHR '' '' @ s)"

subsection \<open>The box\<close>

definition status_colour :: "string \<Rightarrow> runes \<times> rune" where
  "status_colour status =
     (if status = ''connecting'' then (yellow, 9676)
      else if status = ''disconnected'' then (red, 9675)
      else (green, 9679))"

definition box_lines :: "runes \<Rightarrow> runes \<Rightarrow> runes \<Rightarrow> runes \<Rightarrow> string \<Rightarrow> runes list" where
  "box_lines version tunnel forward server status =
     [runes_of ''  '' @ bold @ runes_of ''htn-tunnel'' @ ansi_reset @ runes_of '' v'' @ version,
      [],
      runes_of ''  Tunnel:   '' @ cyan @ tunnel @ ansi_reset,
      runes_of ''  Forward:  '' @ [8594] @ runes_of '' '' @ forward,
      runes_of ''  Server:   '' @ server,
      runes_of ''  Status:   '' @ fst (status_colour status) @ [snd (status_colour status)] @ runes_of '' '' @ runes_of status @ ansi_reset]"

fun max_len :: "nat \<Rightarrow> runes list \<Rightarrow> nat" where
  "max_len m [] = m"
| "max_len m (l # ls) = max_len (if visibleLen l > m then visibleLen l else m) ls"

definition PrintBox :: "runes \<Rightarrow> runes \<Rightarrow> runes \<Rightarrow> runes \<Rightarrow> string \<Rightarrow> runes list" where
  "PrintBox version tunnel forward server status =
     (let lines = box_lines version tunnel forward server status; width = max_len 0 lines + 4 in
      [runes_of ''  '' @ [9581] @ Repeat 9472 width @ [9582]] @
      map (\<lambda>l. runes_of ''  '' @ [9474] @ l @ Repeat 32 (width - visibleLen l) @ [9474]) lines @
      [runes_of ''  '' @ [9584] @ Repeat 9472 width @ [9583]])"

subsection \<open>Lines of the request log\<close>

definition shown_path :: "string \<Rightarrow> string" where
  "shown_path path = padRight (if length path > 40 then take 37 path @ ''...'' else path) 40"

definition log_colour :: "int \<Rightarrow> runes" where
  "log_colour status =
     (if status \<ge> 500 then red else if status \<ge> 400 then yellow else if status \<ge> 300 then cyan
      else if status \<ge> 200 then green else gray)"

text \<open>\<open>fmtBytes\<close>: the unit and the number that is printed with it, before \<open>fmt\<close> rounds it to one digit.\<close>

datatype size_shown = Bytes int | KB rat | MB rat

definition fmtBytes :: "int \<Rightarrow> size_shown" where
  "fmtBytes b = (if b < 1024 then Bytes b else if b < 1048576 then KB (of_int b / 1024) else MB (of_int b / 1048576))"

text \<open>\<open>%.1f\<close> of a number that a float64 holds exactly: to the nearest tenth, ties to the even one.\<close>

definition FormatTenths :: "rat \<Rightarrow> string" where
  "FormatTenths r =
     (let f = \<lfloor>10 * r\<rfloor>; d = 10 * r - of_int f; n = (if d > 1 / 2 \<or> d = 1 / 2 \<and> odd f then f + 1 else f)
      in FormatInt (n div 10) @ ''.'' @ FormatInt (n mod 10))"

definition show_size :: "size_shown \<Rightarrow> string" where
  "show_size z = (case z of Bytes b \<Rightarrow> FormatInt b @ ''B'' | KB r \<Rightarrow> FormatTenths r @ ''KB'' | MB r \<Rightarrow> FormatTenths r @ ''MB'')"

text \<open>One line of the log, for texts of one byte per rune; \<open>now\<close> is the time of day.\<close>

definition PrintRequestLog :: "string \<Rightarrow> request_log_msg \<Rightarrow> runes" where
  "PrintRequestLog now m =
     runes_of ''  '' @ gray @ runes_of now @ ansi_reset @ runes_of ''  '' @ runes_of (padRight (rl_Method m) 6) @
     runes_of ''  '' @ runes_of (shown_path (rl_Path m)) @ runes_of ''  '' @
     log_colour (rl_Status m) @ runes_of (FormatInt (rl_Status m)) @ ansi_reset @ runes_of ''  '' @
     gray @ runes_of (padLeft (FormatInt (rl_Duration m) @ ''ms'') 6) @
     runes_of ''  '' @ runes_of (padLeft (show_size (fmtBytes (rl_Size m))) 8)"

subsection \<open>The sides of the box are straight\<close>

lemma visible_from_add: "visible_from e n s = n + visible_from e 0 s"
proof (induction s arbitrary: e n)
  case (Cons r s)
  show ?case
    using Cons.IH [of True n] Cons.IH [of False n] Cons.IH [of False "Suc n"] Cons.IH [of False 1] by (cases e) auto
qed simp

text \<open>A piece of text that leaves no escape sequence open.\<close>

fun ends_in :: "bool \<Rightarrow> runes \<Rightarrow> bool" where
  "ends_in e [] = e"
| "ends_in e (r # rs) = ends_in (if r = escape then True else if e \<and> r = 109 then False else e) rs"

lemma visible_append: "visible_from e n (s @ t) = visible_from (ends_in e s) (visible_from e n s) t"
proof (induction s arbitrary: e n)
  case (Cons r s)
  then show ?case by (cases e) auto
qed simp

lemma ends_append [simp]: "ends_in e (s @ t) = ends_in (ends_in e s) t"
  by (induction s arbitrary: e) auto

lemma visibleLen_append: "\<not> ends_in False s \<Longrightarrow> visibleLen (s @ t) = visibleLen s + visibleLen t"
  using visible_from_add [of False "visible_from False 0 s" t] by (simp add: visibleLen_def visible_append)

lemma plain_runes: "escape \<notin> set s \<Longrightarrow> visible_from False n s = n + length s \<and> \<not> ends_in False s"
  by (induction s arbitrary: n) auto

lemma plain_visible: "escape \<notin> set s \<Longrightarrow> visibleLen s = length s" and plain_ends: "escape \<notin> set s \<Longrightarrow> \<not> ends_in False s"
  using plain_runes by (simp_all add: visibleLen_def)

lemma visible_Repeat [simp]: "r \<noteq> escape \<Longrightarrow> visibleLen (Repeat r n) = n" "r \<noteq> escape \<Longrightarrow> \<not> ends_in False (Repeat r n)"
  using plain_visible [of "Repeat r n"] plain_ends [of "Repeat r n"] by (auto simp: Repeat_def)

lemma runes_of_plain: "list_all (\<lambda>c. (of_char c :: nat) \<noteq> 27) s \<Longrightarrow> escape \<notin> set (runes_of s)"
  by (auto simp: runes_of_def escape_def list_all_iff)

lemma max_len_ge: "m \<le> max_len m ls"
proof (induction ls arbitrary: m)
  case (Cons l ls)
  show ?case using Cons.IH [of "visibleLen l"] Cons.IH [of m] by simp
qed simp

lemma max_len_bound: "l \<in> set ls \<Longrightarrow> visibleLen l \<le> max_len m ls"
proof (induction ls arbitrary: m)
  case (Cons a ls)
  show ?case using Cons.IH [of "visibleLen a"] Cons.IH [of m] Cons.prems max_len_ge [of "visibleLen a" ls] max_len_ge [of m ls]
    by auto
qed simp

lemma colours_closed [simp]:
  "\<not> ends_in False ansi_reset" "\<not> ends_in False bold" "\<not> ends_in False green" "\<not> ends_in False yellow"
  "\<not> ends_in False red" "\<not> ends_in False cyan"
  by (simp_all add: ansi_reset_def bold_def green_def yellow_def red_def cyan_def colour_def runes_of_def escape_def)

lemma status_colour_closed: "\<not> ends_in False (fst (status_colour status))" "snd (status_colour status) \<noteq> escape"
  by (auto simp: status_colour_def escape_def)

lemma box_lines_closed:
  assumes "escape \<notin> set version" and "escape \<notin> set tunnel" and "escape \<notin> set forward" and "escape \<notin> set server"
    and "escape \<notin> set (runes_of status)" and "l \<in> set (box_lines version tunnel forward server status)"
  shows "\<not> ends_in False l"
proof -
  have label: "\<not> ends_in False (runes_of s)" if "list_all (\<lambda>c. (of_char c :: nat) \<noteq> 27) s" for s
    using runes_of_plain [OF that] by (rule plain_ends)
  have labels: "\<not> ends_in False (runes_of ''  '')" "\<not> ends_in False (runes_of ''htn-tunnel'')" "\<not> ends_in False (runes_of '' v'')"
      "\<not> ends_in False (runes_of ''  Tunnel:   '')" "\<not> ends_in False (runes_of ''  Forward:  '')"
      "\<not> ends_in False (runes_of '' '')" "\<not> ends_in False (runes_of ''  Server:   '')" "\<not> ends_in False (runes_of ''  Status:   '')"
    by (rule label, simp)+
  have "\<not> ends_in False version" "\<not> ends_in False tunnel" "\<not> ends_in False forward" "\<not> ends_in False server"
      "\<not> ends_in False (runes_of status)"
    using assms(1-5) plain_ends by blast+
  then show ?thesis using assms(6) labels status_colour_closed [of status]
    by (auto simp: box_lines_def escape_def)
qed

text \<open>
  The box on the screen is a box: as long as the texts shown bring no escape sequences of their own, every
  line of it, the borders included, takes the same number of columns, whatever their lengths.
\<close>

theorem box_aligned:
  assumes "escape \<notin> set version" and "escape \<notin> set tunnel" and "escape \<notin> set forward" and "escape \<notin> set server"
    and "escape \<notin> set (runes_of status)" and "out \<in> set (PrintBox version tunnel forward server status)"
  shows "visibleLen out = max_len 0 (box_lines version tunnel forward server status) + 8"
proof -
  let ?ls = "box_lines version tunnel forward server status"
  let ?w = "max_len 0 ?ls + 4"
  have indent: "visibleLen (runes_of ''  '') = 2" "\<not> ends_in False (runes_of ''  '')"
    using plain_visible [OF runes_of_plain, of "''  ''"] plain_ends [OF runes_of_plain, of "''  ''"] by (simp_all add: runes_of_def)
  have one: "visibleLen [r] = 1 \<and> \<not> ends_in False [r]" if "r \<noteq> escape" for r
    using that plain_visible [of "[r]"] plain_ends [of "[r]"] by simp
  have border: "visibleLen (runes_of ''  '' @ [a] @ mid @ [b]) = visibleLen mid + 4"
    if "a \<noteq> escape" "b \<noteq> escape" "\<not> ends_in False mid" for a b mid
    using indent one [OF that(1)] one [OF that(2)] that(3)
      visibleLen_append [of "runes_of ''  ''" "[a] @ mid @ [b]"] visibleLen_append [of "[a]" "mid @ [b]"] visibleLen_append [of mid "[b]"]
    by linarith
  have horizontal: "visibleLen (Repeat 9472 ?w) = ?w" "\<not> ends_in False (Repeat 9472 ?w)" by (simp_all add: escape_def)
  consider (edge) a b where "out = runes_of ''  '' @ [a] @ Repeat 9472 ?w @ [b]" "a \<noteq> escape" "b \<noteq> escape"
    | (line) l where "l \<in> set ?ls" "out = runes_of ''  '' @ [9474] @ (l @ Repeat 32 (?w - visibleLen l)) @ [9474]"
    using assms(6) by (auto simp: PrintBox_def escape_def Let_def)
  then show ?thesis
  proof cases
    case edge
    then show ?thesis using border [OF edge(2,3) horizontal(2)] horizontal(1) by simp
  next
    case (line l)
    have closed: "\<not> ends_in False l" using box_lines_closed [OF assms(1-5) line(1)] .
    have "visibleLen (l @ Repeat 32 (?w - visibleLen l)) = ?w"
      using max_len_bound [OF line(1), of 0] closed by (simp add: visibleLen_append escape_def)
    moreover have "\<not> ends_in False (l @ Repeat 32 (?w - visibleLen l))" using closed by (simp add: escape_def)
    ultimately show ?thesis using border [of 9474 9474 "l @ Repeat 32 (?w - visibleLen l)"] line(2) by (simp add: escape_def)
  qed
qed

theorem box_aligned_witness:
  "list_all (\<lambda>out. visibleLen out = max_len 0 (box_lines (runes_of ''1.0'') (runes_of ''https://shop.t.org'') (runes_of ''localhost:3000'') (runes_of ''t.org:4443'') ''connected'') + 8)
     (PrintBox (runes_of ''1.0'') (runes_of ''https://shop.t.org'') (runes_of ''localhost:3000'') (runes_of ''t.org:4443'') ''connected'')"
proof -
  have "escape \<notin> set (runes_of s)" if "s \<in> {''1.0'', ''https://shop.t.org'', ''localhost:3000'', ''t.org:4443'', ''connected''}" for s
    using that by (intro runes_of_plain) auto
  then show ?thesis unfolding list_all_iff by (intro ballI box_aligned) simp_all
qed


subsection \<open>The columns of the log\<close>

definition plain :: "string \<Rightarrow> bool" where
  "plain s \<longleftrightarrow> list_all (\<lambda>c. (of_char c :: nat) \<noteq> 27) s"

lemma plain_facts:
  assumes "plain s"
  shows "visibleLen (runes_of s) = length s" and "\<not> ends_in False (runes_of s)"
  using plain_visible [OF runes_of_plain] plain_ends [OF runes_of_plain] assms by (simp_all add: plain_def runes_of_def)

lemma plain_simps [simp]:
  "plain (s @ t) \<longleftrightarrow> plain s \<and> plain t" "plain (c # s) \<longleftrightarrow> (of_char c :: nat) \<noteq> 27 \<and> plain s" "plain []"
  by (simp_all add: plain_def)

lemma plain_numbers: "plain (FormatInt n)" "plain (FormatTenths r)"
proof -
  have p: "plain (FormatInt n)" for n
    using FormatInt_plain [of _ n] by (fastforce simp: plain_def list_all_iff digit_def)
  then show "plain (FormatInt n)" "plain (FormatTenths r)" by (simp_all add: FormatTenths_def Let_def)
qed

lemma plain_size: "plain (show_size z)"
  using plain_numbers by (auto simp: show_size_def plain_def split: size_shown.split)

lemma plain_padded:
  "plain s \<Longrightarrow> plain (padRight s n)" "plain s \<Longrightarrow> plain (padLeft s n)"
  by (auto simp: plain_def padRight_def padLeft_def list_all_iff)

lemma length_padded: "length (padRight s n) = max (length s) n" "length (padLeft s n) = max (length s) n"
  by (auto simp: padRight_def padLeft_def)

lemma shown_path_facts: "length (shown_path p) = 40" "plain p \<Longrightarrow> plain (shown_path p)"
proof -
  show "length (shown_path p) = 40" by (simp add: shown_path_def length_padded)
  assume "plain p"
  then have "plain (take 37 p)" by (auto simp: plain_def list_all_iff dest: in_set_takeD)
  then show "plain (shown_path p)" using \<open>plain p\<close>
    by (auto simp: shown_path_def intro!: plain_padded)
qed

lemma colours_invisible:
  "visibleLen gray = 0 \<and> \<not> ends_in False gray" "visibleLen ansi_reset = 0 \<and> \<not> ends_in False ansi_reset"
  "visibleLen (log_colour st) = 0 \<and> \<not> ends_in False (log_colour st)"
  by (simp_all add: gray_def ansi_reset_def log_colour_def red_def yellow_def cyan_def green_def colour_def visibleLen_def
      runes_of_def escape_def)

text \<open>
  The columns of the log are straight: for every request whose method has at most six letters, with a status of
  three digits, a duration below ten seconds and a size that fits, the line has the same width.
\<close>

theorem log_line_aligned:
  assumes "plain now" and "plain (rl_Method m)" and "plain (rl_Path m)" and "length (rl_Method m) \<le> 6"
    and "length (FormatInt (rl_Status m)) = 3" and "length (FormatInt (rl_Duration m)) \<le> 4"
    and "length (show_size (fmtBytes (rl_Size m))) \<le> 8"
  shows "visibleLen (PrintRequestLog now m) = length now + 75"
proof -
  have gap: "plain ''  ''" "plain ''ms''" by (simp_all add: plain_def)
  note pl = plain_facts [OF gap(1)] plain_facts [OF assms(1)] plain_facts [OF plain_padded(1) [OF assms(2)]]
    plain_facts [OF shown_path_facts(2) [OF assms(3)]] plain_facts [OF plain_numbers(1)]
    plain_facts [OF plain_padded(2) [OF plain_size]]
    plain_facts [OF plain_padded(2) [of "FormatInt n @ ''ms''" for n]]
  have d: "plain (FormatInt n @ ''ms'')" for n using gap(2) plain_numbers(1) by simp
  show ?thesis using assms(4-7) d
    by (simp add: PrintRequestLog_def visibleLen_append colours_invisible pl length_padded shown_path_facts(1))
qed

text \<open>The line ends in gray: what the terminal shows after it is gray too.\<close>

lemma log_line_stays_gray:
  "\<exists>before after. PrintRequestLog now m = before @ gray @ after \<and> escape \<notin> set after"
proof -
  let ?after = "runes_of (padLeft (FormatInt (rl_Duration m) @ ''ms'') 6) @ runes_of ''  '' @ runes_of (padLeft (show_size (fmtBytes (rl_Size m))) 8)"
  have "plain (padLeft (FormatInt (rl_Duration m) @ ''ms'') 6)" "plain (padLeft (show_size (fmtBytes (rl_Size m))) 8)" "plain ''  ''"
    using plain_padded(2) plain_size plain_numbers(1) by simp_all
  then have e: "escape \<notin> set ?after" using runes_of_plain by (simp add: plain_def)
  have "PrintRequestLog now m =
     (runes_of ''  '' @ gray @ runes_of now @ ansi_reset @ runes_of ''  '' @ runes_of (padRight (rl_Method m) 6) @
     runes_of ''  '' @ runes_of (shown_path (rl_Path m)) @ runes_of ''  '' @
     log_colour (rl_Status m) @ runes_of (FormatInt (rl_Status m)) @ ansi_reset @ runes_of ''  '') @ gray @ ?after"
    by (simp add: PrintRequestLog_def)
  then show ?thesis using e by blast
qed

end
