(* ===== verification/Dashboard.thy ===== *)
theory Dashboard
  imports Tunnel_Properties Key_Properties Log_Adapter Config
begin

text \<open>
  The web dashboard (\<open>internal/dashboard/handler.go\<close>): routes, the two kinds of authentication, and one
  definition per endpoint. Its state are the components the endpoints work on; a request carries what the
  handlers read of it. Parsing of JSON bodies, the random source, the clock, the outcome of writing a file
  and the orders in which Go walks its maps are arguments.
\<close>

subsection \<open>State, requests and answers\<close>

record dashboard =
  db_tunnels :: tunnel_manager
  db_keys :: key_store
  db_config :: config_provider
  db_log :: log_adapter
  db_adminToken :: string
  db_domain :: string
  db_version :: string

definition NewHandler ::
    "tunnel_manager \<Rightarrow> key_store \<Rightarrow> config_provider \<Rightarrow> string \<Rightarrow> string \<Rightarrow> string \<Rightarrow> log_adapter \<Rightarrow> dashboard" where
  "NewHandler tm ks cp adminToken domain version rl =
     \<lparr>db_tunnels = tm, db_keys = ks, db_config = cp, db_log = rl, db_adminToken = adminToken, db_domain = domain,
      db_version = version\<rparr>"

record dash_request =
  dq_Method :: string
  dq_Path :: string
  dq_Authorization :: string
  dq_Query :: "string \<Rightarrow> string"
  dq_Body :: string

record dash_json =
  dj_register :: "string \<Rightarrow> (string \<times> string) option"
  dj_login :: "string \<Rightarrow> string option"
  dj_subdomain :: "string \<Rightarrow> string option"
  dj_updates :: "string \<Rightarrow> (string \<rightharpoonup> json_value) option"

text \<open>What a handler meets besides its request.\<close>

record dash_env =
  dx_keys :: "string list"
  dx_http :: "string list"
  dx_tcp :: "int list"
  dx_paths :: "string list"
  dx_updates :: "string list"
  dx_rnd :: "nat \<Rightarrow> nat"
  dx_now :: time
  dx_write :: write_outcome

datatype dash_error =
    InvalidBody | NameMissing | KeyFailed key_error | InvalidRequest | KeyRejected | NoSuchKey | SubdomainRequired
  | ConfigFailed provider_error | TunnelNotFound | Unauthorized | MissingKey | AdminNotConfigured | NoRoute

datatype dash_body =
    Error dash_error
  | PublicInfo string
  | NewKey string string "string list" string
  | KeyInfo "stored_key option"
  | Me string "string list" int time string
  | OwnedSubs "string list"
  | TunnelList "tunnel_stats list"
  | Health string int int int int
  | AdminStats aggregate_stats int
  | KeyList "(string \<times> stored_key) list"
  | Revoked
  | EditableConfig "string \<rightharpoonup> json_value"
  | Updated
  | Killed
  | Logs "db_entry list"
  | Traffic "db_bucket list"
  | Paths "db_path_count list"
  | EventStream nat string
  | Static string
  | MovedTo string

record dash_response =
  dr_status :: int
  dr_body :: dash_body

definition writeJSON :: "dash_body \<Rightarrow> dash_response" where
  "writeJSON b = \<lparr>dr_status = 200, dr_body = b\<rparr>"

definition writeCreated :: "dash_body \<Rightarrow> dash_response" where
  "writeCreated b = \<lparr>dr_status = 201, dr_body = b\<rparr>"

definition writeError :: "dash_error \<Rightarrow> int \<Rightarrow> dash_response" where
  "writeError e code = \<lparr>dr_status = code, dr_body = Error e\<rparr>"

subsection \<open>Routes\<close>

datatype endpoint =
    GetInfo | PostRegister | PostLogin | GetMe | PostSubdomain | DeleteSubdomain string | GetTunnels
  | GetLogs | GetTraffic | GetTopPaths | GetLogStream
  | AdminGetStats | AdminGetKeys | AdminDeleteKey string | AdminGetTunnels | AdminKill string | AdminGetConfig
  | AdminPutConfig | AdminGetLogs | AdminGetTraffic | AdminGetTopPaths | AdminGetLogStream
  | GetHealthz | StaticUser string | StaticAdmin string | Redirect string

text \<open>The value of the wildcard between a prefix and a suffix: one segment that is not empty.\<close>

definition path_value :: "string \<Rightarrow> string \<Rightarrow> string \<Rightarrow> string option" where
  "path_value pre suf path =
     (if HasPrefix path pre \<and> HasSuffix (TrimPrefix path pre) suf then
        let v = TrimSuffix (TrimPrefix path pre) suf in
        if v \<noteq> [] \<and> CHR ''/'' \<notin> set v then Some v else None
      else None)"

definition get_routes :: "(string \<times> endpoint) list" where
  "get_routes =
     [(''/_dashboard/api/info'', GetInfo), (''/_dashboard/api/me'', GetMe), (''/_dashboard/api/tunnels'', GetTunnels),
      (''/_dashboard/api/logs'', GetLogs), (''/_dashboard/api/stats/traffic'', GetTraffic),
      (''/_dashboard/api/stats/top-paths'', GetTopPaths), (''/_dashboard/api/logs/stream'', GetLogStream),
      (''/_admin/api/stats'', AdminGetStats), (''/_admin/api/keys'', AdminGetKeys), (''/_admin/api/tunnels'', AdminGetTunnels),
      (''/_admin/api/config'', AdminGetConfig), (''/_admin/api/logs'', AdminGetLogs),
      (''/_admin/api/stats/traffic'', AdminGetTraffic), (''/_admin/api/stats/top-paths'', AdminGetTopPaths),
      (''/_admin/api/logs/stream'', AdminGetLogStream), (''/_healthz'', GetHealthz)]"

text \<open>
  \<open>http.ServeMux\<close> prefers the more specific pattern, a \<open>GET\<close> pattern matches \<open>HEAD\<close> as well, and the root
  of a subtree without its slash is redirected. The path is one the multiplexer does not clean first.
\<close>

definition endpoint_of :: "string \<Rightarrow> string \<Rightarrow> endpoint option" where
  "endpoint_of meth path =
     (if meth = ''GET'' \<or> meth = ''HEAD'' then
        (case map_of get_routes path of
           Some ep \<Rightarrow> Some ep
         | None \<Rightarrow>
             if HasPrefix path ''/_dashboard/'' then Some (StaticUser (TrimPrefix path ''/_dashboard''))
             else if HasPrefix path ''/_admin/'' then Some (StaticAdmin (TrimPrefix path ''/_admin''))
             else if path = ''/_dashboard'' \<or> path = ''/_admin'' then Some (Redirect (path @ ''/''))
             else None)
      else if meth = ''POST'' then
        (if path = ''/_dashboard/api/register'' then Some PostRegister
         else if path = ''/_dashboard/api/login'' then Some PostLogin
         else if path = ''/_dashboard/api/subdomains'' then Some PostSubdomain
         else map_option AdminKill (path_value ''/_admin/api/tunnels/'' ''/kill'' path))
      else if meth = ''DELETE'' then
        (case path_value ''/_dashboard/api/subdomains/'' [] path of
           Some v \<Rightarrow> Some (DeleteSubdomain v)
         | None \<Rightarrow> map_option AdminDeleteKey (path_value ''/_admin/api/keys/'' [] path))
      else if meth = ''PUT'' then (if path = ''/_admin/api/config'' then Some AdminPutConfig else None)
      else None)"

subsection \<open>Authentication\<close>

definition bearer :: "dash_request \<Rightarrow> string" where
  "bearer r = TrimPrefix (dq_Authorization r) ''Bearer ''"

definition userAuth ::
    "(string \<Rightarrow> dash_request \<Rightarrow> dashboard \<Rightarrow> dash_response \<times> dashboard) \<Rightarrow> dash_request \<Rightarrow> dashboard \<Rightarrow> dash_response \<times> dashboard" where
  "userAuth handler r d =
     (let key = bearer r in
      if key = [] then (writeError MissingKey 401, d)
      else if \<not> adapter_Validate (db_keys d) key then (writeError KeyRejected 401, d)
      else handler key r d)"

definition adminOnly ::
    "(dash_request \<Rightarrow> dashboard \<Rightarrow> dash_response \<times> dashboard) \<Rightarrow> dash_request \<Rightarrow> dashboard \<Rightarrow> dash_response \<times> dashboard" where
  "adminOnly handler r d =
     (if db_adminToken d = [] then (writeError AdminNotConfigured 403, d)
      else if bearer r \<noteq> db_adminToken d then (writeError Unauthorized 401, d)
      else handler r d)"

subsection \<open>Endpoints of the user\<close>

definition handlePublicInfo :: "dashboard \<Rightarrow> dash_response \<times> dashboard" where
  "handlePublicInfo d = (writeJSON (PublicInfo (db_domain d)), d)"

definition dash_handleRegister ::
    "json_api \<Rightarrow> dash_json \<Rightarrow> dash_env \<Rightarrow> dash_request \<Rightarrow> dashboard \<Rightarrow> dash_response \<times> dashboard" where
  "dash_handleRegister J P x r d =
     (case dj_register P (dq_Body r) of
        None \<Rightarrow> (writeError InvalidBody 400, d)
      | Some (name, sub) \<Rightarrow>
          if name = [] then (writeError NameMissing 400, d)
          else
            let subs = (if sub \<noteq> [] then [sub] else []) in
            (case adapter_CreateKey J (dx_keys x) (dx_rnd x) (dx_now x) (dx_write x) name subs 10 (db_keys d) of
               (Inl e, ks) \<Rightarrow> (writeError (KeyFailed e) 400, d\<lparr>db_keys := ks\<rparr>)
             | (Inr key, ks) \<Rightarrow> (writeCreated (NewKey key name subs (db_domain d)), d\<lparr>db_keys := ks\<rparr>)))"

definition handleLogin :: "dash_json \<Rightarrow> dash_request \<Rightarrow> dashboard \<Rightarrow> dash_response \<times> dashboard" where
  "handleLogin P r d =
     (case dj_login P (dq_Body r) of
        None \<Rightarrow> (writeError InvalidRequest 400, d)
      | Some key \<Rightarrow>
          if \<not> adapter_Validate (db_keys d) key then (writeError KeyRejected 401, d)
          else (writeJSON (KeyInfo (adapter_GetKey (db_keys d) key)), d))"

definition handleMe :: "string \<Rightarrow> dash_request \<Rightarrow> dashboard \<Rightarrow> dash_response \<times> dashboard" where
  "handleMe keyID r d =
     (case adapter_GetKey (db_keys d) keyID of
        None \<Rightarrow> (writeError NoSuchKey 404, d)
      | Some info \<Rightarrow>
          (writeJSON (Me (ak_Name info) (ak_Subdomains info) (ak_MaxTunnels info) (ak_CreatedAt info) (db_domain d)), d))"

definition handleAddSubdomain ::
    "json_api \<Rightarrow> dash_json \<Rightarrow> dash_env \<Rightarrow> string \<Rightarrow> dash_request \<Rightarrow> dashboard \<Rightarrow> dash_response \<times> dashboard" where
  "handleAddSubdomain J P x keyID r d =
     (case dj_subdomain P (dq_Body r) of
        None \<Rightarrow> (writeError SubdomainRequired 400, d)
      | Some sub \<Rightarrow>
          if sub = [] then (writeError SubdomainRequired 400, d)
          else
            (case adapter_AddSubdomain J (dx_keys x) (dx_write x) keyID sub (db_keys d) of
               (Some e, ks) \<Rightarrow> (writeError (KeyFailed e) 400, d\<lparr>db_keys := ks\<rparr>)
             | (None, ks) \<Rightarrow> (writeCreated (OwnedSubs (adapter_OwnedSubdomains ks keyID)), d\<lparr>db_keys := ks\<rparr>)))"

definition handleRemoveSubdomain ::
    "json_api \<Rightarrow> dash_env \<Rightarrow> string \<Rightarrow> string \<Rightarrow> dash_request \<Rightarrow> dashboard \<Rightarrow> dash_response \<times> dashboard" where
  "handleRemoveSubdomain J x name keyID r d =
     (case adapter_RemoveSubdomain J (dx_write x) keyID name (db_keys d) of
        (Some e, ks) \<Rightarrow> (writeError (KeyFailed e) 400, d\<lparr>db_keys := ks\<rparr>)
      | (None, ks) \<Rightarrow> (writeJSON (OwnedSubs (adapter_OwnedSubdomains ks keyID)), d\<lparr>db_keys := ks\<rparr>))"

definition handleUserTunnels :: "dash_env \<Rightarrow> string \<Rightarrow> dash_request \<Rightarrow> dashboard \<Rightarrow> dash_response \<times> dashboard" where
  "handleUserTunnels x keyID r d =
     (writeJSON (TunnelList (TunnelsForToken (dx_http x) (dx_tcp x) (dx_now x) keyID (db_tunnels d))), d)"

definition query_limit :: "int \<Rightarrow> int \<Rightarrow> dash_request \<Rightarrow> int" where
  "query_limit dflt most r =
     (let l = dq_Query r ''limit'' in
      if l \<noteq> [] then (case Atoi l of Some n \<Rightarrow> if 0 < n \<and> n \<le> most then n else dflt | None \<Rightarrow> dflt) else dflt)"

definition handleUserLogs :: "string \<Rightarrow> dash_request \<Rightarrow> dashboard \<Rightarrow> dash_response \<times> dashboard" where
  "handleUserLogs keyID r d =
     (writeJSON (Logs (adapter_Recent (query_limit 100 500 r) (maskKey keyID) (db_log d))), d)"

definition handleUserTraffic :: "dash_env \<Rightarrow> string \<Rightarrow> dash_request \<Rightarrow> dashboard \<Rightarrow> dash_response \<times> dashboard" where
  "handleUserTraffic x keyID r d =
     (writeJSON (Traffic (adapter_TrafficStats (dx_now x) 30 (maskKey keyID) (db_log d))), d)"

definition handleUserTopPaths :: "dash_env \<Rightarrow> string \<Rightarrow> dash_request \<Rightarrow> dashboard \<Rightarrow> dash_response \<times> dashboard" where
  "handleUserTopPaths x keyID r d =
     (writeJSON (Paths (adapter_TopPaths (dx_paths x) 10 (maskKey keyID) (db_log d))), d)"

text \<open>
  \<open>serveSSE\<close> subscribes and then answers the events of its loop: an entry of the channel or its end, the tick
  of the keepalive timer, the end of the request, when it cancels the subscription. What is written are the
  comments and the entries of the filter; the result says whether the loop has returned.
\<close>

definition serveSSE :: "string \<Rightarrow> dashboard \<Rightarrow> dash_response \<times> dashboard" where
  "serveSSE filterToken d =
     (case adapter_Subscribe (db_log d) of (ch, rl) \<Rightarrow> (writeJSON (EventStream ch filterToken), d\<lparr>db_log := rl\<rparr>))"

datatype sse_event = SSEEntry db_entry | SSEClosed | SSEKeepalive | SSERequestDone

datatype sse_line = Connected | Data db_entry | Ping

fun sse_loop :: "string \<Rightarrow> sse_event list \<Rightarrow> sse_line list \<times> bool" where
  "sse_loop filterToken [] = ([], False)"
| "sse_loop filterToken (SSEEntry e # evs) =
     (case sse_loop filterToken evs of (ls, ret) \<Rightarrow>
        (if filterToken \<noteq> [] \<and> dbe_Token e \<noteq> filterToken then ls else Data e # ls, ret))"
| "sse_loop filterToken (SSEClosed # evs) = ([], True)"
| "sse_loop filterToken (SSEKeepalive # evs) = (case sse_loop filterToken evs of (ls, ret) \<Rightarrow> (Ping # ls, ret))"
| "sse_loop filterToken (SSERequestDone # evs) = ([], True)"

definition sse_output :: "string \<Rightarrow> sse_event list \<Rightarrow> sse_line list" where
  "sse_output filterToken evs = Connected # fst (sse_loop filterToken evs)"

text \<open>The entries sent, of those that arrive before the end.\<close>

definition sse_sent :: "string \<Rightarrow> db_entry list \<Rightarrow> db_entry list" where
  "sse_sent filterToken entries = filter (\<lambda>e. \<not> (filterToken \<noteq> [] \<and> dbe_Token e \<noteq> filterToken)) entries"

fun arriving :: "sse_event list \<Rightarrow> db_entry list" where
  "arriving (SSEEntry e # evs) = e # arriving evs"
| "arriving (SSEKeepalive # evs) = arriving evs"
| "arriving _ = []"

fun data_lines :: "sse_line list \<Rightarrow> db_entry list" where
  "data_lines [] = []"
| "data_lines (Data e # ls) = e # data_lines ls"
| "data_lines (l # ls) = data_lines ls"

lemma sse_loop_sends: "data_lines (fst (sse_loop filterToken evs)) = sse_sent filterToken (arriving evs)"
  by (induction filterToken evs rule: sse_loop.induct) (auto simp: sse_sent_def split: prod.split)

text \<open>A user's stream shows nothing but entries with the mask of that user's key, each of them once and in order.\<close>

lemma user_stream_confined:
  "data_lines (sse_output (maskKey key) evs) = filter (\<lambda>e. dbe_Token e = maskKey key) (arriving evs)"
  using sse_loop_sends [of "maskKey key" evs] by (simp add: sse_output_def sse_sent_def maskKey_def)

definition handleUserLogStream :: "dash_request \<Rightarrow> dashboard \<Rightarrow> dash_response \<times> dashboard" where
  "handleUserLogStream r d =
     (let key = dq_Query r ''key'' in
      if key = [] \<or> \<not> adapter_Validate (db_keys d) key then (writeError Unauthorized 401, d)
      else serveSSE (maskKey key) d)"

subsection \<open>Health and the administrator\<close>

definition total_keys :: "dash_env \<Rightarrow> dashboard \<Rightarrow> int" where
  "total_keys x d = int (length (range_vals (dx_keys x) (adapter_ListKeys (db_keys d))))"

definition handleHealthz :: "dash_env \<Rightarrow> dashboard \<Rightarrow> dash_response \<times> dashboard" where
  "handleHealthz x d =
     (let s = StatsForDashboard (dx_http x) (dx_tcp x) (db_tunnels d) in
      (writeJSON (Health (db_version d) (ag_TotalTunnels s) (total_keys x d) (ag_BytesIn s) (ag_BytesOut s)), d))"

definition handleAdminStats :: "dash_env \<Rightarrow> dash_request \<Rightarrow> dashboard \<Rightarrow> dash_response \<times> dashboard" where
  "handleAdminStats x r d =
     (writeJSON (AdminStats (StatsForDashboard (dx_http x) (dx_tcp x) (db_tunnels d)) (total_keys x d)), d)"

definition list_keys :: "string list \<Rightarrow> (string \<rightharpoonup> stored_key) \<Rightarrow> (string \<times> stored_key) list" where
  "list_keys ids m = List.map_filter (\<lambda>i. map_option (\<lambda>k. (maskKey i, k)) (m i)) ids"

definition handleAdminListKeys :: "dash_env \<Rightarrow> dash_request \<Rightarrow> dashboard \<Rightarrow> dash_response \<times> dashboard" where
  "handleAdminListKeys x r d = (writeJSON (KeyList (list_keys (dx_keys x) (adapter_ListKeys (db_keys d)))), d)"

definition handleAdminRevokeKey ::
    "json_api \<Rightarrow> dash_env \<Rightarrow> string \<Rightarrow> dash_request \<Rightarrow> dashboard \<Rightarrow> dash_response \<times> dashboard" where
  "handleAdminRevokeKey J x i r d =
     (case adapter_RevokeKey J (dx_keys x) (dx_write x) i (db_keys d) of
        (Some e, ks) \<Rightarrow> (writeError (KeyFailed e) 404, d\<lparr>db_keys := ks\<rparr>)
      | (None, ks) \<Rightarrow> (writeJSON Revoked, d\<lparr>db_keys := ks\<rparr>))"

definition handleAdminTunnels :: "dash_env \<Rightarrow> dash_request \<Rightarrow> dashboard \<Rightarrow> dash_response \<times> dashboard" where
  "handleAdminTunnels x r d =
     (writeJSON (TunnelList (ListTunnelsForDashboard (dx_http x) (dx_tcp x) (dx_now x) (db_tunnels d))), d)"

definition handleGetConfig :: "dash_request \<Rightarrow> dashboard \<Rightarrow> dash_response \<times> dashboard" where
  "handleGetConfig r d = (writeJSON (EditableConfig (GetEditableConfig (db_config d))), d)"

definition handleUpdateConfig ::
    "(server_config \<Rightarrow> string + string) \<Rightarrow> dash_json \<Rightarrow> dash_env \<Rightarrow> dash_request \<Rightarrow> dashboard \<Rightarrow> dash_response \<times> dashboard" where
  "handleUpdateConfig yaml P x r d =
     (case dj_updates P (dq_Body r) of
        None \<Rightarrow> (writeError InvalidBody 400, d)
      | Some updates \<Rightarrow>
          (case UpdateConfig yaml (dx_write x) (dx_updates x) updates (db_config d) of
             (Some e, cp) \<Rightarrow> (writeError (ConfigFailed e) 400, d\<lparr>db_config := cp\<rparr>)
           | (None, cp) \<Rightarrow> (writeJSON Updated, d\<lparr>db_config := cp\<rparr>)))"

definition handleKill :: "dash_env \<Rightarrow> string \<Rightarrow> dash_request \<Rightarrow> dashboard \<Rightarrow> dash_response \<times> dashboard" where
  "handleKill x i r d =
     (case KillTunnelByID (dx_http x) (dx_tcp x) i (db_tunnels d) of
        (False, tm) \<Rightarrow> (writeError TunnelNotFound 404, d\<lparr>db_tunnels := tm\<rparr>)
      | (True, tm) \<Rightarrow> (writeJSON Killed, d\<lparr>db_tunnels := tm\<rparr>))"

definition handleAdminLogs :: "dash_request \<Rightarrow> dashboard \<Rightarrow> dash_response \<times> dashboard" where
  "handleAdminLogs r d = (writeJSON (Logs (adapter_Recent (query_limit 200 1000 r) [] (db_log d))), d)"

definition handleAdminTraffic :: "dash_env \<Rightarrow> dash_request \<Rightarrow> dashboard \<Rightarrow> dash_response \<times> dashboard" where
  "handleAdminTraffic x r d = (writeJSON (Traffic (adapter_TrafficStats (dx_now x) 60 [] (db_log d))), d)"

definition handleAdminTopPaths :: "dash_env \<Rightarrow> dash_request \<Rightarrow> dashboard \<Rightarrow> dash_response \<times> dashboard" where
  "handleAdminTopPaths x r d = (writeJSON (Paths (adapter_TopPaths (dx_paths x) 20 [] (db_log d))), d)"

definition handleAdminLogStream :: "dash_request \<Rightarrow> dashboard \<Rightarrow> dash_response \<times> dashboard" where
  "handleAdminLogStream r d =
     (if dq_Query r ''key'' \<noteq> db_adminToken d then (writeError Unauthorized 401, d) else serveSSE [] d)"

subsection \<open>The whole dashboard\<close>

definition serve_endpoint ::
    "json_api \<Rightarrow> (server_config \<Rightarrow> string + string) \<Rightarrow> dash_json \<Rightarrow> dash_env \<Rightarrow> endpoint \<Rightarrow> dash_request \<Rightarrow> dashboard \<Rightarrow>
     dash_response \<times> dashboard" where
  "serve_endpoint J yaml P x ep r d =
     (case ep of
        GetInfo \<Rightarrow> handlePublicInfo d
      | PostRegister \<Rightarrow> dash_handleRegister J P x r d
      | PostLogin \<Rightarrow> handleLogin P r d
      | GetMe \<Rightarrow> userAuth handleMe r d
      | PostSubdomain \<Rightarrow> userAuth (handleAddSubdomain J P x) r d
      | DeleteSubdomain name \<Rightarrow> userAuth (handleRemoveSubdomain J x name) r d
      | GetTunnels \<Rightarrow> userAuth (handleUserTunnels x) r d
      | GetLogs \<Rightarrow> userAuth handleUserLogs r d
      | GetTraffic \<Rightarrow> userAuth (handleUserTraffic x) r d
      | GetTopPaths \<Rightarrow> userAuth (handleUserTopPaths x) r d
      | GetLogStream \<Rightarrow> handleUserLogStream r d
      | AdminGetStats \<Rightarrow> adminOnly (handleAdminStats x) r d
      | AdminGetKeys \<Rightarrow> adminOnly (handleAdminListKeys x) r d
      | AdminDeleteKey i \<Rightarrow> adminOnly (handleAdminRevokeKey J x i) r d
      | AdminGetTunnels \<Rightarrow> adminOnly (handleAdminTunnels x) r d
      | AdminKill i \<Rightarrow> adminOnly (handleKill x i) r d
      | AdminGetConfig \<Rightarrow> adminOnly handleGetConfig r d
      | AdminPutConfig \<Rightarrow> adminOnly (handleUpdateConfig yaml P x) r d
      | AdminGetLogs \<Rightarrow> adminOnly handleAdminLogs r d
      | AdminGetTraffic \<Rightarrow> adminOnly (handleAdminTraffic x) r d
      | AdminGetTopPaths \<Rightarrow> adminOnly (handleAdminTopPaths x) r d
      | AdminGetLogStream \<Rightarrow> handleAdminLogStream r d
      | GetHealthz \<Rightarrow> handleHealthz x d
      | StaticUser file \<Rightarrow> (writeJSON (Static file), d)
      | StaticAdmin file \<Rightarrow> (writeJSON (Static file), d)
      | Redirect target \<Rightarrow> (\<lparr>dr_status = 301, dr_body = MovedTo target\<rparr>, d))"

text \<open>\<open>ServeHTTP\<close>: a path without a route is not found, one that has a route for another method is refused.\<close>

definition ServeHTTP ::
    "json_api \<Rightarrow> (server_config \<Rightarrow> string + string) \<Rightarrow> dash_json \<Rightarrow> dash_env \<Rightarrow> dash_request \<Rightarrow> dashboard \<Rightarrow>
     dash_response \<times> dashboard" where
  "ServeHTTP J yaml P x r d =
     (case endpoint_of (dq_Method r) (dq_Path r) of
        Some ep \<Rightarrow> serve_endpoint J yaml P x ep r d
      | None \<Rightarrow>
          (writeError NoRoute (if \<exists>m \<in> set [''GET'', ''POST'', ''PUT'', ''DELETE'']. endpoint_of m (dq_Path r) \<noteq> None
             then 405 else 404), d))"

end
