(* ===== verification/Dashboard_Properties.thy ===== *)
theory Dashboard_Properties
  imports Dashboard
begin

text \<open>
  The properties of the dashboard: who may do what, that its requests are steps of the components it
  works on, and what a user sees of the log.
\<close>

subsection \<open>The components behind the requests\<close>

lemmas handler_defs = handlePublicInfo_def dash_handleRegister_def handleLogin_def handleMe_def handleAddSubdomain_def
  handleRemoveSubdomain_def handleUserTunnels_def handleUserLogs_def handleUserTraffic_def handleUserTopPaths_def
  serveSSE_def handleUserLogStream_def handleHealthz_def handleAdminStats_def handleAdminListKeys_def
  handleAdminRevokeKey_def handleAdminTunnels_def handleGetConfig_def handleUpdateConfig_def handleKill_def
  handleAdminLogs_def handleAdminTraffic_def handleAdminTopPaths_def handleAdminLogStream_def

text \<open>The part of the state a request can change, component by component.\<close>

lemma userAuth_cases:
  assumes "userAuth handler r d = (resp, d')"
  obtains (refused) e where "resp = writeError e 401" "d' = d" "bearer r = [] \<or> \<not> key_Validate (db_keys d) (bearer r)"
  | (passed) "bearer r \<noteq> []" "key_Validate (db_keys d) (bearer r)" "handler (bearer r) r d = (resp, d')"
  using assms by (auto simp: userAuth_def Let_def split: if_splits)

lemma adminOnly_cases:
  assumes "adminOnly handler r d = (resp, d')"
  obtains (refused) e c where "resp = writeError e c" "c = 401 \<or> c = 403" "d' = d"
      "\<not> (db_adminToken d \<noteq> [] \<and> bearer r = db_adminToken d)"
  | (passed) "db_adminToken d \<noteq> []" "bearer r = db_adminToken d" "handler r d = (resp, d')"
  using assms by (auto simp: adminOnly_def split: if_splits)

lemma register_key_step:
  assumes "dash_handleRegister J P x r d = (resp, d')" and "covers (dx_keys x) (ks_keys (db_keys d))"
  shows "(key_step J False)\<^sup>=\<^sup>= (db_keys d) (db_keys d') \<and> db_tunnels d' = db_tunnels d"
proof -
  show ?thesis using assms
    by (auto simp: dash_handleRegister_def Let_def intro: key_step.create_ok key_step.create_err
        split: option.splits prod.splits if_splits sum.splits)
qed

lemma add_key_step:
  assumes "handleAddSubdomain J P x key r d = (resp, d')" and "covers (dx_keys x) (ks_keys (db_keys d))"
  shows "(key_step J False)\<^sup>=\<^sup>= (db_keys d) (db_keys d') \<and> db_tunnels d' = db_tunnels d"
  using assms
  by (auto simp: handleAddSubdomain_def intro: key_step.add split: option.splits prod.splits if_splits)

lemma remove_key_step:
  assumes "handleRemoveSubdomain J x name key r d = (resp, d')"
  shows "(key_step J False)\<^sup>=\<^sup>= (db_keys d) (db_keys d') \<and> db_tunnels d' = db_tunnels d"
  using assms
  by (auto simp: handleRemoveSubdomain_def intro: key_step.remove split: option.splits prod.splits)

lemma revoke_key_step:
  assumes "handleAdminRevokeKey J x i r d = (resp, d')"
  shows "(key_step J False)\<^sup>=\<^sup>= (db_keys d) (db_keys d') \<and> db_tunnels d' = db_tunnels d"
  using assms
  by (auto simp: handleAdminRevokeKey_def intro: key_step.revoke split: option.splits prod.splits)

lemma kill_tm_step:
  assumes "handleKill x i r d = (resp, d')"
  shows "db_tunnels d' = snd (KillTunnelByID (dx_http x) (dx_tcp x) i (db_tunnels d)) \<and> db_keys d' = db_keys d"
  using assms by (auto simp: handleKill_def split: prod.splits bool.splits)

lemma serve_endpoint_steps:
  assumes "serve_endpoint J yaml P x ep r d = (resp, d')" and "covers (dx_keys x) (ks_keys (db_keys d))"
  shows "(key_step J False)\<^sup>=\<^sup>= (db_keys d) (db_keys d') \<and> tm_step\<^sup>=\<^sup>= (db_tunnels d) (db_tunnels d')"
proof (cases ep)
  case PostRegister
  then show ?thesis using assms register_key_step by (auto simp: serve_endpoint_def)
next
  case PostSubdomain
  then have "userAuth (handleAddSubdomain J P x) r d = (resp, d')" using assms by (simp add: serve_endpoint_def)
  then show ?thesis using add_key_step [OF _ assms(2)] by (cases rule: userAuth_cases) auto
next
  case (DeleteSubdomain name)
  then have "userAuth (handleRemoveSubdomain J x name) r d = (resp, d')" using assms by (simp add: serve_endpoint_def)
  then show ?thesis using remove_key_step by (cases rule: userAuth_cases) auto
next
  case (AdminDeleteKey i)
  then have "adminOnly (handleAdminRevokeKey J x i) r d = (resp, d')" using assms by (simp add: serve_endpoint_def)
  then show ?thesis using revoke_key_step by (cases rule: adminOnly_cases) auto
next
  case (AdminKill i)
  then have "adminOnly (handleKill x i) r d = (resp, d')" using assms by (simp add: serve_endpoint_def)
  then show ?thesis
  proof (cases rule: adminOnly_cases)
    case passed
    then show ?thesis using kill_tm_step [OF passed(3)] tm_step.kill by auto
  qed auto
qed (use assms in \<open>auto simp: serve_endpoint_def userAuth_def adminOnly_def handler_defs Let_def
      split: option.splits prod.splits if_splits\<close>)

lemma ServeHTTP_steps:
  assumes "ServeHTTP J yaml P x r d = (resp, d')" and "covers (dx_keys x) (ks_keys (db_keys d))"
  shows "(key_step J False)\<^sup>=\<^sup>= (db_keys d) (db_keys d') \<and> tm_step\<^sup>=\<^sup>= (db_tunnels d) (db_tunnels d')"
  using assms serve_endpoint_steps [OF _ assms(2)] by (auto simp: ServeHTTP_def split: option.splits)

subsection \<open>Invariants\<close>

definition dash_inv :: "dashboard \<Rightarrow> bool" where
  "dash_inv d \<longleftrightarrow> tm_inv (db_tunnels d) \<and> keys_inv (ks_keys (db_keys d))"

text \<open>The dashboard at work: its own requests, and between them the steps the rest of the server takes.\<close>

inductive dash_step ::
    "json_api \<Rightarrow> (server_config \<Rightarrow> string + string) \<Rightarrow> dash_json \<Rightarrow> dashboard \<Rightarrow> dashboard \<Rightarrow> bool" for J yaml P where
  request: "covers (dx_keys x) (ks_keys (db_keys d)) \<Longrightarrow> ServeHTTP J yaml P x r d = (resp, d') \<Longrightarrow> dash_step J yaml P d d'"
| tunnels: "tm_step (db_tunnels d) tm \<Longrightarrow> dash_step J yaml P d (d\<lparr>db_tunnels := tm\<rparr>)"
| keys: "key_step J False (db_keys d) ks \<Longrightarrow> dash_step J yaml P d (d\<lparr>db_keys := ks\<rparr>)"

lemma dash_step_inv: "dash_inv d \<Longrightarrow> dash_step J yaml P d d' \<Longrightarrow> dash_inv d'"
proof (erule dash_step.cases)
  fix x d0 r resp d1
  assume "dash_inv d" "d = d0" "d' = d1" "covers (dx_keys x) (ks_keys (db_keys d0))" "ServeHTTP J yaml P x r d0 = (resp, d1)"
  then have i: "tm_inv (db_tunnels d)" "keys_inv (ks_keys (db_keys d))"
      and s: "(key_step J False)\<^sup>=\<^sup>= (db_keys d) (db_keys d')" "tm_step\<^sup>=\<^sup>= (db_tunnels d) (db_tunnels d')"
    using ServeHTTP_steps by (auto simp: dash_inv_def)
  show "dash_inv d'" unfolding dash_inv_def using s i key_step_inv tm_inv_step by (metis sup2E)
qed (auto simp: dash_inv_def intro: key_step_inv tm_inv_step)

definition start_dashboard :: "int \<Rightarrow> int \<Rightarrow> string \<Rightarrow> config_provider \<Rightarrow> string \<Rightarrow> string \<Rightarrow> string \<Rightarrow> dashboard" where
  "start_dashboard lo hi path cp adminToken domain version =
     NewHandler (NewTunnelManager lo hi) (no_keys path) cp adminToken domain version (NewRequestLogAdapter NewRequestLog)"

lemma start_dashboard_inv: "dash_inv (start_dashboard lo hi path cp t dm v)"
  by (simp add: dash_inv_def start_dashboard_def NewHandler_def tm_inv_new no_keys_def keys_inv_empty)

interpretation web: state_machine "start_dashboard lo hi path cp t dm v" "dash_step J yaml P" dash_inv
  for lo hi path cp t dm v J yaml P
  by unfold_locales (rule start_dashboard_inv, rule dash_step_inv)


definition demo_env :: dash_env where
  "demo_env = \<lparr>dx_keys = [], dx_http = [], dx_tcp = [], dx_paths = [], dx_updates = [], dx_rnd = (\<lambda>_. 7), dx_now = 5, dx_write = WriteOk\<rparr>"

definition demo_bodies :: dash_json where
  "demo_bodies = \<lparr>dj_register = (\<lambda>b. Some (''ann'', ''shop'')), dj_login = (\<lambda>b. Some b), dj_subdomain = (\<lambda>b. Some b), dj_updates = (\<lambda>b. None)\<rparr>"

definition register_post :: dash_request where
  "register_post = \<lparr>dq_Method = ''POST'', dq_Path = ''/_dashboard/api/register'', dq_Authorization = [], dq_Query = (\<lambda>_. []), dq_Body = []\<rparr>"

definition demo_dashboard :: dashboard where
  "demo_dashboard = start_dashboard 10000 65535 ''keys.json'' \<lparr>cp_cfg = zero_config, cp_filePath = [], cp_file = NotExist\<rparr> ''admin-token'' ''example.com'' ''1.0''"

lemma demo_dash_keys: "db_keys demo_dashboard = no_keys ''keys.json''"
  by (simp add: demo_dashboard_def start_dashboard_def NewHandler_def)

lemma default_limit: "CreateKey J ord rnd now w name subs 10 ks = CreateKey J ord rnd now w name subs 0 ks"
  by (simp add: CreateKey_def)

lemma demo_register:
  "ServeHTTP demo_json yaml demo_bodies demo_env register_post demo_dashboard =
     (writeCreated (NewKey (GenerateAPIKey (\<lambda>_. 7)) ''ann'' [''shop''] (db_domain demo_dashboard)), demo_dashboard\<lparr>db_keys := demo_store\<rparr>)"
  using demo_create default_limit [of demo_json "[]" "\<lambda>_. 7" 5 WriteOk "''ann''" "[''shop'']"]
  by (simp add: ServeHTTP_def endpoint_of_def register_post_def serve_endpoint_def dash_handleRegister_def demo_bodies_def
      demo_env_def demo_dash_keys Let_def)


subsection \<open>Who may do what\<close>

fun is_admin :: "endpoint \<Rightarrow> bool" where
  "is_admin AdminGetStats = True" | "is_admin AdminGetKeys = True" | "is_admin (AdminDeleteKey i) = True"
| "is_admin AdminGetTunnels = True" | "is_admin (AdminKill i) = True" | "is_admin AdminGetConfig = True"
| "is_admin AdminPutConfig = True" | "is_admin AdminGetLogs = True" | "is_admin AdminGetTraffic = True"
| "is_admin AdminGetTopPaths = True" | "is_admin ep = False"

lemma adminOnly_refuses:
  "\<not> (db_adminToken d \<noteq> [] \<and> bearer r = db_adminToken d) \<Longrightarrow>
     dr_status (fst (adminOnly h r d)) \<in> {401, 403} \<and> snd (adminOnly h r d) = d"
  by (auto simp: adminOnly_def writeError_def)

lemma admin_refused:
  assumes "is_admin ep" and "\<not> (db_adminToken d \<noteq> [] \<and> bearer r = db_adminToken d)"
  shows "dr_status (fst (serve_endpoint J yaml P x ep r d)) \<in> {401, 403} \<and> snd (serve_endpoint J yaml P x ep r d) = d"
  using assms(1) adminOnly_refuses [OF assms(2)] by (cases ep) (simp_all add: serve_endpoint_def)

lemma no_kill_elsewhere:
  "\<not> is_admin ep \<Longrightarrow> db_tunnels (snd (serve_endpoint J yaml P x ep r d)) = db_tunnels d \<and>
     db_config (snd (serve_endpoint J yaml P x ep r d)) = db_config d"
  by (cases ep)
    (auto simp: serve_endpoint_def userAuth_def handler_defs Let_def split: option.splits prod.splits sum.splits)


definition config_put :: dash_request where
  "config_put = \<lparr>dq_Method = ''PUT'', dq_Path = ''/_admin/api/config'', dq_Authorization = ''Bearer guess'', dq_Query = (\<lambda>_. []), dq_Body = []\<rparr>"


text \<open>
  The administrator's log stream has no such guard: when no admin token is configured, an empty \<open>key\<close>
  matches it and anyone gets the traffic of all users.
\<close>

lemma open_admin_stream:
  assumes "db_adminToken d = []" and "dq_Query r ''key'' = []"
  shows "\<exists>ch d'. serve_endpoint J yaml P x AdminGetLogStream r d = (writeJSON (EventStream ch []), d') \<and>
    sse_sent [] entries = entries"
  using assms by (auto simp: serve_endpoint_def handleAdminLogStream_def serveSSE_def sse_sent_def split: prod.split)

text \<open>Registration through the dashboard does not look at \<open>allow_registration\<close>.\<close>

lemma registers_when_disabled:
  "\<exists>d'. ServeHTTP demo_json yaml demo_bodies demo_env register_post
       (demo_dashboard\<lparr>db_config := (db_config demo_dashboard)\<lparr>cp_cfg := zero_config\<lparr>sc_AllowRegistration := Some False\<rparr>\<rparr>\<rparr>) =
     (writeCreated (NewKey (GenerateAPIKey (\<lambda>_. 7)) ''ann'' [''shop''] (db_domain demo_dashboard)), d')"
  using demo_create default_limit [of demo_json "[]" "\<lambda>_. 7" 5 WriteOk "''ann''" "[''shop'']"]
  by (simp add: ServeHTTP_def endpoint_of_def register_post_def serve_endpoint_def dash_handleRegister_def demo_bodies_def
      demo_env_def demo_dash_keys Let_def)

subsection \<open>Users among themselves\<close>

text \<open>All of a key but its subdomains.\<close>

definition bare :: "api_key option \<Rightarrow> api_key option" where
  "bare = map_option (ak_Subdomains_update (\<lambda>_. []))"

lemma save_keys: "saveLocked J w ks = (e, ks') \<Longrightarrow> ks_keys ks' = ks_keys ks"
  using saveLocked_keys [of J w ks] by simp

lemma AddSubdomain_confined:
  assumes "AddSubdomain J ord w key sub ks = (e, ks')"
  shows "(\<forall>i. i \<noteq> key \<longrightarrow> ks_keys ks' i = ks_keys ks i) \<and> bare (ks_keys ks' key) = bare (ks_keys ks key)"
  using assms
  by (auto simp: AddSubdomain_def apfst_def map_prod_def update_key_def bare_def Let_def dest!: save_keys
      split: option.splits if_splits prod.splits)

lemma RemoveSubdomain_confined:
  assumes "RemoveSubdomain J w key sub ks = (e, ks')"
  shows "(\<forall>i. i \<noteq> key \<longrightarrow> ks_keys ks' i = ks_keys ks i) \<and> bare (ks_keys ks' key) = bare (ks_keys ks key)"
  using assms
  by (auto simp: RemoveSubdomain_def apfst_def map_prod_def update_key_def bare_def dest!: save_keys
      split: option.splits prod.splits)

lemma endpoint_confined:
  assumes "serve_endpoint J yaml P x ep r d = (resp, d')" and "\<not> is_admin ep" and "ep \<noteq> PostRegister"
  shows "(\<forall>i. i \<noteq> bearer r \<longrightarrow> ks_keys (db_keys d') i = ks_keys (db_keys d) i) \<and>
    bare (ks_keys (db_keys d') (bearer r)) = bare (ks_keys (db_keys d) (bearer r)) \<and>
    (\<not> key_Validate (db_keys d) (bearer r) \<longrightarrow> db_keys d' = db_keys d)"
proof (cases ep)
  case PostSubdomain
  then have "userAuth (handleAddSubdomain J P x) r d = (resp, d')" using assms by (simp add: serve_endpoint_def)
  then show ?thesis
    by (cases rule: userAuth_cases)
      (auto simp: handleAddSubdomain_def dest!: AddSubdomain_confined split: option.splits prod.splits if_splits)
next
  case (DeleteSubdomain name)
  then have "userAuth (handleRemoveSubdomain J x name) r d = (resp, d')" using assms by (simp add: serve_endpoint_def)
  then show ?thesis
    by (cases rule: userAuth_cases)
      (auto simp: handleRemoveSubdomain_def dest!: RemoveSubdomain_confined split: option.splits prod.splits)
qed (use assms in \<open>auto simp: serve_endpoint_def userAuth_def handler_defs Let_def split: option.splits prod.splits if_splits\<close>)

text \<open>
  A user of the dashboard can touch only the own account: apart from registering a new one, no request
  to a user's endpoint changes the key of anyone else, and of the own key only the list of subdomains; and
  without a valid key in the header it changes nothing.
\<close>

theorem user_request_confined:
  assumes "ServeHTTP J yaml P x r d = (resp, d')"
    and "\<And>ep. endpoint_of (dq_Method r) (dq_Path r) = Some ep \<Longrightarrow> \<not> is_admin ep \<and> ep \<noteq> PostRegister"
  shows "(\<forall>i. i \<noteq> bearer r \<longrightarrow> ks_keys (db_keys d') i = ks_keys (db_keys d) i) \<and>
    bare (ks_keys (db_keys d') (bearer r)) = bare (ks_keys (db_keys d) (bearer r)) \<and>
    (\<not> key_Validate (db_keys d) (bearer r) \<longrightarrow> db_keys d' = db_keys d)"
proof (cases "endpoint_of (dq_Method r) (dq_Path r)")
  case None
  then show ?thesis using assms(1) by (auto simp: ServeHTTP_def)
next
  case (Some ep)
  then show ?thesis using endpoint_confined [of J yaml P x ep r d resp d'] assms by (simp add: ServeHTTP_def)
qed

definition claim_post :: dash_request where
  "claim_post = \<lparr>dq_Method = ''POST'', dq_Path = ''/_dashboard/api/subdomains'', dq_Authorization = ''Bearer htk_stranger'',
     dq_Query = (\<lambda>_. []), dq_Body = ''shop''\<rparr>"

theorem user_request_confined_witness:
  "ks_keys (db_keys (snd (ServeHTTP demo_json (\<lambda>_. Inl []) demo_bodies demo_env claim_post (demo_dashboard\<lparr>db_keys := demo_store\<rparr>))))
     (GenerateAPIKey (\<lambda>_. 7)) = ks_keys demo_store (GenerateAPIKey (\<lambda>_. 7))"
proof -
  let ?d = "demo_dashboard\<lparr>db_keys := demo_store\<rparr>"
  obtain resp d' where h: "ServeHTTP demo_json (\<lambda>_. Inl []) demo_bodies demo_env claim_post ?d = (resp, d')" by fastforce
  have b: "bearer claim_post = ''htk_stranger''" by code_simp
  have "length (GenerateAPIKey (\<lambda>_. 7)) \<noteq> length ''htk_stranger''" using length_GenerateAPIKey by simp
  then have "GenerateAPIKey (\<lambda>_. 7) \<noteq> bearer claim_post" unfolding b by metis
  moreover have "endpoint_of (dq_Method claim_post) (dq_Path claim_post) = Some ep \<Longrightarrow> \<not> is_admin ep \<and> ep \<noteq> PostRegister" for ep
    by (auto simp: endpoint_of_def claim_post_def)
  ultimately show ?thesis using user_request_confined [OF h] h by simp
qed

subsection \<open>Revoking from the administrator's list\<close>

text \<open>
  The list of keys the administrator gets does not work with the button next to it: no preview on the
  list, with keys of at least twelve bytes in the store, is accepted by the endpoint that revokes; it
  always answers 404 and revokes nothing.
\<close>

theorem listed_preview_not_revocable:
  assumes "\<And>i. ks_keys (db_keys d) i \<noteq> None \<Longrightarrow> 12 \<le> length i"
    and "fst (handleAdminListKeys x r d) = writeJSON (KeyList rows)" and "(preview, k) \<in> set rows"
  shows "handleAdminRevokeKey J y preview r2 d = (writeError (KeyFailed KeyNotFound) 404, d)"
proof -
  obtain i where "preview = maskKey i"
    using assms(2,3) by (auto simp: handleAdminListKeys_def writeJSON_def list_keys_def List.map_filter_def)
  then show ?thesis using preview_not_found [of "db_keys d", OF assms(1)]
    by (simp add: handleAdminRevokeKey_def)
qed

theorem listed_preview_not_revocable_witness:
  "handleAdminRevokeKey demo_json demo_env (maskKey (GenerateAPIKey (\<lambda>_. 7))) register_post (demo_dashboard\<lparr>db_keys := demo_store\<rparr>) =
     (writeError (KeyFailed KeyNotFound) 404, demo_dashboard\<lparr>db_keys := demo_store\<rparr>)"
proof -
  let ?d = "demo_dashboard\<lparr>db_keys := demo_store\<rparr>" and ?k = "GenerateAPIKey (\<lambda>_. 7)"
  have "fst (handleAdminListKeys (demo_env\<lparr>dx_keys := [?k]\<rparr>) register_post ?d) =
      writeJSON (KeyList (list_keys [?k] (adapter_ListKeys demo_store)))"
    by (simp add: handleAdminListKeys_def)
  moreover obtain k where "(maskKey ?k, k) \<in> set (list_keys [?k] (adapter_ListKeys demo_store))"
    by (simp add: list_keys_def List.map_filter_def adapter_ListKeys_def ListKeys_def demo_store_def)
  moreover have "ks_keys (db_keys ?d) i \<noteq> None \<Longrightarrow> 12 \<le> length i" for i
    by (auto simp: demo_store_def split: if_splits)
  ultimately show ?thesis using listed_preview_not_revocable by blast
qed

end
