(* ===== verification/Maintenance.thy ===== *)
theory Maintenance
  imports Config
begin

text \<open>
  The maintenance commands of the server binary: backup and restore (\<open>cmd/server/backup.go\<close>), the upgrade
  (\<open>upgrade.go\<close>), the health check (\<open>health.go\<close>) and the choice of the configuration file (\<open>serve.go\<close>). Files
  are a map from paths; an archive is the list of its entries, which is what \<open>archive/tar\<close> over
  \<open>compress/gzip\<close> writes and reads back. Which calls of the operating system fail is an argument.
\<close>

subsection \<open>Files\<close>

datatype content = Plain string | TarGz "tar_entry list" | Broken
  and tar_entry = TarEntry (te_Name: string) (te_Regular: bool) (te_Mode: int) (te_Data: content)

datatype node = Regular content int | Special

type_synonym files = "string \<rightharpoonup> node"

definition fileExists :: "files \<Rightarrow> string \<Rightarrow> bool" where
  "fileExists fs path = (case fs path of Some (Regular c m) \<Rightarrow> True | _ \<Rightarrow> False)"

definition resolveConfigPath :: "string \<Rightarrow> string" where
  "resolveConfigPath flagConfig = (if flagConfig \<noteq> [] then flagConfig else ''/etc/htn-tunnel/server.yaml'')"

definition serve_config_path :: "string \<Rightarrow> string" where
  "serve_config_path flagConfig = (if flagConfig = [] then ''server.yaml'' else flagConfig)"

datatype maint_error =
    NothingToBackup string | CreateArchive string | OpenFile string | OpenArchive | NotGzip | ReadArchive
  | MakeDir string | CreateFile string | WriteFile string | EmptyArchive
  | CheckUpdate string | NoAsset string | Download string | BinaryNotFound | Executable string | Replace string

subsection \<open>Backup\<close>

text \<open>Where the file at a path is in the way of a call, the call says why.\<close>

record backup_env =
  be_create :: "string option"
  be_flush_ok :: bool

definition tar_of :: "files \<Rightarrow> string \<Rightarrow> tar_entry option" where
  "tar_of fs path =
     (case fs path of
        Some (Regular c m) \<Rightarrow> Some (TarEntry path True m c)
      | _ \<Rightarrow> None)"

fun add_files :: "files \<Rightarrow> string list \<Rightarrow> maint_error + tar_entry list" where
  "add_files fs [] = Inr []"
| "add_files fs (p # ps) =
     (case tar_of fs p of
        None \<Rightarrow> Inl (OpenFile p)
      | Some e \<Rightarrow> (case add_files fs ps of Inl err \<Rightarrow> Inl err | Inr es \<Rightarrow> Inr (e # es)))"

text \<open>
  \<open>createTarGz\<close>: the archive file is created, and emptied, before the files are read; the errors of
  closing the writers are not looked at, so an archive that could not be flushed is a success.
\<close>

definition createTarGz :: "backup_env \<Rightarrow> string \<Rightarrow> string list \<Rightarrow> files \<Rightarrow> maint_error option \<times> files" where
  "createTarGz env dest paths fs =
     (case be_create env of
        Some e \<Rightarrow> (Some (CreateArchive e), fs)
      | None \<Rightarrow>
          let fs1 = fs(dest \<mapsto> Regular Broken 420) in
          (case add_files fs1 paths of
             Inl e \<Rightarrow> (Some e, fs1)
           | Inr es \<Rightarrow> (None, fs1(dest \<mapsto> Regular (if be_flush_ok env then TarGz es else Broken) 420))))"

definition backup_files :: "files \<Rightarrow> string \<Rightarrow> server_config option \<Rightarrow> string list" where
  "backup_files fs cfgPath cfg =
     (if fileExists fs cfgPath then [cfgPath] else []) @
     (case cfg of None \<Rightarrow> [] | Some c \<Rightarrow> if fileExists fs (sc_KeyStorePath c) then [sc_KeyStorePath c] else [])"

definition runBackup ::
    "backup_env \<Rightarrow> string \<Rightarrow> server_config option \<Rightarrow> string \<Rightarrow> files \<Rightarrow> maint_error option \<times> files" where
  "runBackup env cfgPath cfg outPath fs =
     (let paths = backup_files fs cfgPath cfg in
      if paths = [] then (Some (NothingToBackup cfgPath), fs) else createTarGz env outPath paths fs)"

subsection \<open>Restore\<close>

record restore_env =
  re_mkdir :: "string \<Rightarrow> bool"
  re_create :: "string \<Rightarrow> bool"
  re_copy :: "string \<Rightarrow> bool"

text \<open>Opening with \<open>O_CREATE | O_TRUNC\<close> gives a new file the mode and keeps the mode of an old one.\<close>

definition put_file :: "string \<Rightarrow> content \<Rightarrow> int \<Rightarrow> files \<Rightarrow> files" where
  "put_file path c m fs = fs(path \<mapsto> Regular c (case fs path of Some (Regular c' m') \<Rightarrow> m' | _ \<Rightarrow> m))"

fun extract_entries :: "restore_env \<Rightarrow> tar_entry list \<Rightarrow> files \<Rightarrow> (maint_error + string list) \<times> files" where
  "extract_entries env [] fs = (Inr [], fs)"
| "extract_entries env (e # es) fs =
     (if \<not> te_Regular e then extract_entries env es fs
      else if \<not> re_mkdir env (te_Name e) then (Inl (MakeDir (te_Name e)), fs)
      else if \<not> re_create env (te_Name e) then (Inl (CreateFile (te_Name e)), fs)
      else if \<not> re_copy env (te_Name e) then (Inl (WriteFile (te_Name e)), put_file (te_Name e) Broken (te_Mode e) fs)
      else case extract_entries env es (put_file (te_Name e) (te_Data e) (te_Mode e) fs) of
             (Inl err, fs1) \<Rightarrow> (Inl err, fs1)
           | (Inr names, fs1) \<Rightarrow> (Inr (te_Name e # names), fs1))"

definition extractTarGz :: "restore_env \<Rightarrow> string \<Rightarrow> files \<Rightarrow> (maint_error + string list) \<times> files" where
  "extractTarGz env src fs =
     (case fs src of
        Some (Regular (TarGz es) m) \<Rightarrow>
          (case extract_entries env es fs of
             (Inr [], fs1) \<Rightarrow> (Inl EmptyArchive, fs1)
           | r \<Rightarrow> r)
      | Some (Regular c m) \<Rightarrow> (Inl NotGzip, fs)
      | _ \<Rightarrow> (Inl OpenArchive, fs))"

definition runRestore :: "restore_env \<Rightarrow> string \<Rightarrow> files \<Rightarrow> maint_error option \<times> files" where
  "runRestore env backupPath fs =
     (case extractTarGz env backupPath fs of (Inl e, fs1) \<Rightarrow> (Some e, fs1) | (Inr names, fs1) \<Rightarrow> (None, fs1))"

subsection \<open>Upgrade\<close>

record github_release =
  gr_TagName :: string
  gr_Assets :: "(string \<times> string) list"

definition getLatestRelease :: "string \<Rightarrow> string \<Rightarrow> string + github_release \<Rightarrow> maint_error + string \<times> string" where
  "getLatestRelease goos goarch resp =
     (case resp of
        Inl e \<Rightarrow> Inl (CheckUpdate e)
      | Inr rel \<Rightarrow>
          let tag = TrimPrefix (gr_TagName rel) ''v'';
              want = ''htn-server_'' @ tag @ ''_'' @ goos @ ''_'' @ goarch @ ''.tar.gz''
          in case find (\<lambda>(name, url). name = want) (gr_Assets rel) of
               Some (name, url) \<Rightarrow> Inr (tag, url)
             | None \<Rightarrow> Inl (NoAsset want))"

text \<open>The first regular entry whose name ends in \<open>htn-server\<close> becomes a temporary file.\<close>

definition downloadBinary :: "string + tar_entry list \<Rightarrow> string option \<Rightarrow> string \<Rightarrow> files \<Rightarrow> (maint_error + string) \<times> files" where
  "downloadBinary archive temp_error tmp fs =
     (case archive of
        Inl e \<Rightarrow> (Inl (Download e), fs)
      | Inr es \<Rightarrow>
          (case find (\<lambda>e. te_Regular e \<and> HasSuffix (te_Name e) ''htn-server'') es of
             None \<Rightarrow> (Inl BinaryNotFound, fs)
           | Some e \<Rightarrow>
               (case temp_error of
                  Some err \<Rightarrow> (Inl (Download err), fs)
                | None \<Rightarrow> (Inr tmp, fs(tmp \<mapsto> Regular (te_Data e) 384)))))"

record replace_env =
  rp_backup_ok :: bool
  rp_create_ok :: bool
  rp_copy_ok :: bool
  rp_restore_ok :: bool

definition rename_file :: "bool \<Rightarrow> string \<Rightarrow> string \<Rightarrow> files \<Rightarrow> files" where
  "rename_file ok old new fs =
     (if ok then case fs old of None \<Rightarrow> fs | Some n \<Rightarrow> (fs(old := None))(new \<mapsto> n) else fs)"

definition replaceBinary :: "replace_env \<Rightarrow> string \<Rightarrow> string \<Rightarrow> files \<Rightarrow> maint_error option \<times> files" where
  "replaceBinary env newPath currentPath fs =
     (let backupPath = currentPath @ ''.bak'';
          fs1 = rename_file (rp_backup_ok env) currentPath backupPath fs
      in case fs1 newPath of
           Some (Regular c m) \<Rightarrow>
             if \<not> rp_create_ok env then
               (Some (Replace ''create''), rename_file (rp_restore_ok env) backupPath currentPath fs1)
             else if \<not> rp_copy_ok env then
               (Some (Replace ''copy''), rename_file (rp_restore_ok env) backupPath currentPath
                  (put_file currentPath Broken 493 fs1))
             else (None, put_file currentPath c 493 fs1)
         | _ \<Rightarrow> (Some (Replace ''open''), fs1))"

record upgrade_env =
  ue_goos :: string
  ue_goarch :: string
  ue_release :: "string + github_release"
  ue_archive :: "string \<Rightarrow> string + tar_entry list"
  ue_temp_error :: "string option"
  ue_temp :: string
  ue_executable :: "string + string"
  ue_replace :: replace_env

definition runUpgrade :: "upgrade_env \<Rightarrow> string \<Rightarrow> files \<Rightarrow> (maint_error + bool) \<times> files" where
  "runUpgrade env version fs =
     (case getLatestRelease (ue_goos env) (ue_goarch env) (ue_release env) of
        Inl e \<Rightarrow> (Inl e, fs)
      | Inr (latest, downloadURL) \<Rightarrow>
          if latest = version then (Inr False, fs)
          else case downloadBinary (ue_archive env downloadURL) (ue_temp_error env) (ue_temp env) fs of
            (Inl e, fs1) \<Rightarrow> (Inl e, fs1)
          | (Inr tmpPath, fs1) \<Rightarrow>
              (case ue_executable env of
                 Inl e \<Rightarrow> (Inl (Executable e), fs1(tmpPath := None))
               | Inr execPath \<Rightarrow>
                   (case replaceBinary (ue_replace env) tmpPath execPath fs1 of
                      (Some e, fs2) \<Rightarrow> (Inl e, fs2(tmpPath := None))
                    | (None, fs2) \<Rightarrow> (Inr True, fs2(tmpPath := None)))))"

subsection \<open>Health\<close>

definition health_url :: "server_config option \<Rightarrow> string" where
  "health_url cfg =
     (let configured = (case cfg of None \<Rightarrow> '':1807'' | Some c \<Rightarrow> sc_DashboardAddr c);
          addr = (if configured = [] then '':1807'' else configured);
          host = (if hd addr = CHR '':'' then ''localhost'' @ addr else addr)
      in ''http://'' @ host @ ''/_healthz'')"

end
