(* ===== verification/Maintenance_Properties.thy ===== *)
theory Maintenance_Properties
  imports Maintenance
begin

text \<open>
  The properties of the maintenance commands: a restored backup is the state that was backed up, and an
  upgrade either puts the new binary in place or leaves the old one.
\<close>

subsection \<open>Backup and restore\<close>

definition holds :: "files \<Rightarrow> string \<Rightarrow> content \<Rightarrow> bool" where
  "holds fs p c = (case fs p of Some (Regular c' m) \<Rightarrow> c' = c | _ \<Rightarrow> False)"

lemma holds_put [simp]: "holds (put_file p c m fs) q c' \<longleftrightarrow> (if q = p then c' = c else holds fs q c')"
  by (auto simp: holds_def put_file_def)

lemma put_other: "q \<noteq> p \<Longrightarrow> put_file p c m fs q = fs q"
  by (simp add: put_file_def)

text \<open>The entries of an archive are faithful to a file system.\<close>

definition faithful :: "files \<Rightarrow> tar_entry list \<Rightarrow> bool" where
  "faithful fs es \<longleftrightarrow> list_all (\<lambda>e. te_Regular e \<and> holds fs (te_Name e) (te_Data e)) es"

lemma tar_of_Some: "tar_of fs p = Some e \<Longrightarrow> te_Regular e \<and> te_Name e = p \<and> holds fs p (te_Data e)"
  by (auto simp: tar_of_def holds_def split: option.splits node.splits)

lemma add_files_faithful:
  "add_files fs ps = Inr es \<Longrightarrow> faithful fs es \<and> map te_Name es = ps"
  by (induction ps arbitrary: es) (auto simp: faithful_def dest: tar_of_Some split: option.splits sum.splits)

lemma add_files_total: "list_all (fileExists fs) ps \<Longrightarrow> \<exists>es. add_files fs ps = Inr es"
  by (induction ps) (auto simp: fileExists_def tar_of_def split: option.splits node.splits)

definition restores :: "restore_env \<Rightarrow> bool" where
  "restores env \<longleftrightarrow> (\<forall>p. re_mkdir env p \<and> re_create env p \<and> re_copy env p)"

lemma extract_faithful:
  assumes "faithful fs es" and "restores env"
  shows "\<exists>fs'. extract_entries env es fs2 = (Inr (map te_Name es), fs') \<and>
    (\<forall>p c. p \<in> set (map te_Name es) \<longrightarrow> holds fs p c \<longrightarrow> holds fs' p c) \<and>
    (\<forall>p. p \<notin> set (map te_Name es) \<longrightarrow> fs' p = fs2 p) \<and> (\<forall>p c. holds fs p c \<longrightarrow> holds fs2 p c \<longrightarrow> holds fs' p c)"
  using assms
proof (induction es arbitrary: fs2)
  case (Cons e es)
  let ?fs = "put_file (te_Name e) (te_Data e) (te_Mode e) fs2"
  obtain fs' where fs': "extract_entries env es ?fs = (Inr (map te_Name es), fs')"
      "\<forall>p c. p \<in> set (map te_Name es) \<longrightarrow> holds fs p c \<longrightarrow> holds fs' p c"
      "\<forall>p. p \<notin> set (map te_Name es) \<longrightarrow> fs' p = ?fs p"
      "\<forall>p c. holds fs p c \<longrightarrow> holds ?fs p c \<longrightarrow> holds fs' p c"
    using Cons.IH [of ?fs] Cons.prems by (auto simp: faithful_def)
  have e: "te_Regular e" "holds fs (te_Name e) (te_Data e)" using Cons.prems(1) by (auto simp: faithful_def)
  have same: "holds fs (te_Name e) c \<Longrightarrow> c = te_Data e" for c
    using e(2) by (auto simp: holds_def split: option.splits node.splits)
  have "extract_entries env (e # es) fs2 = (Inr (map te_Name (e # es)), fs')"
    using e(1) fs'(1) Cons.prems(2) by (simp add: restores_def)
  moreover have "holds fs' (te_Name e) c" if "holds fs (te_Name e) c" for c
    using fs'(4) that same [OF that] by simp
  then have "\<forall>p c. p \<in> set (map te_Name (e # es)) \<longrightarrow> holds fs p c \<longrightarrow> holds fs' p c" using fs'(2) by auto
  moreover have "\<forall>p. p \<notin> set (map te_Name (e # es)) \<longrightarrow> fs' p = fs2 p" using fs'(3) put_other by auto
  moreover have "holds fs' p c" if "holds fs p c" "holds fs2 p c" for p c
    using fs'(4) that same [of c] by (cases "p = te_Name e") auto
  ultimately show ?case by blast
qed simp

lemma backup_files_exist: "list_all (fileExists fs) (backup_files fs cfgPath cfg)"
  by (auto simp: backup_files_def split: option.split)

lemma holds_upd: "q \<noteq> p \<Longrightarrow> holds (fs(p \<mapsto> n)) q c = holds fs q c"
  by (simp add: holds_def)

lemma fileExists_upd:
  "p \<notin> set ps \<Longrightarrow> list_all (fileExists fs) ps \<Longrightarrow> list_all (fileExists (fs(p \<mapsto> n))) ps"
  by (induction ps) (auto simp: fileExists_def)


definition demo_files :: files where
  "demo_files = [''/etc/htn-tunnel/server.yaml'' \<mapsto> Regular (Plain ''domain: t.org'') 384]"

definition all_restored :: restore_env where
  "all_restored = \<lparr>re_mkdir = (\<lambda>_. True), re_create = (\<lambda>_. True), re_copy = (\<lambda>_. True)\<rparr>"


text \<open>A backup whose archive could not be flushed is reported as a success, and cannot be restored.\<close>

lemma unflushed_backup_reported_ok:
  assumes "backup_files fs cfgPath cfg \<noteq> []" and "out \<notin> set (backup_files fs cfgPath cfg)"
    and "be_create env = None" and "\<not> be_flush_ok env"
  shows "fst (runBackup env cfgPath cfg out fs) = None \<and>
    fst (runRestore renv out (snd (runBackup env cfgPath cfg out fs))) = Some NotGzip"
proof -
  let ?ps = "backup_files fs cfgPath cfg" and ?fs1 = "fs(out \<mapsto> Regular Broken 420)"
  have "list_all (fileExists ?fs1) ?ps"
    using fileExists_upd [OF assms(2) backup_files_exist] .
  then obtain es where "add_files ?fs1 ?ps = Inr es" using add_files_total by blast
  then have "runBackup env cfgPath cfg out fs = (None, ?fs1(out \<mapsto> Regular Broken 420))"
    using assms(1,3,4) by (simp add: runBackup_def createTarGz_def Let_def)
  then show ?thesis by (simp add: runRestore_def extractTarGz_def)
qed

subsection \<open>Upgrade\<close>

lemma replaceBinary_outcome:
  assumes "new \<noteq> cur" and "new \<noteq> cur @ ''.bak''" and "fs new = Some (Regular c m)" and "fs cur = Some old"
    and "rp_backup_ok env" and "rp_restore_ok env" and "replaceBinary env new cur fs = (e, fs')"
  shows "(if e = None then fs' cur = Some (Regular c 493) \<and> fs' (cur @ ''.bak'') = Some old else fs' cur = Some old) \<and> fs' new = fs new"
proof -
  have ne: "cur \<noteq> cur @ ''.bak''" by simp
  let ?fs1 = "(fs(cur := None))(cur @ ''.bak'' \<mapsto> old)"
  have r1: "rename_file (rp_backup_ok env) cur (cur @ ''.bak'') fs = ?fs1" using assms(4,5) by (simp add: rename_file_def)
  have n1: "?fs1 new = Some (Regular c m)" using assms(1-3) by simp
  show ?thesis using assms(1,2,6,7) n1 ne unfolding replaceBinary_def r1 Let_def
    by (auto simp: rename_file_def put_file_def split: if_splits)
qed

text \<open>
  When the downloaded file cannot be opened, the old binary has already been moved away and is not put back.
\<close>

lemma replace_loses_binary:
  assumes "new \<noteq> cur @ ''.bak''" and "fs new = None" and "fs cur = Some old" and "rp_backup_ok env"
  shows "\<exists>fs'. replaceBinary env new cur fs = (Some (Replace ''open''), fs') \<and> fs' cur = None \<and> fs' (cur @ ''.bak'') = Some old"
  using assms by (auto simp: replaceBinary_def rename_file_def Let_def)

text \<open>
  An upgrade is all or nothing: as long as renaming works, either it reports success, the binary of the
  downloaded archive is in place, executable, and the old one is kept beside it; or it reports an error or
  that there is nothing to do, and the old binary is still in place. The temporary file is gone either way.
\<close>

theorem upgrade_all_or_nothing:
  assumes "ue_executable env = Inr cur" and "fs cur = Some old" and "fs (ue_temp env) = None"
    and "ue_temp env \<noteq> cur @ ''.bak''" and "rp_backup_ok (ue_replace env)" and "rp_restore_ok (ue_replace env)"
    and "runUpgrade env version fs = (r, fs')"
  shows "fs' (ue_temp env) = None \<and>
    (if r = Inr True
     then \<exists>url es e. ue_archive env url = Inr es \<and> e \<in> set es \<and> HasSuffix (te_Name e) ''htn-server'' \<and>
            fs' cur = Some (Regular (te_Data e) 493) \<and> fs' (cur @ ''.bak'') = Some old
     else fs' cur = Some old)"
proof -
  have ne: "ue_temp env \<noteq> cur" using assms(2,3) by auto
  consider (unchanged) "fs' = fs" "r \<noteq> Inr True"
    | (replaced) url es e fs2 err where "ue_archive env url = Inr es"
        "find (\<lambda>e. te_Regular e \<and> HasSuffix (te_Name e) ''htn-server'') es = Some e"
        "replaceBinary (ue_replace env) (ue_temp env) cur (fs(ue_temp env \<mapsto> Regular (te_Data e) 384)) = (err, fs2)"
        "fs' = fs2(ue_temp env := None)" "r = (case err of None \<Rightarrow> Inr True | Some x \<Rightarrow> Inl x)"
    using assms(1,7)
    by (auto simp: runUpgrade_def downloadBinary_def split: sum.splits prod.splits if_splits option.splits)
  then show ?thesis
  proof cases
    case unchanged
    then show ?thesis using assms(2,3) by simp
  next
    case replaced
    have e: "e \<in> set es" "HasSuffix (te_Name e) ''htn-server''" using replaced(2) by (auto simp: find_Some_iff)
    have "if err = None then fs2 cur = Some (Regular (te_Data e) 493) \<and> fs2 (cur @ ''.bak'') = Some old else fs2 cur = Some old"
      using replaceBinary_outcome [OF ne assms(4) _ _ assms(5,6) replaced(3)] assms(2) ne by auto
    then show ?thesis using replaced(1,4,5) e ne assms(4) by (auto split: option.splits)
  qed
qed

definition demo_upgrade :: upgrade_env where
  "demo_upgrade = \<lparr>ue_goos = ''linux'', ue_goarch = ''amd64'',
     ue_release = Inr \<lparr>gr_TagName = ''v2'', gr_Assets = [(''htn-server_2_linux_amd64.tar.gz'', ''url'')]\<rparr>,
     ue_archive = (\<lambda>_. Inr [TarEntry ''htn-server'' True 493 (Plain ''new'')]), ue_temp_error = None, ue_temp = ''/tmp/x'',
     ue_executable = Inr ''/bin/htn-server'', ue_replace = \<lparr>rp_backup_ok = True, rp_create_ok = True, rp_copy_ok = True, rp_restore_ok = True\<rparr>\<rparr>"

theorem upgrade_all_or_nothing_witness:
  "\<exists>fs'. runUpgrade demo_upgrade ''1'' [''/bin/htn-server'' \<mapsto> Regular (Plain ''old'') 493] = (Inr True, fs') \<and>
     fs' ''/bin/htn-server.bak'' = Some (Regular (Plain ''old'') 493)"
proof -
  let ?fs = "[''/bin/htn-server'' \<mapsto> Regular (Plain ''old'') 493]"
  obtain r fs' where h: "runUpgrade demo_upgrade ''1'' ?fs = (r, fs')" by fastforce
  have "fst (runUpgrade demo_upgrade ''1'' ?fs) = Inr True"
    by (simp add: runUpgrade_def getLatestRelease_def downloadBinary_def replaceBinary_def rename_file_def demo_upgrade_def
        TrimPrefix_def HasPrefix_def HasSuffix_def Let_def)
  then show ?thesis
    using h upgrade_all_or_nothing [OF _ _ _ _ _ _ h, of "''/bin/htn-server''" "Regular (Plain ''old'') 493"]
    by (auto simp: demo_upgrade_def)
qed

end
