(* ===== verification/Wizard.thy ===== *)
theory Wizard
  imports Maintenance
begin

text \<open>
  The set-up wizard of the server (\<open>cmd/server/wizard.go\<close>): its questions, the DNS check, the configuration
  it writes and the change it makes to an nginx that holds port 443. The answers typed, the network, the
  external commands and the outcome of writing files are arguments; what is only printed is left out.
\<close>

subsection \<open>Input\<close>

text \<open>\<open>prompt\<close> takes the next line, empty at the end of the input.\<close>

definition prompt :: "(string \<Rightarrow> string) \<Rightarrow> string list \<Rightarrow> string \<times> string list" where
  "prompt utrim input = (case input of [] \<Rightarrow> ([], []) | l # ls \<Rightarrow> (TrimSpace utrim l, ls))"

definition promptSecret :: "(string \<Rightarrow> string) \<Rightarrow> string list \<Rightarrow> string \<times> string list" where
  "promptSecret utrim input = prompt utrim input"

definition promptDefault :: "(string \<Rightarrow> string) \<Rightarrow> string \<Rightarrow> string list \<Rightarrow> string \<times> string list" where
  "promptDefault utrim defaultVal input =
     (case prompt utrim input of (v, rest) \<Rightarrow> (if v = [] then defaultVal else v, rest))"

subsection \<open>DNS\<close>

datatype wizard_error = NoResolve string | WrongAddress string | WriteConfigFailed string

definition validateDNS :: "(string \<Rightarrow> string list option) \<Rightarrow> string option \<Rightarrow> string \<Rightarrow> wizard_error option" where
  "validateDNS lookup publicIP domain =
     (case lookup (''test-dns-check.'' @ domain) of
        None \<Rightarrow> Some (NoResolve domain)
      | Some ips \<Rightarrow>
          (case publicIP of
             None \<Rightarrow> None
           | Some serverIP \<Rightarrow> if serverIP \<in> set ips then None else Some (WrongAddress domain)))"

text \<open>The body \<open>api.ipify.org\<close> answers with, if it answers.\<close>

definition getPublicIP :: "(string \<Rightarrow> string) \<Rightarrow> string option \<Rightarrow> string option" where
  "getPublicIP utrim body = map_option (TrimSpace utrim) body"

text \<open>A port on which listening succeeds, which \<open>listen\<close> says, is free: the listener is closed again.\<close>

definition isPortInUse :: "(int \<Rightarrow> bool) \<Rightarrow> int \<Rightarrow> bool" where
  "isPortInUse listen port \<longleftrightarrow> \<not> listen port"

subsection \<open>The configuration\<close>

definition newline :: string where
  "newline = [char_of (10 :: nat)]"

definition generateConfig :: "string \<Rightarrow> string \<Rightarrow> string \<Rightarrow> string \<Rightarrow> string \<Rightarrow> string \<Rightarrow> string" where
  "generateConfig domain email cfToken adminPass httpProxy httpRedirect =
     concat (map (\<lambda>l. l @ newline)
       [''# htn-tunnel server config '' @ [CHR 0xE2, CHR 0x80, CHR 0x94] @ '' generated by htn-server init'',
        ''domain: '' @ domain,
        ''email: '' @ email,
        ''listen_addr: '' @ [CHR 0x22] @ '':4443'' @ [CHR 0x22],
        ''http_proxy_addr: '' @ [CHR 0x22] @ httpProxy @ [CHR 0x22],
        ''http_redirect_addr: '' @ [CHR 0x22] @ httpRedirect @ [CHR 0x22],
        ''dashboard_enabled: true'',
        ''dashboard_addr: '' @ [CHR 0x22] @ '':1807'' @ [CHR 0x22],
        ''dns_provider: cloudflare'',
        ''dns_api_token: '' @ cfToken,
        ''admin_token: '' @ adminPass,
        ''key_store_path: /etc/htn-tunnel/keys.json'',
        ''cert_storage: /var/lib/htn-tunnel/certs'',
        ''allow_registration: true'',
        ''allow_anonymous: true'',
        ''max_tunnels_per_token: 10'',
        ''rate_limit: 100'',
        ''global_rate_limit: 1000''])"

definition writeConfig :: "bool \<Rightarrow> bool \<Rightarrow> string \<Rightarrow> string \<Rightarrow> files \<Rightarrow> bool \<times> files" where
  "writeConfig mkdir_ok write_ok path cfg fs =
     (if \<not> mkdir_ok then (False, fs)
      else if \<not> write_ok then (False, put_file path Broken 384 fs)
      else (True, put_file path (Plain cfg) 384 fs))"

subsection \<open>nginx\<close>

definition nginxConf :: string where
  "nginxConf = ''/etc/nginx/nginx.conf''"

definition stream_block :: "string \<Rightarrow> string" where
  "stream_block domain =
     concat (map (\<lambda>l. l @ newline)
       [[],
        ''stream {'',
        ''    map $ssl_preread_server_name $backend {'',
        ''        ~^(.+'' @ [CHR 0x5C] @ ''.)?'' @ ReplaceAll domain CHR ''.'' [CHR 0x5C, CHR ''.''] @ ''$    127.0.0.1:8443;'',
        ''        default      127.0.0.1:4430;'',
        ''    }'',
        ''    server {'',
        ''        listen 443;'',
        ''        ssl_preread on;'',
        ''        proxy_pass $backend;'',
        ''    }'',
        ''}''])"

record nginx_env =
  nx_sed :: "files \<Rightarrow> files"
  nx_write_ok :: bool
  nx_test_ok :: bool
  nx_reload_ok :: bool

definition autoConfigureNginx :: "nginx_env \<Rightarrow> string \<Rightarrow> files \<Rightarrow> bool \<times> files" where
  "autoConfigureNginx env domain fs =
     (let fs1 = nx_sed env fs in
      case fs1 nginxConf of
        Some (Regular (Plain s) m) \<Rightarrow>
          (let fs2 = (if Contains s ''stream {'' then fs1
                      else if \<not> nx_write_ok env then put_file nginxConf Broken 420 fs1
                      else put_file nginxConf (Plain (s @ newline @ stream_block domain @ newline)) 420 fs1);
               written = (Contains s ''stream {'' \<or> nx_write_ok env)
           in (written \<and> nx_test_ok env \<and> nx_reload_ok env, fs2))
      | _ \<Rightarrow> (False, fs1))"

subsection \<open>systemd\<close>

definition unitPath :: string where
  "unitPath = ''/etc/systemd/system/htn-tunnel.service''"

definition systemd_unit :: "string \<Rightarrow> string" where
  "systemd_unit binPath =
     concat (map (\<lambda>l. l @ newline)
       [''[Unit]'',
        ''Description=htn-tunnel server'',
        ''After=network-online.target'',
        ''Wants=network-online.target'',
        [],
        ''[Service]'',
        ''Type=simple'',
        ''ExecStart='' @ binPath @ '' serve --config /etc/htn-tunnel/server.yaml'',
        ''Restart=always'',
        ''RestartSec=5'',
        ''LimitNOFILE=65535'',
        ''AmbientCapabilities=CAP_NET_BIND_SERVICE'',
        [],
        ''[Install]'',
        ''WantedBy=multi-user.target''])"

text \<open>\<open>os.Executable\<close>, the writing of the unit and the two \<open>systemctl\<close> commands with their outcomes.\<close>

record systemd_env =
  sd_executable :: "string option"
  sd_write_ok :: bool
  sd_reload_ok :: bool
  sd_enable_ok :: bool

definition createSystemdService :: "systemd_env \<Rightarrow> files \<Rightarrow> bool \<times> files" where
  "createSystemdService env fs =
     (let binPath = (case sd_executable env of Some p \<Rightarrow> p | None \<Rightarrow> ''/usr/local/bin/htn-server'') in
      if \<not> sd_write_ok env then (False, put_file unitPath Broken 420 fs)
      else (sd_reload_ok env, put_file unitPath (Plain (systemd_unit binPath)) 420 fs))"

definition startService :: "systemd_env \<Rightarrow> bool" where
  "startService env = sd_enable_ok env"

subsection \<open>The wizard\<close>

record wizard_env =
  wz_input :: "string list"
  wz_listen :: "int \<Rightarrow> bool"
  wz_nginx_found :: bool
  wz_nginx :: nginx_env
  wz_lookup :: "string \<Rightarrow> string list option"
  wz_ipify :: "string option"
  wz_mkdir_ok :: bool
  wz_write_ok :: bool
  wz_systemd :: systemd_env

text \<open>How far the wizard got: an error, or success and whether the service runs.\<close>

definition wants_nginx :: "(string \<Rightarrow> string) \<Rightarrow> string \<Rightarrow> bool" where
  "wants_nginx ulow ans \<longleftrightarrow> ToLower ulow ans = ''y'' \<or> ToLower ulow ans = ''yes''"

definition configPath :: string where
  "configPath = ''/etc/htn-tunnel/server.yaml''"

definition runWizard ::
    "(string \<Rightarrow> string) \<Rightarrow> (string \<Rightarrow> string) \<Rightarrow> wizard_env \<Rightarrow> files \<Rightarrow> (wizard_error + bool) \<times> files" where
  "runWizard ulow utrim env fs =
     (let (domain, in1) = prompt utrim (wz_input env);
          (email, in2) = prompt utrim in1;
          (cfToken, in3) = promptSecret utrim in2;
          (adminPass, in4) = promptSecret utrim in3;
          httpProxyAddr = (if isPortInUse (wz_listen env) 443 then '':8443'' else '':443'');
          httpRedirectAddr = (if isPortInUse (wz_listen env) 443 then '':8444'' else '':80'');
          fs1 = (if isPortInUse (wz_listen env) 443 \<and> wz_nginx_found env \<and> wants_nginx ulow (fst (promptDefault utrim ''y'' in4))
                 then snd (autoConfigureNginx (wz_nginx env) domain fs) else fs)
      in case validateDNS (wz_lookup env) (getPublicIP utrim (wz_ipify env)) domain of
           Some e \<Rightarrow> (Inl e, fs1)
         | None \<Rightarrow>
             (case writeConfig (wz_mkdir_ok env) (wz_write_ok env) configPath
                     (generateConfig domain email cfToken adminPass httpProxyAddr httpRedirectAddr) fs1 of
                (False, fs2) \<Rightarrow> (Inl (WriteConfigFailed configPath), fs2)
              | (True, fs2) \<Rightarrow>
                  (case createSystemdService (wz_systemd env) fs2 of
                     (False, fs3) \<Rightarrow> (Inr False, fs3)
                   | (True, fs3) \<Rightarrow> (Inr (startService (wz_systemd env)), fs3))))"

subsection \<open>Properties\<close>

lemma nginx_keeps_config:
  assumes "\<And>fs. nx_sed env fs configPath = fs configPath"
  shows "snd (autoConfigureNginx env domain fs) configPath = fs configPath"
  using assms
  by (auto simp: autoConfigureNginx_def put_file_def configPath_def nginxConf_def Let_def
      split: option.split node.split content.split)

lemma nginx_keeps_unit:
  assumes "\<And>fs. nx_sed env fs unitPath = fs unitPath"
  shows "snd (autoConfigureNginx env domain fs) unitPath = fs unitPath"
  using assms
  by (auto simp: autoConfigureNginx_def put_file_def unitPath_def nginxConf_def Let_def
      split: option.split node.split content.split)

lemma writeConfig_written:
  "writeConfig mkdir_ok write_ok path cfg fs = (True, fs') \<Longrightarrow> \<exists>m. fs' path = Some (Regular (Plain cfg) m)"
  by (auto simp: writeConfig_def put_file_def split: if_splits)

lemma createSystemdService_outcome:
  assumes "createSystemdService env fs = (ok, fs')"
  shows "p \<noteq> unitPath \<Longrightarrow> fs' p = fs p"
    and "ok \<Longrightarrow> sd_executable env = Some bin \<Longrightarrow> \<exists>m. fs' unitPath = Some (Regular (Plain (systemd_unit bin)) m)"
  using assms by (auto simp: createSystemdService_def put_file_def Let_def split: if_splits)

lemma paths_differ: "unitPath \<noteq> configPath"
  by (simp add: unitPath_def configPath_def)

text \<open>
  The wizard sets a server up only for a domain that leads to this machine. When it reports success the
  configuration holds the answers given, with the ports that leave an occupied 443 alone, and the
  wildcard name resolves, to the public address if that is known; and when the service has been started,
  its unit runs this binary on that configuration. When the DNS check fails, an existing configuration
  and an existing unit are not touched.
\<close>

theorem wizard_checks_before_writing:
  assumes "runWizard ulow utrim env fs = (r, fs')" and "wz_input env = domain # email # cfToken # adminPass # rest"
    and "sd_executable (wz_systemd env) = Some bin"
    and "\<And>fs. nx_sed (wz_nginx env) fs configPath = fs configPath" and "\<And>fs. nx_sed (wz_nginx env) fs unitPath = fs unitPath"
  shows "case r of
      Inr running \<Rightarrow>
        (\<exists>m. fs' configPath = Some (Regular (Plain (generateConfig (TrimSpace utrim domain) (TrimSpace utrim email)
              (TrimSpace utrim cfToken) (TrimSpace utrim adminPass)
              (if isPortInUse (wz_listen env) 443 then '':8443'' else '':443'') (if isPortInUse (wz_listen env) 443 then '':8444'' else '':80''))) m)) \<and>
        (\<exists>ips. wz_lookup env (''test-dns-check.'' @ TrimSpace utrim domain) = Some ips \<and>
            (\<forall>ip. getPublicIP utrim (wz_ipify env) = Some ip \<longrightarrow> ip \<in> set ips)) \<and>
        (running \<longrightarrow> (\<exists>m. fs' unitPath = Some (Regular (Plain (systemd_unit bin)) m)))
    | Inl e \<Rightarrow> e \<noteq> WriteConfigFailed configPath \<longrightarrow> fs' configPath = fs configPath \<and> fs' unitPath = fs unitPath"
proof -
  let ?d = "TrimSpace utrim domain"
  let ?cfg = "generateConfig ?d (TrimSpace utrim email) (TrimSpace utrim cfToken) (TrimSpace utrim adminPass)
    (if isPortInUse (wz_listen env) 443 then '':8443'' else '':443'') (if isPortInUse (wz_listen env) 443 then '':8444'' else '':80'')"
  define fs1 where "fs1 = (if isPortInUse (wz_listen env) 443 \<and> wz_nginx_found env \<and> wants_nginx ulow (fst (promptDefault utrim ''y'' rest))
      then snd (autoConfigureNginx (wz_nginx env) ?d fs) else fs)"
  have keep: "fs1 configPath = fs configPath" "fs1 unitPath = fs unitPath"
    using nginx_keeps_config [of "wz_nginx env" ?d fs, OF assms(4)] nginx_keeps_unit [of "wz_nginx env" ?d fs, OF assms(5)]
    by (simp_all add: fs1_def)
  have run: "(case validateDNS (wz_lookup env) (getPublicIP utrim (wz_ipify env)) ?d of
       Some e \<Rightarrow> (Inl e, fs1)
     | None \<Rightarrow>
         (case writeConfig (wz_mkdir_ok env) (wz_write_ok env) configPath ?cfg fs1 of
            (False, fs2) \<Rightarrow> (Inl (WriteConfigFailed configPath), fs2)
          | (True, fs2) \<Rightarrow>
              (case createSystemdService (wz_systemd env) fs2 of
                 (False, fs3) \<Rightarrow> (Inr False, fs3)
               | (True, fs3) \<Rightarrow> (Inr (startService (wz_systemd env)), fs3)))) = (r, fs')"
    using assms(1) unfolding fs1_def by (simp add: runWizard_def assms(2) promptSecret_def prompt_def Let_def split del: if_split)
  show ?thesis
  proof (cases "validateDNS (wz_lookup env) (getPublicIP utrim (wz_ipify env)) ?d")
    case (Some e)
    then show ?thesis using run keep by auto
  next
    case None
    then have ips: "\<exists>ips. wz_lookup env (''test-dns-check.'' @ ?d) = Some ips \<and> (\<forall>ip. getPublicIP utrim (wz_ipify env) = Some ip \<longrightarrow> ip \<in> set ips)"
      by (auto simp: validateDNS_def split: option.splits if_splits)
    obtain ok fs2 where w: "writeConfig (wz_mkdir_ok env) (wz_write_ok env) configPath ?cfg fs1 = (ok, fs2)" by fastforce
    show ?thesis
    proof (cases ok)
      case True
      obtain made fs3 where c: "createSystemdService (wz_systemd env) fs2 = (made, fs3)" by fastforce
      have "r = Inr (made \<and> startService (wz_systemd env))" "fs' = fs3" using run None w True c by (auto split: bool.splits)
      moreover have "fs3 configPath = fs2 configPath"
        using createSystemdService_outcome(1) [OF c, of configPath] paths_differ by simp
      ultimately show ?thesis
        using writeConfig_written [of _ _ configPath ?cfg fs1 fs2] w True ips createSystemdService_outcome(2) [OF c _ assms(3)] by auto
    next
      case False
      then show ?thesis using run None w by auto
    qed
  qed
qed

text \<open>Running the nginx step again does not add a second block.\<close>

lemma nginx_block_once:
  assumes "nx_sed env fs = fs" and "fs nginxConf = Some (Regular (Plain s) m)" and "Contains s ''stream {''"
  shows "snd (autoConfigureNginx env domain fs) = fs"
  using assms by (simp add: autoConfigureNginx_def Let_def)

lemma stream_block_found: "Contains (s @ newline @ stream_block domain @ newline) ''stream {''"
proof -
  let ?rest = "drop 9 (stream_block domain)"
  have "stream_block domain = newline @ ''stream {'' @ ?rest" by (simp add: stream_block_def newline_def)
  then have "s @ newline @ stream_block domain @ newline = (s @ newline @ newline) @ ''stream {'' @ ?rest @ newline"
    by (metis append.assoc)
  then show ?thesis by (simp only: Contains_append)
qed

definition demo_wizard :: wizard_env where
  "demo_wizard = \<lparr>wz_input = [''t.org'', ''a@t.org'', ''cf'', ''pw''], wz_listen = (\<lambda>_. True), wz_nginx_found = False,
     wz_nginx = \<lparr>nx_sed = id, nx_write_ok = True, nx_test_ok = True, nx_reload_ok = True\<rparr>,
     wz_lookup = (\<lambda>_. Some [''1.2.3.4'']), wz_ipify = Some ''1.2.3.4'', wz_mkdir_ok = True, wz_write_ok = True,
     wz_systemd = \<lparr>sd_executable = Some ''/usr/bin/htn-server'', sd_write_ok = True, sd_reload_ok = True, sd_enable_ok = True\<rparr>\<rparr>"

theorem wizard_checks_before_writing_witness:
  "\<exists>fs' m. runWizard id id demo_wizard Map.empty = (Inr True, fs') \<and>
     fs' unitPath = Some (Regular (Plain (systemd_unit ''/usr/bin/htn-server'')) m)"
proof -
  obtain r fs' where h: "runWizard id id demo_wizard Map.empty = (r, fs')" by fastforce
  have "TrimSpace id ''1.2.3.4'' = ''1.2.3.4''" by code_simp
  then have "fst (runWizard id id demo_wizard Map.empty) = Inr True"
    by (simp add: runWizard_def demo_wizard_def promptSecret_def prompt_def validateDNS_def getPublicIP_def isPortInUse_def writeConfig_def createSystemdService_def
        startService_def Let_def)
  then show ?thesis
    using h wizard_checks_before_writing [OF h, of "''t.org''" "''a@t.org''" "''cf''" "''pw''" "[]" "''/usr/bin/htn-server''"]
    by (auto simp: demo_wizard_def)
qed

end
