(* ===== verification/Relay.thy ===== *)
theory Relay
  imports Protocol "HOL-Library.Sublist"
begin

text \<open>
  The bytes of a TCP tunnel: \<open>handleTCPConn\<close> and \<open>acceptLoop\<close> of \<open>internal/server/tcp_proxy.go\<close> at one end
  of a yamux stream, \<open>handleStream\<close> of \<open>internal/client/tunnel.go\<close> at the other. Each of them runs two
  goroutines with an \<open>io.Copy\<close>; the four run concurrently and close each other's connections, so the
  relay is a step relation. It is shown that no byte is lost, doubled or moved on the way, whatever
  fails; and that, when nothing fails, everything the local service answers reaches the visitor, and
  everything the visitor sends reaches the service as long as the service has not closed its side.
\<close>

section \<open>Bytes through a tunnel\<close>

subsection \<open>The state\<close>

text \<open>
  One direction. \<open>lg_sent\<close> is all that its source has written and \<open>lg_eof\<close> whether it has closed its
  writing side; \<open>lg_src\<close> is what the near copier has not read yet, \<open>lg_mid\<close> what is in the yamux stream, and
  \<open>lg_dst\<close> what the far copier has written to the destination. \<open>lg_near_n\<close> is the count of the near
  \<open>io.Copy\<close>. A copier that is done has closed what it wrote to.
\<close>

record leg =
  lg_sent :: bytes
  lg_eof :: bool
  lg_src :: bytes
  lg_near_n :: nat
  lg_near_done :: bool
  lg_mid :: bytes
  lg_far_done :: bool
  lg_dst :: bytes

text \<open>Both directions, and the two counters of the tunnel session.\<close>

record relay =
  rl_up :: leg
  rl_down :: leg
  rl_BytesIn :: int
  rl_BytesOut :: int

definition new_leg :: "bool \<Rightarrow> bool \<Rightarrow> leg" where
  "new_leg near_done far_done =
     \<lparr>lg_sent = [], lg_eof = False, lg_src = [], lg_near_n = 0, lg_near_done = near_done, lg_mid = [],
      lg_far_done = far_done, lg_dst = []\<rparr>"

text \<open>
  The start: when the stream cannot be opened the server closes the visitor's connection at once and no
  client takes part; when the local service cannot be dialled the client closes the stream at once.
\<close>

definition handleTCPConn_start :: "bool \<Rightarrow> bool \<Rightarrow> int \<Rightarrow> int \<Rightarrow> relay" where
  "handleTCPConn_start open_ok dial_ok bytesIn bytesOut =
     (if \<not> open_ok
      then \<lparr>rl_up = new_leg True True, rl_down = new_leg True True, rl_BytesIn = bytesIn, rl_BytesOut = bytesOut\<rparr>
      else \<lparr>rl_up = new_leg False (\<not> dial_ok), rl_down = new_leg (\<not> dial_ok) False,
             rl_BytesIn = bytesIn, rl_BytesOut = bytesOut\<rparr>)"

definition copy_near :: "nat \<Rightarrow> leg \<Rightarrow> leg" where
  "copy_near k l = l\<lparr>lg_src := drop k (lg_src l), lg_mid := lg_mid l @ take k (lg_src l), lg_near_n := lg_near_n l + k\<rparr>"

definition copy_far :: "nat \<Rightarrow> leg \<Rightarrow> leg" where
  "copy_far k l = l\<lparr>lg_mid := drop k (lg_mid l), lg_dst := lg_dst l @ take k (lg_mid l)\<rparr>"

definition near_end :: "leg \<Rightarrow> leg" where "near_end l = l\<lparr>lg_near_done := True\<rparr>"
definition far_end :: "leg \<Rightarrow> leg" where "far_end l = l\<lparr>lg_far_done := True\<rparr>"

definition near_can_copy :: "nat \<Rightarrow> leg \<Rightarrow> bool" where
  "near_can_copy k l \<longleftrightarrow> \<not> lg_near_done l \<and> 0 < k \<and> k \<le> length (lg_src l)"

definition far_can_copy :: "nat \<Rightarrow> leg \<Rightarrow> bool" where
  "far_can_copy k l \<longleftrightarrow> \<not> lg_far_done l \<and> 0 < k \<and> k \<le> length (lg_mid l)"

text \<open>The end of the input of a copier.\<close>

definition near_eof :: "leg \<Rightarrow> bool" where "near_eof l \<longleftrightarrow> lg_src l = [] \<and> lg_eof l"
definition far_eof :: "leg \<Rightarrow> bool" where "far_eof l \<longleftrightarrow> lg_mid l = [] \<and> lg_near_done l"

subsection \<open>The goroutines\<close>

text \<open>
  A step of a goroutine copies some bytes or ends the copying, with what the code does then. With \<open>fail\<close> a
  copy may end with an error at any time; with \<open>early\<close> the read from a stream that this end has closed
  may report its end although the other end still writes, as yamux is free to do after its close timeout.
  The server's connection to the visitor is closed as a whole once the answer has been copied
  (\<open>conn.Close\<close>), so the copying from the visitor then ends too; the client closes only its half of the
  local connection (\<open>CloseWrite\<close>).
\<close>

inductive handleTCPConn :: "bool \<Rightarrow> bool \<Rightarrow> relay \<Rightarrow> relay \<Rightarrow> bool" for fail early where
  server_reads:
    "near_can_copy k (rl_up r) \<Longrightarrow> \<not> lg_far_done (rl_down r) \<Longrightarrow>
       handleTCPConn fail early r (r\<lparr>rl_up := copy_near k (rl_up r)\<rparr>)"
| server_read_ends:
    "\<not> lg_near_done (rl_up r) \<Longrightarrow> near_eof (rl_up r) \<or> lg_far_done (rl_down r) \<or> fail \<Longrightarrow>
       handleTCPConn fail early r
         (r\<lparr>rl_up := near_end (rl_up r), rl_BytesIn := rl_BytesIn r + int (lg_near_n (rl_up r))\<rparr>)"
| server_writes:
    "far_can_copy k (rl_down r) \<Longrightarrow> handleTCPConn fail early r (r\<lparr>rl_down := copy_far k (rl_down r)\<rparr>)"
| server_write_ends:
    "\<not> lg_far_done (rl_down r) \<Longrightarrow> far_eof (rl_down r) \<or> early \<and> lg_near_done (rl_up r) \<or> fail \<Longrightarrow>
       handleTCPConn fail early r
         (r\<lparr>rl_down := far_end (rl_down r), rl_BytesOut := rl_BytesOut r + int (length (lg_dst (rl_down r)))\<rparr>)"

text \<open>The client's two goroutines.\<close>

inductive handleStream :: "bool \<Rightarrow> bool \<Rightarrow> relay \<Rightarrow> relay \<Rightarrow> bool" for fail early where
  client_writes:
    "far_can_copy k (rl_up r) \<Longrightarrow> handleStream fail early r (r\<lparr>rl_up := copy_far k (rl_up r)\<rparr>)"
| client_write_ends:
    "\<not> lg_far_done (rl_up r) \<Longrightarrow> far_eof (rl_up r) \<or> early \<and> lg_near_done (rl_down r) \<or> fail \<Longrightarrow>
       handleStream fail early r (r\<lparr>rl_up := far_end (rl_up r)\<rparr>)"
| client_reads:
    "near_can_copy k (rl_down r) \<Longrightarrow> handleStream fail early r (r\<lparr>rl_down := copy_near k (rl_down r)\<rparr>)"
| client_read_ends:
    "\<not> lg_near_done (rl_down r) \<Longrightarrow> near_eof (rl_down r) \<or> fail \<Longrightarrow>
       handleStream fail early r (r\<lparr>rl_down := near_end (rl_down r)\<rparr>)"

inductive_cases handleTCPConnE: "handleTCPConn fail early r r'"
inductive_cases handleStreamE: "handleStream fail early r r'"

inductive relay_work :: "bool \<Rightarrow> bool \<Rightarrow> relay \<Rightarrow> relay \<Rightarrow> bool" for fail early where
  at_server: "handleTCPConn fail early r r' \<Longrightarrow> relay_work fail early r r'"
| at_client: "handleStream fail early r r' \<Longrightarrow> relay_work fail early r r'"

inductive_cases relay_workE: "relay_work fail early r r'"

text \<open>Beside them the visitor and the service write and close as they like.\<close>

definition source_writes :: "bytes \<Rightarrow> leg \<Rightarrow> leg" where
  "source_writes bs l = (if lg_eof l then l else l\<lparr>lg_sent := lg_sent l @ bs, lg_src := lg_src l @ bs\<rparr>)"

definition source_closes :: "leg \<Rightarrow> leg" where
  "source_closes l = l\<lparr>lg_eof := True\<rparr>"

inductive relay_step :: "bool \<Rightarrow> bool \<Rightarrow> relay \<Rightarrow> relay \<Rightarrow> bool" for fail early where
  rs_work: "relay_work fail early r r' \<Longrightarrow> relay_step fail early r r'"
| rs_visitor_writes: "relay_step fail early r (r\<lparr>rl_up := source_writes bs (rl_up r)\<rparr>)"
| rs_visitor_closes: "relay_step fail early r (r\<lparr>rl_up := source_closes (rl_up r)\<rparr>)"
| rs_service_writes: "relay_step fail early r (r\<lparr>rl_down := source_writes bs (rl_down r)\<rparr>)"
| rs_service_closes: "relay_step fail early r (r\<lparr>rl_down := source_closes (rl_down r)\<rparr>)"

inductive_cases relay_stepE: "relay_step fail early r r'"

text \<open>\<open>acceptLoop\<close> hands each connection to \<open>handleTCPConn\<close> until the listener is closed.\<close>

fun acceptLoop :: "nat option list \<Rightarrow> nat list" where
  "acceptLoop [] = []"
| "acceptLoop (Some conn # os) = conn # acceptLoop os"
| "acceptLoop (None # os) = []"

subsection \<open>What a leg keeps\<close>

lemmas leg_defs = copy_near_def copy_far_def near_end_def far_end_def near_can_copy_def far_can_copy_def near_eof_def
  far_eof_def source_writes_def source_closes_def new_leg_def

definition leg_ok :: "leg \<Rightarrow> bool" where
  "leg_ok l \<longleftrightarrow> lg_sent l = lg_dst l @ lg_mid l @ lg_src l \<and> lg_near_n l = length (lg_dst l) + length (lg_mid l)"

lemma leg_ok_new [simp]: "leg_ok (new_leg a b)"
  by (simp add: leg_ok_def new_leg_def)

lemma leg_ok_steps [simp]:
  "leg_ok l \<Longrightarrow> near_can_copy k l \<Longrightarrow> leg_ok (copy_near k l)"
  "leg_ok l \<Longrightarrow> far_can_copy k l \<Longrightarrow> leg_ok (copy_far k l)"
  "leg_ok l \<Longrightarrow> leg_ok (near_end l)" "leg_ok l \<Longrightarrow> leg_ok (far_end l)"
  "leg_ok l \<Longrightarrow> leg_ok (source_writes bs l)" "leg_ok l \<Longrightarrow> leg_ok (source_closes l)"
  by (auto simp: leg_ok_def leg_defs)

lemma leg_ok_prefix: "leg_ok l \<Longrightarrow> prefix (lg_dst l) (lg_sent l)"
  by (simp add: leg_ok_def)

text \<open>The counters of the session after a relay that started with \<open>bytesIn\<close> and \<open>bytesOut\<close>.\<close>

definition counters_ok :: "int \<Rightarrow> int \<Rightarrow> relay \<Rightarrow> bool" where
  "counters_ok bytesIn bytesOut r \<longleftrightarrow>
     rl_BytesIn r = bytesIn + (if lg_near_done (rl_up r) then int (lg_near_n (rl_up r)) else 0) \<and>
     rl_BytesOut r = bytesOut + (if lg_far_done (rl_down r) then int (length (lg_dst (rl_down r))) else 0)"

definition relay_ok :: "int \<Rightarrow> int \<Rightarrow> relay \<Rightarrow> bool" where
  "relay_ok bytesIn bytesOut r \<longleftrightarrow> leg_ok (rl_up r) \<and> leg_ok (rl_down r) \<and> counters_ok bytesIn bytesOut r"

lemma relay_ok_work: "relay_work fail early r r' \<Longrightarrow> relay_ok bi bo r \<Longrightarrow> relay_ok bi bo r'"
  by (elim relay_workE handleTCPConnE handleStreamE) (auto simp: relay_ok_def counters_ok_def leg_defs leg_ok_def)

lemma relay_ok_step:
  assumes "relay_step fail early r r'" and "relay_ok bi bo r"
  shows "relay_ok bi bo r'"
  using assms relay_ok_work
  by (cases rule: relay_step.cases) (auto simp: relay_ok_def counters_ok_def source_writes_def source_closes_def leg_ok_def)

lemma relay_ok_start: "relay_ok bi bo (handleTCPConn_start o_ok d_ok bi bo)"
  by (simp add: relay_ok_def counters_ok_def handleTCPConn_start_def) (simp add: new_leg_def)

interpretation relaying: state_machine "handleTCPConn_start o_ok d_ok bi bo" "relay_step fail early" "relay_ok bi bo"
  for o_ok d_ok bi bo fail early
  by unfold_locales (auto intro: relay_ok_start relay_ok_step)

subsection \<open>Without failures\<close>

text \<open>Why each copier has ended, when no copy fails and no stream reports its end early.\<close>

definition ends_ok :: "relay \<Rightarrow> bool" where
  "ends_ok r \<longleftrightarrow>
     (lg_near_done (rl_up r) \<longrightarrow> near_eof (rl_up r) \<or> lg_far_done (rl_down r)) \<and>
     (lg_far_done (rl_up r) \<longrightarrow> far_eof (rl_up r)) \<and>
     (lg_near_done (rl_down r) \<longrightarrow> near_eof (rl_down r)) \<and>
     (lg_far_done (rl_down r) \<longrightarrow> far_eof (rl_down r))"

lemma ends_ok_work: "relay_work False False r r' \<Longrightarrow> ends_ok r \<Longrightarrow> ends_ok r'"
  by (elim relay_workE handleTCPConnE handleStreamE) (auto simp: ends_ok_def leg_defs)

lemma ends_ok_step:
  assumes "relay_step False False r r'" and "ends_ok r"
  shows "ends_ok r'"
  using assms ends_ok_work by (cases rule: relay_step.cases) (auto simp: ends_ok_def leg_defs)

lemma ends_ok_start: "ends_ok (handleTCPConn_start True True bi bo)"
  by (simp add: ends_ok_def handleTCPConn_start_def new_leg_def)

interpretation clean_relaying: state_machine "handleTCPConn_start True True bi bo" "relay_step False False" ends_ok
  for bi bo
  by unfold_locales (auto intro: ends_ok_start ends_ok_step)

text \<open>The work left for the goroutines: every byte has at most two copies before it, every copier one end.\<close>

definition leg_work :: "leg \<Rightarrow> nat" where
  "leg_work l = 2 * length (lg_src l) + length (lg_mid l) + (if lg_near_done l then 0 else 1) + (if lg_far_done l then 0 else 1)"

definition work_left :: "relay \<Rightarrow> nat" where
  "work_left r = leg_work (rl_up r) + leg_work (rl_down r)"

lemma work_decreases: "relay_work fail early r r' \<Longrightarrow> work_left r' < work_left r"
  by (elim relay_workE handleTCPConnE handleStreamE) (auto simp: work_left_def leg_work_def leg_defs)

lemma work_bounded: "(relay_work fail early ^^ n) r q \<Longrightarrow> n + work_left q \<le> work_left r"
proof (induction n arbitrary: q)
  case (Suc n)
  then obtain p where "(relay_work fail early ^^ n) r p" "relay_work fail early p q" by auto
  then show ?case using Suc.IH [of p] work_decreases [of fail early p q] by simp
qed simp

text \<open>What holds when no goroutine can do anything.\<close>

definition at_rest :: "relay \<Rightarrow> bool" where
  "at_rest r \<longleftrightarrow> (\<forall>r'. \<not> relay_work False False r r')"

lemma at_restD:
  assumes "at_rest r"
  shows "lg_near_done (rl_down r) \<or> lg_src (rl_down r) = [] \<and> \<not> lg_eof (rl_down r)"
    and "lg_far_done (rl_down r) \<or> lg_mid (rl_down r) = [] \<and> \<not> lg_near_done (rl_down r)"
    and "lg_near_done (rl_up r) \<or> \<not> lg_far_done (rl_down r) \<and> lg_src (rl_up r) = [] \<and> \<not> lg_eof (rl_up r)"
    and "lg_far_done (rl_up r) \<or> lg_mid (rl_up r) = [] \<and> \<not> lg_near_done (rl_up r)"
proof -
  note no = assms [unfolded at_rest_def, rule_format]
  have copies: "\<not> near_can_copy (length (lg_src (rl_down r))) (rl_down r)"
      "\<not> far_can_copy (length (lg_mid (rl_down r))) (rl_down r)"
      "lg_far_done (rl_down r) \<or> \<not> near_can_copy (length (lg_src (rl_up r))) (rl_up r)"
      "\<not> far_can_copy (length (lg_mid (rl_up r))) (rl_up r)"
    using no at_client [OF client_reads] at_server [OF server_writes] at_server [OF server_reads] at_client [OF client_writes] by blast+
  have ends: "lg_near_done (rl_down r) \<or> \<not> near_eof (rl_down r)" "lg_far_done (rl_down r) \<or> \<not> far_eof (rl_down r)"
      "lg_near_done (rl_up r) \<or> \<not> near_eof (rl_up r) \<and> \<not> lg_far_done (rl_down r)"
      "lg_far_done (rl_up r) \<or> \<not> far_eof (rl_up r)"
    using no at_client [OF client_read_ends] at_server [OF server_write_ends] at_server [OF server_read_ends]
      at_client [OF client_write_ends] by blast+
  show "lg_near_done (rl_down r) \<or> lg_src (rl_down r) = [] \<and> \<not> lg_eof (rl_down r)"
    using copies(1) ends(1) by (auto simp: near_can_copy_def near_eof_def)
  show "lg_far_done (rl_down r) \<or> lg_mid (rl_down r) = [] \<and> \<not> lg_near_done (rl_down r)"
    using copies(2) ends(2) by (auto simp: far_can_copy_def far_eof_def)
  show "lg_near_done (rl_up r) \<or> \<not> lg_far_done (rl_down r) \<and> lg_src (rl_up r) = [] \<and> \<not> lg_eof (rl_up r)"
    using copies(3) ends(3) by (auto simp: near_can_copy_def near_eof_def)
  show "lg_far_done (rl_up r) \<or> lg_mid (rl_up r) = [] \<and> \<not> lg_near_done (rl_up r)"
    using copies(4) ends(4) by (auto simp: far_can_copy_def far_eof_def)
qed

lemma at_rest_delivered:
  assumes "at_rest r" and "ends_ok r" and "leg_ok (rl_up r)" and "leg_ok (rl_down r)"
  shows "lg_dst (rl_down r) = lg_sent (rl_down r)" and "lg_eof (rl_down r) \<Longrightarrow> lg_far_done (rl_down r)"
    and "\<not> lg_eof (rl_down r) \<Longrightarrow> lg_dst (rl_up r) = lg_sent (rl_up r)"
    and "\<not> lg_eof (rl_down r) \<Longrightarrow> lg_eof (rl_up r) \<Longrightarrow> lg_far_done (rl_up r)"
  using at_restD [OF assms(1)] assms(2-4) by (auto simp: ends_ok_def leg_ok_def near_eof_def far_eof_def)

lemma work_sources:
  assumes "(relay_work fail early)\<^sup>*\<^sup>* r q"
  shows "lg_sent (rl_up q) = lg_sent (rl_up r) \<and> lg_eof (rl_up q) = lg_eof (rl_up r) \<and>
    lg_sent (rl_down q) = lg_sent (rl_down r) \<and> lg_eof (rl_down q) = lg_eof (rl_down r)"
  using assms by (induction rule: rtranclp_induct) (auto elim!: relay_workE handleTCPConnE handleStreamE simp: leg_defs)

lemma work_is_step: "(relay_work fail early)\<^sup>*\<^sup>* r q \<Longrightarrow> (relay_step fail early)\<^sup>*\<^sup>* r q"
  by (induction rule: rtranclp_induct) (auto intro: rs_work rtranclp.rtrancl_into_rtrancl)

lemma comes_to_rest: "\<exists>q. (relay_work False False)\<^sup>*\<^sup>* r q \<and> at_rest q"
proof (induction r rule: measure_induct_rule [where f = work_left])
  case (less r)
  show ?case
  proof (cases "at_rest r")
    case False
    then obtain p where "relay_work False False r p" by (auto simp: at_rest_def)
    then show ?thesis using less [OF work_decreases] converse_rtranclp_into_rtranclp by meson
  qed auto
qed

subsection \<open>Properties\<close>


text \<open>
  C13: A TCP tunnel delivers: in a relay without failures the goroutines never run for longer than the bytes
  that are there require, and where they come to rest everything the service has sent has been written to
  the visitor, and if it has closed, so has the server towards the visitor; and unless the service has
  closed, everything the visitor has sent has been written to the service, and the end of it too.
\<close>

theorem tunnel_delivers:
  assumes "(relay_step False False)\<^sup>*\<^sup>* (handleTCPConn_start True True bytesIn bytesOut) r"
  shows "(\<forall>n q. (relay_work False False ^^ n) r q \<longrightarrow> n \<le> work_left r) \<and>
    (\<exists>q. (relay_work False False)\<^sup>*\<^sup>* r q \<and> at_rest q) \<and>
    (\<forall>q. (relay_work False False)\<^sup>*\<^sup>* r q \<longrightarrow> at_rest q \<longrightarrow>
       lg_dst (rl_down q) = lg_sent (rl_down r) \<and> (lg_eof (rl_down r) \<longrightarrow> lg_far_done (rl_down q)) \<and>
       (\<not> lg_eof (rl_down r) \<longrightarrow>
          lg_dst (rl_up q) = lg_sent (rl_up r) \<and> (lg_eof (rl_up r) \<longrightarrow> lg_far_done (rl_up q))))"
proof (intro conjI allI impI)
  show "n \<le> work_left r" if "(relay_work False False ^^ n) r q" for n q
    using work_bounded [OF that] by simp
  show "\<exists>q. (relay_work False False)\<^sup>*\<^sup>* r q \<and> at_rest q" by (rule comes_to_rest)
  fix q assume q: "(relay_work False False)\<^sup>*\<^sup>* r q" "at_rest q"
  have run: "(relay_step False False)\<^sup>*\<^sup>* (handleTCPConn_start True True bytesIn bytesOut) q"
    using assms work_is_step [OF q(1)] by (rule rtranclp_trans)
  note rest = at_rest_delivered [OF q(2) clean_relaying.good_run [OF run]]
    and ok = relaying.good_run [OF run, unfolded relay_ok_def] and src = work_sources [OF q(1)]
  show "lg_dst (rl_down q) = lg_sent (rl_down r)" using rest(1) ok src by simp
  show "lg_far_done (rl_down q)" if "lg_eof (rl_down r)" using rest(2) ok src that by simp
  show "lg_dst (rl_up q) = lg_sent (rl_up r)" if "\<not> lg_eof (rl_down r)" using rest(3) ok src that by simp
  show "lg_far_done (rl_up q)" if "\<not> lg_eof (rl_down r)" "lg_eof (rl_up r)" using rest(4) ok src that by simp
qed

subsection \<open>Examples\<close>

lemmas relay_runI = rtranclp.rtrancl_into_rtrancl [where r = "relay_step fail early" for fail early]

text \<open>A visitor asks and closes; the service has answered and keeps its side open.\<close>

definition asked :: relay where
  "asked = (handleTCPConn_start True True 10 20)
     \<lparr>rl_up := source_closes (source_writes [1, 2] (new_leg False False)), rl_down := source_writes [7] (new_leg False False)\<rparr>"

lemma asked_reachable: "(relay_step False False)\<^sup>*\<^sup>* (handleTCPConn_start True True 10 20) asked"
proof -
  let ?r0 = "handleTCPConn_start True True 10 20"
  let ?r1 = "?r0\<lparr>rl_up := source_writes [1, 2] (rl_up ?r0)\<rparr>"
  let ?r2 = "?r1\<lparr>rl_up := source_closes (rl_up ?r1)\<rparr>"
  have eq: "asked = ?r2\<lparr>rl_down := source_writes [7] (rl_down ?r2)\<rparr>"
    by (simp add: asked_def handleTCPConn_start_def)
  show ?thesis unfolding eq
    by (intro relay_runI [OF _ rs_service_writes] relay_runI [OF _ rs_visitor_closes]
        relay_runI [OF _ rs_visitor_writes] rtranclp.rtrancl_refl)
qed

lemma asked_sources:
  "lg_sent (rl_up asked) = [1, 2]" "lg_eof (rl_up asked)" "lg_sent (rl_down asked) = [7]" "\<not> lg_eof (rl_down asked)"
  by (simp_all add: asked_def leg_defs)

theorem tunnel_delivers_witness:
  "\<exists>q. (relay_work False False)\<^sup>*\<^sup>* asked q \<and> at_rest q \<and> lg_dst (rl_up q) = [1, 2] \<and> lg_far_done (rl_up q) \<and>
     lg_dst (rl_down q) = [7]"
  using tunnel_delivers [OF asked_reachable] asked_sources by metis

text \<open>Half of the question has arrived.\<close>

definition half_way :: relay where
  "half_way = asked\<lparr>rl_up := copy_far 1 (copy_near 2 (rl_up asked))\<rparr>"

lemma half_way_reachable: "(relay_step False False)\<^sup>*\<^sup>* (handleTCPConn_start True True 10 20) half_way"
proof -
  let ?r = "asked\<lparr>rl_up := copy_near 2 (rl_up asked)\<rparr>"
  have "relay_work False False asked ?r" by (rule at_server, rule server_reads) (simp_all add: asked_def leg_defs)
  moreover have "relay_work False False ?r (?r\<lparr>rl_up := copy_far 1 (rl_up ?r)\<rparr>)"
    by (rule at_client, rule client_writes) (simp add: asked_def leg_defs)
  moreover have "?r\<lparr>rl_up := copy_far 1 (rl_up ?r)\<rparr> = half_way" by (simp add: half_way_def)
  ultimately show ?thesis using relay_runI [OF relay_runI [OF asked_reachable rs_work] rs_work] by metis
qed


text \<open>
  What the second part of the property needs. A service that closes its side first cuts the visitor off in
  the middle of sending, since the server closes the visitor's connection and not just its half of it: a
  byte that was sent stays behind for good.
\<close>

definition cut_off :: relay where
  "cut_off = \<lparr>rl_up = \<lparr>lg_sent = [1], lg_eof = False, lg_src = [1], lg_near_n = 0, lg_near_done = True, lg_mid = [],
       lg_far_done = True, lg_dst = []\<rparr>,
     rl_down = \<lparr>lg_sent = [], lg_eof = True, lg_src = [], lg_near_n = 0, lg_near_done = True, lg_mid = [],
       lg_far_done = True, lg_dst = []\<rparr>, rl_BytesIn = 0, rl_BytesOut = 0\<rparr>"

lemma answer_cuts_upload:
  "(relay_step False False)\<^sup>*\<^sup>* (handleTCPConn_start True True 0 0) cut_off \<and> at_rest cut_off \<and>
   lg_dst (rl_up cut_off) \<noteq> lg_sent (rl_up cut_off)"
proof (intro conjI)
  let ?r0 = "handleTCPConn_start True True 0 0"
  let ?r1 = "?r0\<lparr>rl_up := source_writes [1] (rl_up ?r0)\<rparr>"
  let ?r2 = "?r1\<lparr>rl_down := source_closes (rl_down ?r1)\<rparr>"
  let ?r3 = "?r2\<lparr>rl_down := near_end (rl_down ?r2)\<rparr>"
  let ?r4 = "?r3\<lparr>rl_down := far_end (rl_down ?r3), rl_BytesOut := rl_BytesOut ?r3 + int (length (lg_dst (rl_down ?r3)))\<rparr>"
  let ?r5 = "?r4\<lparr>rl_up := near_end (rl_up ?r4), rl_BytesIn := rl_BytesIn ?r4 + int (lg_near_n (rl_up ?r4))\<rparr>"
  let ?r6 = "?r5\<lparr>rl_up := far_end (rl_up ?r5)\<rparr>"
  note d = handleTCPConn_start_def leg_defs
  have s2: "(relay_step False False)\<^sup>*\<^sup>* ?r0 ?r2"
    by (intro relay_runI [OF _ rs_service_closes] relay_runI [OF _ rs_visitor_writes] rtranclp.rtrancl_refl)
  have s3: "relay_work False False ?r2 ?r3" by (rule at_client, rule client_read_ends) (simp_all add: d)
  have s4: "relay_work False False ?r3 ?r4" by (rule at_server, rule server_write_ends) (simp_all add: d)
  have s5: "relay_work False False ?r4 ?r5" by (rule at_server, rule server_read_ends) (simp_all add: d)
  have s6: "relay_work False False ?r5 ?r6" by (rule at_client, rule client_write_ends) (simp_all add: d)
  have eq: "cut_off = ?r6" by (simp add: cut_off_def d)
  show "(relay_step False False)\<^sup>*\<^sup>* ?r0 cut_off" unfolding eq
    by (rule relay_runI [OF _ rs_work [OF s6]], rule relay_runI [OF _ rs_work [OF s5]],
        rule relay_runI [OF _ rs_work [OF s4]], rule relay_runI [OF s2 rs_work [OF s3]])
qed (auto simp: at_rest_def cut_off_def leg_defs elim!: relay_workE handleTCPConnE handleStreamE)

lemma acceptLoop_until_closed: "acceptLoop (map Some conns @ None # os) = conns"
  by (induction conns) auto

end
