(* ===== verification/Ws_Relay.thy ===== *)
theory Ws_Relay
  imports Relay
begin

text \<open>
  \<open>proxyBidirectional\<close> of \<open>internal/server/tcp_proxy.go\<close>, which carries a WebSocket after its upgrade
  (\<open>proxyWebSocket\<close> in \<open>http_proxy.go\<close>). It is not the code of \<open>handleTCPConn\<close>, but does the same: the two
  reach the same states, so what is known of TCP tunnels holds for WebSockets.
\<close>

section \<open>The relay of a WebSocket\<close>

text \<open>
  The two directions, and the local variables of the function: the bytes copied and whether the copy to
  \<open>a\<close>, the visitor, failed. \<open>b\<close> is the stream.
\<close>

record pipes =
  pp_up :: leg
  pp_down :: leg
  pp_inBytes :: int
  pp_outBytes :: int
  pp_aErr :: bool

definition proxyBidirectional_start :: pipes where
  "proxyBidirectional_start =
     \<lparr>pp_up = new_leg False False, pp_down = new_leg False False, pp_inBytes = 0, pp_outBytes = 0, pp_aErr = False\<rparr>"

text \<open>The two goroutines; \<open>fail\<close> and \<open>early\<close> are as for \<open>handleTCPConn\<close>.\<close>

inductive proxyBidirectional :: "bool \<Rightarrow> bool \<Rightarrow> pipes \<Rightarrow> pipes \<Rightarrow> bool" for fail early where
  to_a: "far_can_copy k (pp_down p) \<Longrightarrow> proxyBidirectional fail early p (p\<lparr>pp_down := copy_far k (pp_down p)\<rparr>)"
| to_a_ends:
    "\<not> lg_far_done (pp_down p) \<Longrightarrow> far_eof (pp_down p) \<or> early \<and> lg_near_done (pp_up p) \<Longrightarrow>
       proxyBidirectional fail early p
         (p\<lparr>pp_down := far_end (pp_down p), pp_inBytes := int (length (lg_dst (pp_down p)))\<rparr>)"
| to_a_fails:
    "\<not> lg_far_done (pp_down p) \<Longrightarrow> fail \<Longrightarrow>
       proxyBidirectional fail early p
         (p\<lparr>pp_down := far_end (pp_down p), pp_inBytes := int (length (lg_dst (pp_down p))), pp_aErr := True\<rparr>)"
| to_b: "near_can_copy k (pp_up p) \<Longrightarrow> \<not> lg_far_done (pp_down p) \<Longrightarrow>
       proxyBidirectional fail early p (p\<lparr>pp_up := copy_near k (pp_up p)\<rparr>)"
| to_b_ends:
    "\<not> lg_near_done (pp_up p) \<Longrightarrow> near_eof (pp_up p) \<or> lg_far_done (pp_down p) \<or> fail \<Longrightarrow>
       proxyBidirectional fail early p
         (p\<lparr>pp_up := near_end (pp_up p), pp_outBytes := int (lg_near_n (pp_up p))\<rparr>)"

inductive_cases proxyBidirectionalE: "proxyBidirectional fail early p p'"

text \<open>What it returns once both goroutines are done.\<close>

definition proxy_result :: "pipes \<Rightarrow> (int \<times> int \<times> bool) option" where
  "proxy_result p =
     (if lg_far_done (pp_down p) \<and> lg_near_done (pp_up p) then Some (pp_inBytes p, pp_outBytes p, pp_aErr p) else None)"

definition as_relay :: "pipes \<Rightarrow> relay" where
  "as_relay p = \<lparr>rl_up = pp_up p, rl_down = pp_down p, rl_BytesIn = pp_outBytes p, rl_BytesOut = pp_inBytes p\<rparr>"

definition with_legs :: "pipes \<Rightarrow> relay \<Rightarrow> pipes" where
  "with_legs p r = p\<lparr>pp_up := rl_up r, pp_down := rl_down r\<rparr>"

text \<open>Beside it the client's \<open>handleStream\<close>, the visitor and the service do what they do in a TCP tunnel.\<close>

inductive ws_step :: "bool \<Rightarrow> bool \<Rightarrow> pipes \<Rightarrow> pipes \<Rightarrow> bool" for fail early where
  ws_proxy: "proxyBidirectional fail early p p' \<Longrightarrow> ws_step fail early p p'"
| ws_client: "handleStream fail early (as_relay p) r \<Longrightarrow> ws_step fail early p (with_legs p r)"
| ws_visitor_writes: "ws_step fail early p (p\<lparr>pp_up := source_writes bs (pp_up p)\<rparr>)"
| ws_visitor_closes: "ws_step fail early p (p\<lparr>pp_up := source_closes (pp_up p)\<rparr>)"
| ws_service_writes: "ws_step fail early p (p\<lparr>pp_down := source_writes bs (pp_down p)\<rparr>)"
| ws_service_closes: "ws_step fail early p (p\<lparr>pp_down := source_closes (pp_down p)\<rparr>)"

subsection \<open>Simulation both ways\<close>

lemma as_relay_start: "as_relay proxyBidirectional_start = handleTCPConn_start True True 0 0"
  by (simp add: as_relay_def proxyBidirectional_start_def handleTCPConn_start_def)

lemma as_relay_legs: "rl_BytesIn r = pp_outBytes p \<Longrightarrow> rl_BytesOut r = pp_inBytes p \<Longrightarrow> as_relay (with_legs p r) = r"
  by (simp add: as_relay_def with_legs_def)

lemma handleStream_counters: "handleStream fail early r r' \<Longrightarrow> rl_BytesIn r' = rl_BytesIn r \<and> rl_BytesOut r' = rl_BytesOut r"
  by (elim handleStreamE) auto

text \<open>The function assigns where \<open>handleTCPConn\<close> adds: the same as long as the counters start at zero.\<close>

lemma proxy_is_conn:
  assumes "proxyBidirectional fail early p p'" and "relay_ok 0 0 (as_relay p)"
  shows "handleTCPConn fail early (as_relay p) (as_relay p')"
  using assms
proof cases
  case (to_a k)
  then show ?thesis using server_writes [of k "as_relay p" fail early] by (simp add: as_relay_def)
next
  case to_a_ends
  then show ?thesis using server_write_ends [of "as_relay p" early fail] assms(2)
    by (auto simp: as_relay_def relay_ok_def counters_ok_def)
next
  case to_a_fails
  then show ?thesis using server_write_ends [of "as_relay p" early fail] assms(2)
    by (auto simp: as_relay_def relay_ok_def counters_ok_def)
next
  case (to_b k)
  then show ?thesis using server_reads [of k "as_relay p" fail early] by (simp add: as_relay_def)
next
  case to_b_ends
  then show ?thesis using server_read_ends [of "as_relay p" fail early] assms(2)
    by (auto simp: as_relay_def relay_ok_def counters_ok_def)
qed

lemma conn_is_proxy:
  assumes "handleTCPConn fail early (as_relay p) r'" and "relay_ok 0 0 (as_relay p)"
  shows "\<exists>p'. proxyBidirectional fail early p p' \<and> as_relay p' = r'"
  using assms
proof cases
  case (server_reads k)
  then show ?thesis using to_b [of k p fail early] by (auto simp: as_relay_def)
next
  case server_read_ends
  then show ?thesis using to_b_ends [of p fail early] assms(2)
    by (intro exI [of _ "p\<lparr>pp_up := near_end (pp_up p), pp_outBytes := int (lg_near_n (pp_up p))\<rparr>"])
       (auto simp: as_relay_def relay_ok_def counters_ok_def)
next
  case (server_writes k)
  then show ?thesis using to_a [of k p fail early] by (auto simp: as_relay_def)
next
  case server_write_ends
  let ?p = "p\<lparr>pp_down := far_end (pp_down p), pp_inBytes := int (length (lg_dst (pp_down p)))\<rparr>"
  have "proxyBidirectional fail early p ?p \<or> proxyBidirectional fail early p (?p\<lparr>pp_aErr := True\<rparr>)"
    using server_write_ends to_a_ends [of p early fail] to_a_fails [of p fail early] by (auto simp: as_relay_def)
  moreover have "as_relay ?p = r'" "as_relay (?p\<lparr>pp_aErr := True\<rparr>) = r'"
    using server_write_ends assms(2) by (auto simp: as_relay_def relay_ok_def counters_ok_def)
  ultimately show ?thesis by blast
qed

lemma ws_is_relay:
  assumes "ws_step fail early p p'" and "relay_ok 0 0 (as_relay p)"
  shows "relay_step fail early (as_relay p) (as_relay p')"
  using assms
proof cases
  case ws_proxy
  then show ?thesis using proxy_is_conn [OF _ assms(2)] by (blast intro: rs_work at_server)
next
  case (ws_client r)
  have "as_relay p' = r" unfolding ws_client(1)
    by (rule as_relay_legs) (use handleStream_counters [OF ws_client(2)] in \<open>simp_all add: as_relay_def\<close>)
  then show ?thesis using ws_client(2) by (auto intro: rs_work at_client)
next
  case (ws_visitor_writes bs)
  then show ?thesis using rs_visitor_writes [of fail early "as_relay p" bs] by (simp add: as_relay_def)
next
  case ws_visitor_closes
  then show ?thesis using rs_visitor_closes [of fail early "as_relay p"] by (simp add: as_relay_def)
next
  case (ws_service_writes bs)
  then show ?thesis using rs_service_writes [of fail early "as_relay p" bs] by (simp add: as_relay_def)
next
  case ws_service_closes
  then show ?thesis using rs_service_closes [of fail early "as_relay p"] by (simp add: as_relay_def)
qed

lemma relay_is_ws:
  assumes "relay_step fail early (as_relay p) r'" and "relay_ok 0 0 (as_relay p)"
  shows "\<exists>p'. ws_step fail early p p' \<and> as_relay p' = r'"
  using assms
proof cases
  case rs_work
  then show ?thesis
  proof cases
    case at_server
    then show ?thesis using conn_is_proxy [OF _ assms(2)] by (blast intro: ws_proxy)
  next
    case at_client
    have "as_relay (with_legs p r') = r'"
      by (rule as_relay_legs) (use handleStream_counters [OF at_client] in \<open>simp_all add: as_relay_def\<close>)
    then show ?thesis using ws_client [OF at_client] by blast
  qed
next
  case (rs_visitor_writes bs)
  then show ?thesis using ws_visitor_writes [of fail early p bs] by (auto simp: as_relay_def)
next
  case rs_visitor_closes
  then show ?thesis using ws_visitor_closes [of fail early p] by (auto simp: as_relay_def)
next
  case (rs_service_writes bs)
  then show ?thesis using ws_service_writes [of fail early p bs] by (auto simp: as_relay_def)
next
  case rs_service_closes
  then show ?thesis using ws_service_closes [of fail early p] by (auto simp: as_relay_def)
qed

lemma ws_run:
  assumes "(ws_step fail early)\<^sup>*\<^sup>* proxyBidirectional_start p"
  shows "(relay_step fail early)\<^sup>*\<^sup>* (handleTCPConn_start True True 0 0) (as_relay p)"
  using assms
proof (induction rule: rtranclp_induct)
  case (step p q)
  then show ?case using ws_is_relay [OF step.hyps(2) relaying.good_run [OF step.IH]]
    by (rule_tac rtranclp.rtrancl_into_rtrancl)
qed (simp add: as_relay_start)

lemma relay_run:
  assumes "(relay_step fail early)\<^sup>*\<^sup>* (handleTCPConn_start True True 0 0) r"
  shows "\<exists>p. (ws_step fail early)\<^sup>*\<^sup>* proxyBidirectional_start p \<and> as_relay p = r"
  using assms
proof (induction rule: rtranclp_induct)
  case base
  then show ?case using as_relay_start by blast
next
  case (step q r)
  then obtain p where p: "(ws_step fail early)\<^sup>*\<^sup>* proxyBidirectional_start p" "as_relay p = q" by blast
  then obtain p' where "ws_step fail early p p'" "as_relay p' = r"
    using relay_is_ws [of fail early p r] step.hyps relaying.good_run [OF step.hyps(1)] by blast
  then show ?case using rtranclp.rtrancl_into_rtrancl [OF p(1)] by blast
qed

subsection \<open>Properties\<close>

text \<open>
  C22: The two relays of the server are the same: \<open>proxyBidirectional\<close>, which carries WebSockets, and
  \<open>handleTCPConn\<close>, which carries TCP connections, reach exactly the same states of the two directions under
  the same failures, with \<open>inBytes\<close> and \<open>outBytes\<close> in the place of the counters of the session.
\<close>

theorem websocket_relay_is_tcp_relay:
  "(\<exists>p. (ws_step fail early)\<^sup>*\<^sup>* proxyBidirectional_start p \<and> as_relay p = r) \<longleftrightarrow>
     (relay_step fail early)\<^sup>*\<^sup>* (handleTCPConn_start True True 0 0) r"
  using ws_run relay_run by blast

text \<open>What it returns are the bytes passed on, and nothing is corrupted on the way.\<close>

lemma websocket_preserves_bytes:
  assumes "(ws_step fail early)\<^sup>*\<^sup>* proxyBidirectional_start p"
  shows "prefix (lg_dst (pp_up p)) (lg_sent (pp_up p)) \<and> prefix (lg_dst (pp_down p)) (lg_sent (pp_down p))"
    and "proxy_result p = Some (n_in, n_out, e) \<Longrightarrow>
      n_in = int (length (lg_dst (pp_down p))) \<and> n_out = int (length (lg_dst (pp_up p) @ lg_mid (pp_up p)))"
  using relaying.good_run [OF ws_run [OF assms]]
  by (auto simp: as_relay_def relay_ok_def counters_ok_def leg_ok_def proxy_result_def split: if_splits)

lemma no_failure_no_error: "(ws_step False early)\<^sup>*\<^sup>* proxyBidirectional_start p \<Longrightarrow> \<not> pp_aErr p"
  by (induction rule: rtranclp_induct)
     (auto elim!: ws_step.cases proxyBidirectionalE simp: proxyBidirectional_start_def with_legs_def)

subsection \<open>A writer that counts\<close>

text \<open>
  \<open>countingWriter\<close>, which nothing uses yet: the writer it wraps answers how many of the bytes it took, and whether
  it failed; the count is of the bytes taken.
\<close>

record 'w countingWriter =
  cw_w :: 'w
  cw_count :: int

definition countingWriter_Write ::
    "('w \<Rightarrow> bytes \<Rightarrow> (nat \<times> string option) \<times> 'w) \<Rightarrow> bytes \<Rightarrow> 'w countingWriter \<Rightarrow> (nat \<times> string option) \<times> 'w countingWriter" where
  "countingWriter_Write write p c =
     (case write (cw_w c) p of ((n, err), w) \<Rightarrow> ((n, err), c\<lparr>cw_w := w, cw_count := cw_count c + int n\<rparr>))"

lemma countingWriter_exact:
  assumes "\<And>w p n err w'. write w p = ((n, err), w') \<Longrightarrow> length (bytes_of w') = length (bytes_of w) + n"
    and "cw_count c = int (length (bytes_of (cw_w c)))" and "countingWriter_Write write p c = (r, c')"
  shows "cw_count c' = int (length (bytes_of (cw_w c')))"
  using assms(2,3) assms(1) [of "cw_w c" p] by (auto simp: countingWriter_Write_def split: prod.splits)

end
