(* ===== verification/Lifecycle.thy ===== *)
theory Lifecycle
  imports Client_Proofs Dashboard Maintenance Server
begin

text \<open>
  How the processes run: \<open>Server.Start\<close> and \<open>startDashboard\<close> (\<open>internal/server/server.go\<close>), \<open>HTTPProxy.Start\<close> and
  \<open>serveTLS\<close> (\<open>internal/server/http_proxy.go\<close>), the \<open>serve\<close>, \<open>health\<close> and \<open>status\<close> commands (\<open>cmd/server\<close>) and,
  at the other end, \<open>runWithHeartbeat\<close> (\<open>internal/client/reconnect.go\<close>), which serves a tunnel and watches
  its connection at once. What the operating system answers is an argument.
\<close>

section \<open>Running\<close>

subsection \<open>Accept loops\<close>

text \<open>
  What \<open>Accept\<close> returns: a connection, or an error together with whether the context was cancelled. The
  loops of the control port and of the HTTPS port go on after an error unless it was. The result is the
  connections handed to goroutines and whether the loop has returned.
\<close>

datatype accept_event = Conn nat | AcceptFails bool

fun accept_conns :: "accept_event list \<Rightarrow> nat list \<times> bool" where
  "accept_conns [] = ([], False)"
| "accept_conns (Conn c # evs) = (case accept_conns evs of (cs, ret) \<Rightarrow> (c # cs, ret))"
| "accept_conns (AcceptFails cancelled # evs) = (if cancelled then ([], True) else accept_conns evs)"

definition serveTLS :: "accept_event list \<Rightarrow> nat list \<times> bool" where
  "serveTLS evs = accept_conns evs"

definition conns :: "accept_event list \<Rightarrow> nat list" where
  "conns evs = concat (map (\<lambda>ev. case ev of Conn c \<Rightarrow> [c] | AcceptFails b \<Rightarrow> []) evs)"

lemma accept_until_cancelled:
  assumes "AcceptFails True \<notin> set evs"
  shows "accept_conns evs = (conns evs, False)" and "accept_conns (evs @ AcceptFails True # rest) = (conns evs, True)"
  using assms by (induction evs rule: accept_conns.induct) (auto simp: conns_def split: if_splits)

text \<open>The listener of a server that has not started is nil.\<close>

definition Shutdown :: "handle \<Rightarrow> handle" where
  "Shutdown listener = (if listener \<noteq> NilHandle then ClosedHandle else listener)"

text \<open>
  \<open>Shutdown\<close> closes the listener and cancels nothing: every further \<open>Accept\<close> fails and the loop runs on.
\<close>

lemma shutdown_spins: "accept_conns (map Conn cs @ replicate n (AcceptFails False)) = (cs, False)"
proof -
  have "conns (replicate n (AcceptFails False)) = []" by (simp add: conns_def)
  moreover have "conns (map Conn cs) = cs" by (induction cs) (simp_all add: conns_def)
  moreover have "conns (a @ b) = conns a @ conns b" for a b by (simp add: conns_def)
  ultimately show ?thesis using accept_until_cancelled(1) [of "map Conn cs @ replicate n (AcceptFails False)"] by auto
qed

subsection \<open>Starting the server\<close>

datatype start_error = BuildTLS string | Listen string

text \<open>The outcome of building the TLS configuration and of listening; \<open>None\<close> as the result is a server that still runs.\<close>

definition Start :: "string option \<Rightarrow> string option \<Rightarrow> accept_event list \<Rightarrow> start_error option option \<times> nat list" where
  "Start tls_error listen_error evs =
     (case tls_error of
        Some e \<Rightarrow> (Some (Some (BuildTLS e)), [])
      | None \<Rightarrow>
          (case listen_error of
             Some e \<Rightarrow> (Some (Some (Listen e)), [])
           | None \<Rightarrow> (case accept_conns evs of (cs, ret) \<Rightarrow> (if ret then Some None else None, cs))))"

definition startDashboard :: "string \<Rightarrow> config_provider \<Rightarrow> request_log \<Rightarrow> ('h, 'l) server \<Rightarrow> (string \<times> dashboard) option" where
  "startDashboard version cp rl s =
     (if \<not> sc_DashboardEnabled (sv_cfg s) then None
      else Some (sc_DashboardAddr (sv_cfg s),
        NewHandler (sv_tunnelManager s) (sv_keyStore s) cp (sc_AdminToken (sv_cfg s)) (sc_Domain (sv_cfg s)) version
          (NewRequestLogAdapter rl)))"

text \<open>The two listeners of the HTTP proxy, and its start with the end of the context.\<close>

record proxy_listeners =
  pl_tls :: handle
  pl_http :: handle

datatype proxy_error = ProxyTLS string | ProxyListenTLS string | ProxyListenHTTP string

definition HTTPProxy_Start ::
    "string option \<Rightarrow> string option \<Rightarrow> string option \<Rightarrow> proxy_error option \<times> proxy_listeners" where
  "HTTPProxy_Start tls_error tls_listen_error http_listen_error =
     (let none = \<lparr>pl_tls = NilHandle, pl_http = NilHandle\<rparr> in
      case tls_error of
        Some e \<Rightarrow> (Some (ProxyTLS e), none)
      | None \<Rightarrow>
          (case tls_listen_error of
             Some e \<Rightarrow> (Some (ProxyListenTLS e), none)
           | None \<Rightarrow>
               let p = none\<lparr>pl_tls := OpenHandle\<rparr> in
               (case http_listen_error of
                  Some e \<Rightarrow> (Some (ProxyListenHTTP e), p\<lparr>pl_tls := ClosedHandle\<rparr>)
                | None \<Rightarrow> (None, p\<lparr>pl_tls := ClosedHandle, pl_http := ClosedHandle\<rparr>))))"

lemma proxy_leaves_no_listener:
  "HTTPProxy_Start a b c = (r, p) \<Longrightarrow> pl_tls p \<noteq> OpenHandle \<and> pl_http p \<noteq> OpenHandle"
  by (auto simp: HTTPProxy_Start_def Let_def split: option.splits)

subsection \<open>Commands\<close>

text \<open>The files of the machine and its environment, as far as a command loads its configuration from them.\<close>

record machine =
  mc_yaml :: "string \<Rightarrow> string + server_config"
  mc_utrim :: "string \<Rightarrow> string"
  mc_env :: "string \<Rightarrow> string"
  mc_file :: "string \<Rightarrow> file_read"

definition load_config :: "machine \<Rightarrow> string \<Rightarrow> config_error + server_config" where
  "load_config mc path = LoadServerConfig (mc_yaml mc) (mc_utrim mc) (mc_env mc) path (mc_file mc path)"

text \<open>The exit code of \<open>serve\<close>, or \<open>None\<close> while the server runs.\<close>

definition serveCmd ::
    "'h bcrypt_api \<Rightarrow> 'l limiter_api \<Rightarrow> json_api \<Rightarrow> machine \<Rightarrow> string \<Rightarrow> string option \<Rightarrow> string option \<Rightarrow> accept_event list \<Rightarrow>
     int option" where
  "serveCmd B L J mc flagConfig tls_error listen_error evs =
     (case load_config mc (serve_config_path flagConfig) of
        Inl e \<Rightarrow> Some 1
      | Inr cfg \<Rightarrow>
          (case NewServer B L J (mc_utrim mc) (mc_file mc (sc_KeyStorePath cfg)) cfg of
             Inl e \<Rightarrow> Some 1
           | Inr s \<Rightarrow>
               (case fst (Start tls_error listen_error evs) of
                  None \<Rightarrow> None
                | Some (Some e) \<Rightarrow> Some 1
                | Some None \<Rightarrow> Some 0)))"

text \<open>What a request to the health endpoint brings: no answer, or a status with a body that parses or not.\<close>

datatype probe = NoAnswer | Answered_with int bool

text \<open>The exit code and whether \<open>DEGRADED\<close> is shown.\<close>

definition healthCmd :: "(string \<Rightarrow> probe) \<Rightarrow> machine \<Rightarrow> string \<Rightarrow> int \<times> bool" where
  "healthCmd get mc flagConfig =
     (case get (health_url (case load_config mc (resolveConfigPath flagConfig) of Inl e \<Rightarrow> None | Inr cfg \<Rightarrow> Some cfg)) of
        NoAnswer \<Rightarrow> (1, False)
      | Answered_with code parses \<Rightarrow> if \<not> parses then (1, False) else (0, code \<noteq> 200))"

text \<open>Whether the server is shown as online.\<close>

definition runStatus :: "(string \<Rightarrow> probe) \<Rightarrow> machine \<Rightarrow> string \<Rightarrow> config_error + bool" where
  "runStatus get mc flagConfig =
     (case load_config mc (resolveConfigPath flagConfig) of
        Inl e \<Rightarrow> Inl e
      | Inr cfg \<Rightarrow> Inr (get (health_url (Some cfg)) \<noteq> NoAnswer))"

text \<open>
  A running dashboard is healthy: asked for the path that \<open>health\<close> probes, it answers 200 in every state, with
  no credentials, and changes nothing.
\<close>

lemma dashboard_always_healthy:
  assumes "dq_Method r = ''GET''" and "dq_Path r = ''/_healthz''" and "ServeHTTP J yaml P x r d = (resp, d')"
  shows "dr_status resp = 200" and "d' = d"
  using assms
  by (auto simp: ServeHTTP_def endpoint_of_def get_routes_def serve_endpoint_def handleHealthz_def writeJSON_def Let_def)

text \<open>Both commands probe the address the dashboard listens on, whenever a configuration can be loaded.\<close>

lemma health_agrees_with_status:
  assumes "runStatus get mc flagConfig = Inr online"
  shows "\<not> online \<Longrightarrow> healthCmd get mc flagConfig = (1, False)" and "fst (healthCmd get mc flagConfig) = 0 \<Longrightarrow> online"
  using assms by (auto simp: runStatus_def healthCmd_def split: sum.splits probe.splits)

subsection \<open>Serving a tunnel and watching the connection\<close>

text \<open>
  \<open>runWithHeartbeat\<close>: the events of the two goroutines in the order in which they happen. The first loop to
  end decides the result: \<open>Inl\<close> the heartbeat, \<open>Inr\<close> the accepting of streams.
\<close>

fun runWithHeartbeat :: "nat \<Rightarrow> (hb_event + accept_outcome) list \<Rightarrow> nat list \<times> (hb_result + string option) option" where
  "runWithHeartbeat misses [] = ([], None)"
| "runWithHeartbeat misses (Inl ev # evs) =
     (case hb_step misses ev of Beating n \<Rightarrow> runWithHeartbeat n evs | r \<Rightarrow> ([], Some (Inl r)))"
| "runWithHeartbeat misses (Inr (Accepted s) # evs) =
     (case runWithHeartbeat misses evs of (ss, r) \<Rightarrow> (s # ss, r))"
| "runWithHeartbeat misses (Inr (AcceptError e cancelled) # evs) =
     ([], Some (Inr (if cancelled then None else Some e)))"

text \<open>
  Traffic neither hides nor causes a dead connection: as long as streams are accepted, the outcome is that
  of the heartbeat loop on its own events.
\<close>

lemma traffic_does_not_matter:
  assumes "\<And>e c. Inr (AcceptError e c) \<notin> set evs"
  shows "snd (runWithHeartbeat n evs) =
    (case runHeartbeat n (concat (map (\<lambda>ev. case ev of Inl h \<Rightarrow> [h] | Inr a \<Rightarrow> []) evs)) of
       Beating m \<Rightarrow> None | r \<Rightarrow> Some (Inl r))"
  using assms
proof (induction n evs rule: runWithHeartbeat.induct)
  case (2 n ev evs)
  then show ?case by (cases "hb_step n ev") auto
qed (fastforce split: prod.split)+

end
