(* ===== verification/Tls.thy ===== *)
theory Tls
  imports Lifecycle Session_Properties Http_Properties
begin

text \<open>
  Certificates: \<open>selfSignedTLSConfig\<close> and the two \<open>buildTLSConfig\<close> of \<open>internal/server/server.go\<close> and
  \<open>internal/server/http_proxy.go\<close>, \<open>certmagicTLSConfig\<close>, and the connections served with them
  (\<open>handleTLSConn\<close>). The functions of \<open>crypto\<close> and of certmagic are arguments; what the program decides is
  which of them it calls, in which order, with what, and what happens when one of them fails.
\<close>

section \<open>TLS\<close>

subsection \<open>A certificate of its own\<close>

datatype key_usage = KeyUsageKeyEncipherment | KeyUsageDigitalSignature

datatype ext_key_usage = ExtKeyUsageServerAuth

record cert_template =
  ct_SerialNumber :: int
  ct_CommonName :: string
  ct_NotBefore :: time
  ct_NotAfter :: time
  ct_KeyUsage :: "key_usage set"
  ct_ExtKeyUsage :: "ext_key_usage list"
  ct_IPAddresses :: "string list"

record pem_block =
  pb_Type :: string
  pb_Bytes :: bytes

text \<open>\<open>rsa.GenerateKey\<close>, \<open>x509.CreateCertificate\<close> (the template signs itself), \<open>MarshalPKCS1PrivateKey\<close>, \<open>tls.X509KeyPair\<close>.\<close>

record ('key, 'cert) crypto_api =
  ca_GenerateKey :: "nat \<Rightarrow> string + 'key"
  ca_CreateCertificate :: "cert_template \<Rightarrow> 'key \<Rightarrow> string + bytes"
  ca_MarshalKey :: "'key \<Rightarrow> bytes"
  ca_X509KeyPair :: "pem_block \<Rightarrow> pem_block \<Rightarrow> string + 'cert"

text \<open>
  \<open>tls.Config\<close>, as far as it is used; \<open>GetCertificate\<close> maps the server name of a handshake to a certificate and
  an error, either of which may be nil.
\<close>

record 'cert tls_config =
  tc_Certificates :: "'cert list"
  tc_MinVersion :: nat
  tc_NextProtos :: "string list"
  tc_GetCertificate :: "(string \<Rightarrow> 'cert option \<times> string option) option"

definition VersionTLS12 :: nat where
  "VersionTLS12 = 0x0303"

definition selfSigned_template :: "time \<Rightarrow> time \<Rightarrow> cert_template" where
  "selfSigned_template now1 now2 =
     \<lparr>ct_SerialNumber = 1, ct_CommonName = ''htn-tunnel-dev'', ct_NotBefore = now1 - minute,
      ct_NotAfter = now2 + 87600 * (60 * minute), ct_KeyUsage = {KeyUsageKeyEncipherment, KeyUsageDigitalSignature},
      ct_ExtKeyUsage = [ExtKeyUsageServerAuth], ct_IPAddresses = [''127.0.0.1'']\<rparr>"

definition selfSignedTLSConfig ::
    "('key, 'cert) crypto_api \<Rightarrow> time \<Rightarrow> time \<Rightarrow> string + 'cert tls_config" where
  "selfSignedTLSConfig ca now1 now2 =
     (case ca_GenerateKey ca 2048 of
        Inl e \<Rightarrow> Inl e
      | Inr priv \<Rightarrow>
          (case ca_CreateCertificate ca (selfSigned_template now1 now2) priv of
             Inl e \<Rightarrow> Inl e
           | Inr der \<Rightarrow>
               let certPEM = \<lparr>pb_Type = ''CERTIFICATE'', pb_Bytes = der\<rparr>;
                   keyPEM = \<lparr>pb_Type = ''RSA PRIVATE KEY'', pb_Bytes = ca_MarshalKey ca priv\<rparr> in
               (case ca_X509KeyPair ca certPEM keyPEM of
                  Inl e \<Rightarrow> Inl e
                | Inr cert \<Rightarrow> Inr \<lparr>tc_Certificates = [cert], tc_MinVersion = VersionTLS12, tc_NextProtos = [],
                    tc_GetCertificate = None\<rparr>)))"

text \<open>The control port: both branches are the same.\<close>

definition server_buildTLSConfig ::
    "('key, 'cert) crypto_api \<Rightarrow> time \<Rightarrow> time \<Rightarrow> server_config \<Rightarrow> string + 'cert tls_config" where
  "server_buildTLSConfig ca now1 now2 cfg =
     (if sc_DevMode cfg \<or> sc_Domain cfg = [] then selfSignedTLSConfig ca now1 now2
      else selfSignedTLSConfig ca now1 now2)"

lemma control_port_always_self_signed: "server_buildTLSConfig ca now1 now2 cfg = selfSignedTLSConfig ca now1 now2"
  by (simp add: server_buildTLSConfig_def)

subsection \<open>Paths\<close>

text \<open>\<open>filepath.Join\<close> and \<open>filepath.Clean\<close> of the standard library, on the elements of a path.\<close>

fun clean_parts :: "bool \<Rightarrow> string list \<Rightarrow> string list \<Rightarrow> string list" where
  "clean_parts rooted out [] = rev out"
| "clean_parts rooted out (p # ps) =
     (if p = [] \<or> p = ''.'' then clean_parts rooted out ps
      else if p = ''..'' then
        (case out of
           [] \<Rightarrow> clean_parts rooted (if rooted then [] else [''..'']) ps
         | q # out' \<Rightarrow> clean_parts rooted (if q = ''..'' then ''..'' # out else out') ps)
      else clean_parts rooted (p # out) ps)"

fun join_slash :: "string list \<Rightarrow> string" where
  "join_slash [] = []"
| "join_slash [p] = p"
| "join_slash (p # q # ps) = p @ ''/'' @ join_slash (q # ps)"

definition filepath_Clean :: "string \<Rightarrow> string" where
  "filepath_Clean path =
     (let rooted = HasPrefix path ''/'';
          s = (if rooted then ''/'' else []) @ join_slash (clean_parts rooted [] (Split path CHR ''/''))
      in if s = [] then ''.'' else s)"

definition filepath_Join :: "string list \<Rightarrow> string" where
  "filepath_Join es =
     (case dropWhile (\<lambda>e. e = []) es of [] \<Rightarrow> [] | es' \<Rightarrow> filepath_Clean (join_slash es'))"

subsection \<open>Managed certificates\<close>

text \<open>The settings of certmagic: \<open>DefaultACME\<close> with its DNS-01 solver, and the storage.\<close>

record magic =
  mg_Email :: string
  mg_Agreed :: bool
  mg_CloudflareToken :: string
  mg_Storage :: string

record 'cert certmagic_api =
  cm_ManageAsync :: "magic \<Rightarrow> string list \<Rightarrow> string option"
  cm_TLSConfig :: "magic \<Rightarrow> 'cert tls_config"
  cm_LoadX509KeyPair :: "string \<Rightarrow> string \<Rightarrow> string + 'cert"

datatype tls_error = NoDNSToken | UnsupportedProvider string | ManageDomains string | SelfSigned string

definition managed_domains :: "server_config \<Rightarrow> string list" where
  "managed_domains cfg = [sc_Domain cfg, ''*.'' @ sc_Domain cfg]"

text \<open>The wildcard certificate and its key, where certmagic leaves them.\<close>

definition wildcard_paths :: "server_config \<Rightarrow> string \<times> string" where
  "wildcard_paths cfg =
     (let wildcardName = ''wildcard_.'' @ sc_Domain cfg;
          certDir = filepath_Join [sc_CertStorage cfg, ''certificates'', ''acme-v02.api.letsencrypt.org-directory'', wildcardName]
      in (filepath_Join [certDir, wildcardName @ ''.crt''], filepath_Join [certDir, wildcardName @ ''.key'']))"

definition fallback_to ::
    "'cert \<Rightarrow> (string \<Rightarrow> 'cert option \<times> string option) option \<Rightarrow> string \<Rightarrow> 'cert option \<times> string option" where
  "fallback_to cert orig hello =
     (case orig of
        Some get \<Rightarrow> (case get hello of (Some c, None) \<Rightarrow> (Some c, None) | _ \<Rightarrow> (Some cert, None))
      | None \<Rightarrow> (Some cert, None))"

definition certmagicTLSConfig ::
    "(string \<Rightarrow> string) \<Rightarrow> 'cert certmagic_api \<Rightarrow> server_config \<Rightarrow> tls_error + 'cert tls_config" where
  "certmagicTLSConfig ulow cm cfg =
     (if sc_DNSAPIToken cfg = [] then Inl NoDNSToken
      else if ToLower ulow (sc_DNSProvider cfg) \<noteq> ''cloudflare'' then Inl (UnsupportedProvider (sc_DNSProvider cfg))
      else
        let mg = \<lparr>mg_Email = sc_Email cfg, mg_Agreed = True, mg_CloudflareToken = sc_DNSAPIToken cfg, mg_Storage = sc_CertStorage cfg\<rparr> in
        case cm_ManageAsync cm mg (managed_domains cfg) of
          Some e \<Rightarrow> Inl (ManageDomains e)
        | None \<Rightarrow>
            let tlsCfg = (cm_TLSConfig cm mg)\<lparr>tc_NextProtos := [''http/1.1'']\<rparr>;
                (certPath, keyPath) = wildcard_paths cfg in
            (case cm_LoadX509KeyPair cm certPath keyPath of
               Inr cert \<Rightarrow> Inr (tlsCfg\<lparr>tc_GetCertificate := Some (fallback_to cert (tc_GetCertificate tlsCfg))\<rparr>)
             | Inl e \<Rightarrow> Inr tlsCfg))"

text \<open>The HTTPS port.\<close>

definition proxy_buildTLSConfig ::
    "('key, 'cert) crypto_api \<Rightarrow> time \<Rightarrow> time \<Rightarrow> (string \<Rightarrow> string) \<Rightarrow> 'cert certmagic_api \<Rightarrow> server_config \<Rightarrow>
     tls_error + 'cert tls_config" where
  "proxy_buildTLSConfig ca now1 now2 ulow cm cfg =
     (if sc_DevMode cfg \<or> sc_Domain cfg = [] then
        (case selfSignedTLSConfig ca now1 now2 of Inl e \<Rightarrow> Inl (SelfSigned e) | Inr tc \<Rightarrow> Inr tc)
      else certmagicTLSConfig ulow cm cfg)"

subsection \<open>A connection\<close>

text \<open>
  One HTTPS connection: whether it is a TLS connection, the deadline could be set and the handshake succeeded,
  the server name of the handshake, and the requests that come over it, each with what the proxy makes of it.
\<close>

record tls_request =
  tq_request :: http_request
  tq_calls :: "writer_call list"
  tq_start :: time
  tq_dur :: duration

record tls_conn =
  tn_is_tls :: bool
  tn_deadline_ok :: bool
  tn_handshake_ok :: bool
  tn_ServerName :: string
  tn_requests :: "tls_request list"

text \<open>The requests with the log threaded through, until adding to it panics.\<close>

fun serve_each ::
    "(string \<Rightarrow> string \<Rightarrow> bool) \<Rightarrow> (string \<Rightarrow> string) \<Rightarrow> server_config \<Rightarrow> tunnel_manager \<Rightarrow> string \<Rightarrow> tls_request list \<Rightarrow>
     request_log option \<Rightarrow> (route \<times> request_log_msg option) list \<times> request_log option" where
  "serve_each ufold ulow cfg tm sni [] rl = ([], rl)"
| "serve_each ufold ulow cfg tm sni (q # qs) None = ([], None)"
| "serve_each ufold ulow cfg tm sni (q # qs) (Some rl) =
     (case serveRequest ufold ulow cfg tm (tq_request q) (request_subdomain ulow (sc_Domain cfg) sni (tq_request q))
         (tq_calls q) (tq_start q) (tq_dur q) rl of
        (r, msg, rl1) \<Rightarrow> (case serve_each ufold ulow cfg tm sni qs rl1 of (rs, rl2) \<Rightarrow> ((r, msg) # rs, rl2)))"

definition handleTLSConn ::
    "(string \<Rightarrow> string \<Rightarrow> bool) \<Rightarrow> (string \<Rightarrow> string) \<Rightarrow> server_config \<Rightarrow> tunnel_manager \<Rightarrow> tls_conn \<Rightarrow> request_log \<Rightarrow>
     (route \<times> request_log_msg option) list \<times> request_log option" where
  "handleTLSConn ufold ulow cfg tm c rl =
     (if \<not> tn_is_tls c \<or> \<not> tn_deadline_ok c \<or> \<not> tn_handshake_ok c then ([], Some rl)
      else serve_each ufold ulow cfg tm (tn_ServerName c) (tn_requests c) (Some rl))"


section \<open>What visitors get\<close>

subsection \<open>Certificates\<close>

text \<open>Which names a certificate is good for: itself, or any one label for the star of a wildcard.\<close>

definition cert_covers :: "string \<Rightarrow> string \<Rightarrow> bool" where
  "cert_covers pat host \<longleftrightarrow>
     pat = host \<or>
     HasPrefix pat ''*.'' \<and> (case SplitN2 host CHR ''.'' of [l, d] \<Rightarrow> l \<noteq> [] \<and> d = drop 2 pat | _ \<Rightarrow> False)"

lemma cert_covers_label: "l \<noteq> [] \<Longrightarrow> CHR ''.'' \<notin> set l \<Longrightarrow> cert_covers (''*.'' @ d) (l @ CHR ''.'' # d)"
  by (simp add: cert_covers_def SplitN2_sep HasPrefix_def)

text \<open>No certificate of the program is good for a name two labels below the domain.\<close>

lemma deep_host_not_covered:
  assumes "CHR ''.'' \<notin> set l" and "k \<noteq> []" and "CHR ''*'' \<notin> set d" and "pat \<in> set (managed_domains cfg)" and "sc_Domain cfg = d"
  shows "\<not> cert_covers pat (l @ CHR ''.'' # k @ CHR ''.'' # d)"
proof -
  have "k @ CHR ''.'' # d \<noteq> d" "d \<noteq> l @ CHR ''.'' # k @ CHR ''.'' # d" "CHR ''.'' # d \<noteq> d"
    by (auto dest: arg_cong [where f = length])
  moreover have "''*.'' @ d \<noteq> l @ CHR ''.'' # k @ CHR ''.'' # d"
    using assms(1,2) by (cases l) (auto dest: arg_cong [where f = length])
  moreover have "\<not> HasPrefix d ''*.''"
    using assms(3) by (cases d) (auto simp: HasPrefix_def)
  ultimately show ?thesis using assms
    by (auto simp: managed_domains_def cert_covers_def SplitN2_sep)
qed

text \<open>
  C21: The HTTPS port always has a certificate to present once the wildcard certificate is on disk: whatever
  certmagic answers for the name a visitor asks for, an error or nothing at all, the handshake gets a
  certificate and no error, certmagic's own when there is one and else the one from disk; only HTTP/1.1 is
  offered, and the domain and its wildcard have been handed to certmagic under the configured account.
\<close>

theorem https_certificate_fallback:
  assumes "certmagicTLSConfig ulow cm cfg = Inr tc"
    and "cm_LoadX509KeyPair cm (fst (wildcard_paths cfg)) (snd (wildcard_paths cfg)) = Inr cert"
  shows "\<exists>mg get. mg_CloudflareToken mg = sc_DNSAPIToken cfg \<and> mg_CloudflareToken mg \<noteq> [] \<and> mg_Storage mg = sc_CertStorage cfg \<and>
    cm_ManageAsync cm mg [sc_Domain cfg, ''*.'' @ sc_Domain cfg] = None \<and> tc_NextProtos tc = [''http/1.1''] \<and>
    tc_GetCertificate tc = Some get \<and>
    (\<forall>name. get name =
       (case tc_GetCertificate (cm_TLSConfig cm mg) of
          Some g \<Rightarrow> if fst (g name) \<noteq> None \<and> snd (g name) = None then g name else (Some cert, None)
        | None \<Rightarrow> (Some cert, None))) \<and> (\<forall>name. \<exists>c. get name = (Some c, None))"
proof -
  let ?mg = "\<lparr>mg_Email = sc_Email cfg, mg_Agreed = True, mg_CloudflareToken = sc_DNSAPIToken cfg, mg_Storage = sc_CertStorage cfg\<rparr>"
  let ?orig = "tc_GetCertificate (cm_TLSConfig cm ?mg)"
  have tc: "tc = (cm_TLSConfig cm ?mg)\<lparr>tc_NextProtos := [''http/1.1''], tc_GetCertificate := Some (fallback_to cert ?orig)\<rparr>"
    and m: "cm_ManageAsync cm ?mg (managed_domains cfg) = None" "sc_DNSAPIToken cfg \<noteq> []"
    using assms by (auto simp: certmagicTLSConfig_def Let_def split: if_splits option.splits prod.splits)
  have "fallback_to cert ?orig name =
       (case ?orig of
          Some g \<Rightarrow> if fst (g name) \<noteq> None \<and> snd (g name) = None then g name else (Some cert, None)
        | None \<Rightarrow> (Some cert, None))" for name
    by (cases ?orig) (auto simp: fallback_to_def split: option.splits prod.splits)
  moreover have "\<exists>c. fallback_to cert ?orig name = (Some c, None)" for name
    by (auto simp: fallback_to_def split: option.splits prod.splits)
  ultimately show ?thesis using m
    by (intro exI [of _ ?mg] exI [of _ "fallback_to cert ?orig"]) (simp add: tc managed_domains_def)
qed

definition empty_tls :: "string tls_config" where
  "empty_tls = \<lparr>tc_Certificates = [], tc_MinVersion = VersionTLS12, tc_NextProtos = [''h2'', ''acme-tls/1''],
     tc_GetCertificate = Some (\<lambda>name. if name = ''example.com'' then (Some ''managed'', None) else (None, Some ''no certificate''))\<rparr>"

definition disk_magic :: "string certmagic_api" where
  "disk_magic = \<lparr>cm_ManageAsync = (\<lambda>mg names. None), cm_TLSConfig = (\<lambda>mg. empty_tls), cm_LoadX509KeyPair = (\<lambda>c k. Inr c)\<rparr>"

definition live_config :: server_config where
  "live_config = zero_config\<lparr>sc_Domain := ''example.com'', sc_DNSProvider := ''Cloudflare'', sc_DNSAPIToken := ''cf'', sc_CertStorage := ''/certs/''\<rparr>"

lemma live_paths: "fst (wildcard_paths live_config) =
    ''/certs/certificates/acme-v02.api.letsencrypt.org-directory/wildcard_.example.com/wildcard_.example.com.crt''"
  by code_simp

lemma live_provider: "ToLower id ''Cloudflare'' = ''cloudflare''"
  by code_simp

theorem https_certificate_fallback_witness:
  "\<exists>tc get cert. certmagicTLSConfig id disk_magic live_config = Inr tc \<and> tc_GetCertificate tc = Some get \<and>
     get ''shop.example.com'' = (Some cert, None) \<and> get ''example.com'' = (Some ''managed'', None)"
proof -
  obtain tc where tc: "certmagicTLSConfig id disk_magic live_config = Inr tc"
    using live_provider by (simp add: certmagicTLSConfig_def live_config_def disk_magic_def Let_def case_prod_beta)
  have l: "cm_LoadX509KeyPair disk_magic (fst (wildcard_paths live_config)) (snd (wildcard_paths live_config)) =
      Inr (fst (wildcard_paths live_config))" by (simp add: disk_magic_def)
  have g: "tc_GetCertificate (cm_TLSConfig disk_magic mg) = tc_GetCertificate empty_tls" for mg by (simp add: disk_magic_def)
  show ?thesis using https_certificate_fallback [OF tc l] tc unfolding g by (fastforce simp: empty_tls_def)
qed


subsection \<open>From the handshake to the tunnel\<close>

lemma serve_each_all:
  assumes "log_inv rl"
  shows "fst (serve_each ufold ulow cfg tm sni qs (Some rl)) =
      map (\<lambda>q. let r = route_request ufold ulow cfg tm (tq_request q) (request_subdomain ulow (sc_Domain cfg) sni (tq_request q)) in
        (r, case r of ToTunnel ts \<Rightarrow> sendRequestLog ts (hr_Method (tq_request q)) (hr_Path (tq_request q))
              (rw_status (run_writer (tq_calls q))) (tq_dur q) (rw_size (run_writer (tq_calls q))) | _ \<Rightarrow> None)) qs \<and>
    (\<exists>rl'. snd (serve_each ufold ulow cfg tm sni qs (Some rl)) = Some rl' \<and> log_inv rl')"
  using assms
proof (induction qs arbitrary: rl)
  case (Cons q qs)
  let ?r = "route_request ufold ulow cfg tm (tq_request q) (request_subdomain ulow (sc_Domain cfg) sni (tq_request q))"
  obtain rl1 where "snd (snd (serveRequest ufold ulow cfg tm (tq_request q) (request_subdomain ulow (sc_Domain cfg) sni (tq_request q))
         (tq_calls q) (tq_start q) (tq_dur q) rl)) = Some rl1" "log_inv rl1"
    using Add_inv [OF Cons.prems] Cons.prems by (cases ?r) (fastforce simp: serveRequest_def Let_def)+
  then show ?case using Cons.IH [of rl1] by (cases ?r) (auto simp: serveRequest_def Let_def split: prod.splits)
qed simp


text \<open>Two requests of one connection, the second with another host in its header.\<close>

definition two_requests :: "string \<Rightarrow> tls_conn" where
  "two_requests host = \<lparr>tn_is_tls = True, tn_deadline_ok = True, tn_handshake_ok = True, tn_ServerName = host,
     tn_requests =
       [\<lparr>tq_request = demo_http\<lparr>hr_Host := host\<rparr>, tq_calls = [WriteHeader 200], tq_start = 1, tq_dur = 2\<rparr>,
        \<lparr>tq_request = demo_http, tq_calls = [WriteBytes 3], tq_start = 4, tq_dur = 5\<rparr>]\<rparr>"


end
