(* ===== verification/Session_Liveness.thy ===== *)
theory Session_Liveness
  imports Session_Properties
begin

text \<open>
  What becomes of a session that has ended. Its goroutine takes the tunnels of the session off the
  registry one by one while everything else goes on. In a run in which no session ends in the middle of a
  request (the control loop has returned, \<open>server.go\<close> line 358) this always succeeds: nothing is added any
  more, nothing is forgotten, and after as many steps as there were tunnels the session holds none. When a
  session is ended by the idle timer instead, while its control loop is at a request, the tunnel of that
  request stays behind.
\<close>

section \<open>The end of a session, with everything else going on\<close>

subsection \<open>Orderly runs\<close>

definition settled :: "('h, 'l) world \<Rightarrow> bool" where
  "settled wd \<longleftrightarrow> (\<forall>y ss. wd_sessions wd y = Some ss \<longrightarrow> ss_ended ss \<longrightarrow> ss_pending ss = None)"

lemma settledD: "settled wd \<Longrightarrow> wd_sessions wd y = Some ss \<Longrightarrow> ss_ended ss \<Longrightarrow> ss_pending ss = None"
  by (simp add: settled_def)

inductive orderly_step ::
    "'h bcrypt_api \<Rightarrow> 'l limiter_api \<Rightarrow> json_api \<Rightarrow> ('h, 'l) world \<Rightarrow> ('h, 'l) world \<Rightarrow> bool" for B L J where
  orderly: "world_step B L J wd wd' \<Longrightarrow> settled wd' \<Longrightarrow> orderly_step B L J wd wd'"

inductive_simps orderly_step_iff: "orderly_step B L J wd wd'"

text \<open>The tunnels of an ended session are all on its list.\<close>

definition held :: "('h, 'l) world \<Rightarrow> nat \<Rightarrow> tunnel_key set" where
  "held wd y = {k. \<exists>e. entry (sv_tunnelManager (wd_server wd)) k = Some e \<and> ts_Session e = Some y}"

definition on_list :: "('h, 'l) world \<Rightarrow> bool" where
  "on_list wd \<longleftrightarrow> (\<forall>y ss. wd_sessions wd y = Some ss \<longrightarrow> ss_ended ss \<longrightarrow> held wd y \<subseteq> item_key ` set (ss_cleaning ss))"

definition session_inv :: "('h, 'l) world \<Rightarrow> bool" where
  "session_inv wd \<longleftrightarrow> world_inv wd \<and> settled wd \<and> on_list wd"

lemma held_shrinks:
  "shrinks (entry (sv_tunnelManager (wd_server wd))) (entry (sv_tunnelManager (wd_server wd'))) \<Longrightarrow> held wd' y \<subseteq> held wd y"
  by (fastforce simp: held_def shrinks_def same_owner_def)

text \<open>A tunnel that is opened belongs to the session that asked for it.\<close>

lemma held_open:
  assumes o: "openTunnel rnd rnds att now y tok req (wd_server wd) = (r, s')" and q: "quiet att"
    and z: "z \<noteq> y" and wd': "wd_server wd' = s'"
  shows "held wd' z \<subseteq> held wd z"
  using o q
proof (cases rule: openTunnel_cases)
  case (fails e)
  then show ?thesis by (simp add: held_def wd')
next
  case (http sub)
  have "entry (sv_tunnelManager s') k = Some e \<Longrightarrow> ts_Session e = Some z \<Longrightarrow> entry (sv_tunnelManager (wd_server wd)) k = Some e" for k e
    using RegisterHTTP_stores [OF http(4)] z by (auto simp: new_session_def split: if_splits)
  then show ?thesis by (auto simp: held_def wd')
next
  case (tcp port)
  let ?e = "(new_session y rnd tok req)\<lparr>ts_Port := port, ts_Listener := Some port, ts_CreatedAt := now\<rparr>"
  have E: "entry (sv_tunnelManager s') = (entry (sv_tunnelManager (wd_server wd)))(TCPPort port \<mapsto> ?e)"
    using register_tcp_stores [OF q tcp(3) [unfolded RegisterTCP_def]] tcp(4)
    by (auto simp: entry_def fun_eq_iff split: tunnel_key.split)
  have "entry (sv_tunnelManager s') k = Some e \<Longrightarrow> ts_Session e = Some z \<Longrightarrow> entry (sv_tunnelManager (wd_server wd)) k = Some e" for k e
    unfolding E using z by (auto simp: new_session_def split: if_splits)
  then show ?thesis by (auto simp: held_def wd')
qed

text \<open>What a step does to one session that has ended: nothing, or one round of its clean-up.\<close>

definition winds_down :: "('h, 'l) world \<Rightarrow> ('h, 'l) world \<Rightarrow> nat \<Rightarrow> session \<Rightarrow> session \<Rightarrow> bool" where
  "winds_down wd wd' y ss ss' \<longleftrightarrow> ss_ended ss' \<and> ss_token ss' = ss_token ss \<and>
     (ss_cleaning ss' = ss_cleaning ss \<and> held wd' y \<subseteq> held wd y \<or>
      (\<exists>t. ss_cleaning ss = t # ss_cleaning ss' \<and> held wd' y \<subseteq> held wd y - {item_key t}))"

lemma winds_down_same:
  "ss_ended ss' \<Longrightarrow> ss_token ss' = ss_token ss \<Longrightarrow> ss_cleaning ss' = ss_cleaning ss \<Longrightarrow> held wd' y \<subseteq> held wd y \<Longrightarrow>
    winds_down wd wd' y ss ss'"
  by (simp add: winds_down_def)

lemma held_cong: "sv_tunnelManager (wd_server wd') = sv_tunnelManager (wd_server wd) \<Longrightarrow> held wd' y = held wd y"
  by (simp add: held_def)

lemma held_cleaned:
  assumes "ts_Type t = ''http'' \<or> ts_Type t = ''tcp''" and "wd_server wd' = cleanup_one tok t (wd_server wd)"
  shows "held wd' y = held wd y - {item_key t}"
  by (auto simp: held_def assms(2) cleanup_one_entry [OF assms(1)])


lemma ended_winds_down:
  assumes "world_step B L J wd wd'" and "settled wd" and "settled wd'" and "world_inv wd"
    and "wd_sessions wd z = Some zs" and "ss_ended zs"
  shows "\<exists>zs'. wd_sessions wd' z = Some zs' \<and> winds_down wd wd' z zs zs'"
  using assms
proof (induction rule: world_step.induct)
  case (connect wd y rnd un_auth un_reg ord w c token s')
  from handleConnection_session [OF connect.hyps(3)] connect show ?case
    by (auto simp: held_def intro!: winds_down_same)
next
  case (turned_away wd rnd un_auth un_reg ord w c r s')
  from handleConnection_other [OF turned_away.hyps(2,1)] turned_away show ?case
    by (auto simp: held_def intro!: winds_down_same)
next
  case (admit wd y ss oh ot now req s')
  then have "z \<noteq> y" using settledD [OF admit.prems(2), of y "ss\<lparr>ss_pending := Some req\<rparr>"] by auto
  then show ?case using admit admitTunnel_ok [OF admit.hyps(5)] by (auto simp: held_def intro!: winds_down_same)
next
  case (refuse wd y ss oh ot now req e s')
  then show ?case using admitTunnel_fails [OF refuse.hyps(5)] by (auto simp: held_def intro!: winds_down_same)
next
  case (open_tunnel wd y ss req att rnd rnds now r s')
  then have "z \<noteq> y" by (auto simp: settled_def)
  then show ?case using open_tunnel by (auto intro!: winds_down_same held_open [OF open_tunnel.hyps(4,3), THEN subsetD])
next
  case (idle wd y ss oh ot now)
  then show ?case by (auto simp: idleTimeout_def intro!: winds_down_same held_shrinks shrinks_reserve_all)
next
  case (end_session wd y ss oh ot)
  then show ?case by (auto simp: held_def intro!: winds_down_same)
next
  case (clean_up wd y ss t R)
  have "sessions_ok (wd_server wd) (wd_sessions wd)" using clean_up.prems(3) by (simp add: world_inv_def)
  then have ty: "ts_Type t = ''http'' \<or> ts_Type t = ''tcp''"
    using sessions_okD [of _ _ y ss] clean_up.hyps by (auto simp: session_ok_def)
  show ?case using clean_up.prems clean_up.hyps held_cleaned [OF ty, of _ "ss_token ss" wd]
    by (cases "z = y") (auto simp: winds_down_def)
next
  case (registry wd tm')
  then show ?case using registry_event_ok [OF registry.hyps] by (auto intro!: winds_down_same held_shrinks)
next
  case (keys_changed wd ks')
  then show ?case by (auto simp: held_def intro!: winds_down_same)
qed

text \<open>A session is ended with all its tunnels on the list.\<close>

lemma just_ended:
  assumes "world_step B L J wd wd'" and "world_inv wd" and "wd_sessions wd' z = Some zs'" and "ss_ended zs'"
    and "\<And>zs. wd_sessions wd z = Some zs \<Longrightarrow> \<not> ss_ended zs"
  shows "held wd' z \<subseteq> item_key ` set (ss_cleaning zs')"
  using assms
proof (induction rule: world_step.induct)
  case (end_session wd y ss oh ot)
  then have "z = y" by (auto split: if_splits)
  moreover have "tm_inv (sv_tunnelManager (wd_server wd))" using end_session.prems by (simp add: world_inv_def)
  ultimately show ?case using end_session SessionTunnels_keys(1) [OF _ end_session.hyps(3,4)]
    by (auto simp: held_def)
next
  case (clean_up wd y ss t R)
  have "sessions_ok (wd_server wd) (wd_sessions wd)" using clean_up.prems(1) by (simp add: world_inv_def)
  then have "ss_ended ss" using sessions_okD [of _ _ y ss] clean_up.hyps by (auto simp: session_ok_def)
  then show ?case using clean_up by (auto split: if_splits)
qed (auto simp: fresh_session_def split: if_splits)


lemma on_list_step:
  assumes "world_step B L J wd wd'" and "settled wd'" and inv: "session_inv wd"
  shows "on_list wd'"
  unfolding on_list_def
proof (intro allI impI)
  fix z zs'
  assume z: "wd_sessions wd' z = Some zs'" "ss_ended zs'"
  have I: "settled wd" "world_inv wd" "on_list wd" using inv by (simp_all add: session_inv_def)
  show "held wd' z \<subseteq> item_key ` set (ss_cleaning zs')"
  proof (cases "\<exists>zs. wd_sessions wd z = Some zs \<and> ss_ended zs")
    case True
    then obtain zs where zs: "wd_sessions wd z = Some zs" "ss_ended zs" by blast
    then have "held wd z \<subseteq> item_key ` set (ss_cleaning zs)" using I(3) by (simp add: on_list_def)
    then show ?thesis using ended_winds_down [OF assms(1) I(1) assms(2) I(2) zs] z(1)
      by (auto simp: winds_down_def dest!: subsetD)
  next
    case False
    then show ?thesis using just_ended [OF assms(1) I(2) z] by blast
  qed
qed

lemma session_inv_step: "orderly_step B L J wd wd' \<Longrightarrow> session_inv wd \<Longrightarrow> session_inv wd'"
  using on_list_step [of B L J wd wd'] world_step_inv [of B L J wd wd'] by (auto simp: orderly_step_iff session_inv_def)

lemma session_inv_start:
  assumes "NewServer B L J utrim f cfg = Inr s"
  shows "session_inv (start_world s)"
  using start_world_inv [OF assms] by (simp add: session_inv_def settled_def on_list_def start_world_def)

lemma orderly_run_inv:
  assumes "NewServer B L J utrim f cfg = Inr s" and "(orderly_step B L J)\<^sup>*\<^sup>* (start_world s) wd"
  shows "session_inv wd"
  using assms(2) by (induction rule: rtranclp_induct) (auto intro: session_inv_start [OF assms(1)] session_inv_step)

subsection \<open>Winding down\<close>

text \<open>Whatever else happens, the list of an ended session only gets shorter.\<close>

definition leftover :: "('h, 'l) world \<Rightarrow> nat \<Rightarrow> tunnel_session list option" where
  "leftover wd y = (case wd_sessions wd y of Some ss \<Rightarrow> if ss_ended ss then Some (ss_cleaning ss) else None | None \<Rightarrow> None)"

lemma leftover_Some: "leftover wd y = Some R \<longleftrightarrow> (\<exists>ss. wd_sessions wd y = Some ss \<and> ss_ended ss \<and> ss_cleaning ss = R)"
  by (auto simp: leftover_def split: option.split)

lemma leftover_step:
  assumes "orderly_step B L J wd wd'" and "session_inv wd" and "leftover wd y = Some R"
  shows "\<exists>R'. leftover wd' y = Some R' \<and> length R' \<le> length R"
proof -
  obtain ss where ss: "wd_sessions wd y = Some ss" "ss_ended ss" "ss_cleaning ss = R"
    using assms(3) by (auto simp: leftover_Some)
  obtain ss' where "wd_sessions wd' y = Some ss'" "winds_down wd wd' y ss ss'"
    using ended_winds_down [of B L J wd wd', OF _ _ _ _ ss(1,2)] assms(1,2) by (auto simp: orderly_step_iff session_inv_def)
  then show ?thesis using ss(3) by (auto simp: leftover_Some winds_down_def)
qed

lemma leftover_run:
  assumes "(orderly_step B L J)\<^sup>*\<^sup>* wd wd'" and "session_inv wd" and "leftover wd y = Some R"
  shows "session_inv wd' \<and> (\<exists>R'. leftover wd' y = Some R' \<and> length R' \<le> length R)"
  using assms
proof (induction rule: rtranclp_induct)
  case (step wd1 wd2)
  then obtain R1 where "session_inv wd1" "leftover wd1 y = Some R1" "length R1 \<le> length R" by blast
  then show ?case using leftover_step [OF step.hyps(2)] session_inv_step [OF step.hyps(2)] by (meson le_trans)
qed simp

text \<open>The next round can always be taken.\<close>

lemma clean_round:
  assumes "session_inv wd" and "leftover wd y = Some (t # R)"
  shows "\<exists>wd'. orderly_step B L J wd wd' \<and> leftover wd' y = Some R"
proof -
  obtain ss where ss: "wd_sessions wd y = Some ss" "ss_ended ss" "ss_cleaning ss = t # R"
    using assms(2) by (auto simp: leftover_Some)
  let ?wd = "wd\<lparr>wd_server := cleanup_one (ss_token ss) t (wd_server wd), wd_sessions := (wd_sessions wd)(y \<mapsto> ss\<lparr>ss_cleaning := R\<rparr>)\<rparr>"
  have "settled ?wd" using assms(1) ss(1,2) by (auto simp: session_inv_def settled_def)
  then have "orderly_step B L J wd ?wd" using ss by (auto simp: orderly_step_iff intro: world_step.clean_up)
  moreover have "leftover ?wd y = Some R" using ss(2) by (simp add: leftover_Some)
  ultimately show ?thesis by blast
qed

lemma clean_rounds:
  "session_inv wd \<Longrightarrow> leftover wd y = Some R \<Longrightarrow>
    \<exists>wd'. (orderly_step B L J ^^ length R) wd wd' \<and> leftover wd' y = Some [] \<and> session_inv wd'"
proof (induction R arbitrary: wd)
  case (Cons t R)
  obtain wd1 where one: "orderly_step B L J wd wd1" "leftover wd1 y = Some R" using clean_round [OF Cons.prems] by blast
  have "session_inv wd1" by (rule session_inv_step [OF one(1) Cons.prems(1)])
  then obtain wd2 where "(orderly_step B L J ^^ length R) wd1 wd2" "leftover wd2 y = Some []" "session_inv wd2"
    using Cons.IH one(2) by blast
  then show ?case using one(1) by (metis length_Cons relpowp_Suc_I2)
qed auto

lemma nothing_left: "session_inv wd \<Longrightarrow> leftover wd y = Some [] \<Longrightarrow> held wd y = {}"
  by (fastforce simp: leftover_Some session_inv_def on_list_def)



subsection \<open>A session that ends in the middle of a request\<close>

lemma anonymous_pending:
  "\<exists>s1 s2. sv_tunnelManager s2 = sv_tunnelManager small_server \<and>
     world_step rev_bcrypt open_limiter demo_json (start_world small_server)
       \<lparr>wd_server = s1, wd_sessions = [1 \<mapsto> fresh_session anon_client]\<rparr> \<and>
     world_step rev_bcrypt open_limiter demo_json \<lparr>wd_server = s1, wd_sessions = [1 \<mapsto> fresh_session anon_client]\<rparr>
       \<lparr>wd_server = s2, wd_sessions = [1 \<mapsto> (fresh_session anon_client)\<lparr>ss_pending := Some anon_request\<rparr>]\<rparr>"
proof -
  let ?step = "world_step rev_bcrypt open_limiter demo_json"
  let ?f = "fresh_session anon_client"
  have an: "sc_AllowAnonymous (sv_cfg small_server) = Some True"
    by (simp add: small_server_def small_config_def defaults_def zero_config_def or_default_def)
  have nk: "ks_keys (sv_keyStore small_server) k = None" for k by (simp add: small_server_def)
  have tm: "httpTunnels (sv_tunnelManager small_server) = Map.empty" "tcpTunnels (sv_tunnelManager small_server) = Map.empty"
    by (simp_all add: small_server_def NewTunnelManager_def)
  have ia: "is_anon anon_client" by (simp add: anon_client_def)
  obtain il where c1: "handleConnection rev_bcrypt open_limiter demo_json (\<lambda>_. Some \<lparr>am_Token = []\<rparr>) (\<lambda>_. None) [] (\<lambda>_. 0)
      WriteOk a_connection small_server = (Session anon_client, small_server\<lparr>sv_ipLimiter := il\<rparr>)"
    using anon_connect [OF an] by blast
  let ?s1 = "small_server\<lparr>sv_ipLimiter := il\<rparr>"
  have one: "?step (start_world small_server) \<lparr>wd_server = ?s1, wd_sessions = [1 \<mapsto> ?f]\<rparr>"
    using world_step.connect [of "start_world small_server" 1 "\<lambda>_. 0" rev_bcrypt open_limiter demo_json] c1 nk
    by (simp add: start_world_def)
  obtain rl where "admitTunnel open_limiter [] [] 9 anon_client anon_request ?s1 = (None, ?s1\<lparr>sv_rateLimiter := rl\<rparr>)"
    using anon_admit [OF ia, of ?s1] tm by auto
  then have "?step \<lparr>wd_server = ?s1, wd_sessions = [1 \<mapsto> ?f]\<rparr>
      \<lparr>wd_server = ?s1\<lparr>sv_rateLimiter := rl\<rparr>, wd_sessions = [1 \<mapsto> ?f\<lparr>ss_pending := Some anon_request\<rparr>]\<rparr>"
    using world_step.admit [of "\<lparr>wd_server = ?s1, wd_sessions = [1 \<mapsto> ?f]\<rparr>" 1 ?f "[]" "[]" open_limiter 9 anon_request] tm
    by (simp add: fresh_session_def covers_def)
  then show ?thesis using one
    by (intro exI [of _ ?s1] exI [of _ "?s1\<lparr>sv_rateLimiter := rl\<rparr>"]) simp
qed

text \<open>
  When the idle timer ends a session while its control loop is between the checks of a request and the
  registration, the tunnel is registered for a session that is gone and that nobody cleans up any more.
\<close>

theorem tunnel_of_ended_session:
  "\<exists>wd ss e. (world_step rev_bcrypt open_limiter demo_json)\<^sup>*\<^sup>* (start_world small_server) wd \<and>
     wd_sessions wd 1 = Some ss \<and> ss_ended ss \<and> ss_pending ss = None \<and> ss_cleaning ss = [] \<and>
     LookupHTTP (sv_tunnelManager (wd_server wd)) first_name = Some e \<and> ts_Session e = Some 1"
proof -
  let ?step = "world_step rev_bcrypt open_limiter demo_json"
  let ?f = "fresh_session anon_client"
  let ?p = "?f\<lparr>ss_pending := Some anon_request\<rparr>"
  obtain s1 s2 where tm: "sv_tunnelManager s2 = sv_tunnelManager small_server"
    and one: "?step (start_world small_server) \<lparr>wd_server = s1, wd_sessions = [1 \<mapsto> ?f]\<rparr>"
    and two: "?step \<lparr>wd_server = s1, wd_sessions = [1 \<mapsto> ?f]\<rparr> \<lparr>wd_server = s2, wd_sessions = [1 \<mapsto> ?p]\<rparr>"
    using anonymous_pending by blast
  have E: "httpTunnels (sv_tunnelManager s2) = Map.empty" "tcpTunnels (sv_tunnelManager s2) = Map.empty"
    by (simp_all add: tm small_server_def NewTunnelManager_def)
  let ?e = "?p\<lparr>ss_ended := True, ss_cleaning := []\<rparr>"
  have three: "?step \<lparr>wd_server = s2, wd_sessions = [1 \<mapsto> ?p]\<rparr> \<lparr>wd_server = s2, wd_sessions = [1 \<mapsto> ?e]\<rparr>"
    using world_step.end_session [of "\<lparr>wd_server = s2, wd_sessions = [1 \<mapsto> ?p]\<rparr>" 1 ?p "[]" "[]" rev_bcrypt open_limiter demo_json] E
    by (simp add: fresh_session_def covers_def SessionTunnels_def)
  obtain r s3 where o: "openTunnel (\<lambda>_. 0) (\<lambda>_ _. 0) calm 9 1 anon_client anon_request s2 = (r, s3)"
    and s3: "httpTunnels (sv_tunnelManager s3) first_name =
      Some ((new_session 1 (\<lambda>_. 0) anon_client anon_request)\<lparr>ts_Subdomain := first_name, ts_CreatedAt := 9\<rparr>)"
    using anon_open [of s2 0 1 anon_client] E by (auto simp: first_name_def)
  let ?d = "?f\<lparr>ss_ended := True, ss_cleaning := []\<rparr>"
  have "?step \<lparr>wd_server = s2, wd_sessions = [1 \<mapsto> ?e]\<rparr> \<lparr>wd_server = s3, wd_sessions = [1 \<mapsto> ?d]\<rparr>"
    using world_step.open_tunnel [of "\<lparr>wd_server = s2, wd_sessions = [1 \<mapsto> ?e]\<rparr>" 1 ?e anon_request calm "\<lambda>_. 0" "\<lambda>_ _. 0" 9 r s3] o quiet_calm
    by (simp add: fresh_session_def)
  then have "?step\<^sup>*\<^sup>* (start_world small_server) \<lparr>wd_server = s3, wd_sessions = [1 \<mapsto> ?d]\<rparr>"
    using one two three by (meson converse_rtranclp_into_rtranclp rtranclp.rtrancl_refl)
  then show ?thesis using s3
    by (intro exI [of _ "\<lparr>wd_server = s3, wd_sessions = [1 \<mapsto> ?d]\<rparr>"])
       (simp add: fresh_session_def LookupHTTP_def new_session_def)
qed


lemma settled_one: "ss_ended ss \<longrightarrow> ss_pending ss = None \<Longrightarrow> settled \<lparr>wd_server = s, wd_sessions = [y \<mapsto> ss]\<rparr>"
  by (simp add: settled_def)


end
