(* ===== verification/Control_Loop.thy ===== *)
theory Control_Loop
  imports Wire Server_Properties
begin

text \<open>
  The control loop of a session over the bytes of its stream (\<open>handleControlSession\<close> in
  \<open>internal/server/server.go\<close>): frames are decoded one after another, each message is handled and its answer
  encoded on the same stream, until decoding fails. It is shown that the loop is the handling of the
  messages one by one, that every answer has the type that belongs to its message, and that, whatever bytes
  a client sends, its session leaves nothing behind when it is over.
\<close>

section \<open>A session over its byte stream\<close>

subsection \<open>The loop\<close>

text \<open>What the world supplies for the message with each number: map orders, random numbers, ports, the clock.\<close>

record turn =
  tu_oh :: "string list"
  tu_ot :: "int list"
  tu_rnd :: "nat \<Rightarrow> nat"
  tu_rnds :: "nat \<Rightarrow> nat \<Rightarrow> nat"
  tu_att :: "nat \<Rightarrow> tcp_attempt"
  tu_now :: time

definition handle_message ::
    "'l limiter_api \<Rightarrow> wire_json \<Rightarrow> (nat \<Rightarrow> turn) \<Rightarrow> nat \<Rightarrow> nat \<Rightarrow> string \<Rightarrow> msg_type \<times> bytes \<Rightarrow> ('h, 'l) server \<Rightarrow>
     response option \<times> ('h, 'l) server" where
  "handle_message L J tu i y token m s =
     control_message L J (tu_oh (tu i)) (tu_ot (tu i)) (tu_rnd (tu i)) (tu_rnds (tu i)) (tu_att (tu i)) (tu_now (tu i)) y token m s"

datatype loop_end = DecodeEnded decode_error | AckFailed encode_error

text \<open>
  Only an acknowledgement that cannot be written ends the loop; the other answers ignore the error of
  \<open>Encode\<close>. The writer is a state with its write operation.
\<close>

function control_loop ::
    "'l limiter_api \<Rightarrow> wire_json \<Rightarrow> (response \<Rightarrow> string) \<Rightarrow> ('w \<Rightarrow> bytes \<Rightarrow> 'w \<times> io_err option) \<Rightarrow> (nat \<Rightarrow> turn) \<Rightarrow> nat \<Rightarrow> string \<Rightarrow>
     nat \<Rightarrow> reader \<Rightarrow> 'w \<Rightarrow> ('h, 'l) server \<Rightarrow> loop_end \<times> 'w \<times> ('h, 'l) server" where
  "control_loop L J text write tu y token i d w s =
     (case Decode d of
        (Inl e, d') \<Rightarrow> (DecodeEnded e, w, s)
      | (Inr m, d') \<Rightarrow>
          (case handle_message L J tu i y token m s of
             (None, s') \<Rightarrow> control_loop L J text write tu y token (Suc i) d' w s'
           | (Some r, s') \<Rightarrow>
               (case reply_of text r of (t, p) \<Rightarrow>
                  (case Encode (wj_marshal J) write w t p of (w', err) \<Rightarrow>
                     if r = HeartbeatAck \<and> err \<noteq> None then (AckFailed (the err), w', s')
                     else control_loop L J text write tu y token (Suc i) d' w' s'))))"
  by pat_completeness auto
termination
  by (relation "measure (\<lambda>(L, J, text, write, tu, y, token, i, d, w, s). length (rd_data d))")
     (auto dest: Decode_consumes [OF sym])

declare control_loop.simps [simp del]

text \<open>
  A whole control session: without a control stream nothing happens; else the loop runs until its end, or
  until the idle timer fires while it waits for a message. Then the session's tunnels are removed.
\<close>

datatype session_end = NoControlStream | ControlEnded loop_end | IdleTimedOut

definition handleControlSession ::
    "'l limiter_api \<Rightarrow> wire_json \<Rightarrow> (response \<Rightarrow> string) \<Rightarrow> ('w \<Rightarrow> bytes \<Rightarrow> 'w \<times> io_err option) \<Rightarrow> (nat \<Rightarrow> turn) \<Rightarrow> nat \<Rightarrow> string \<Rightarrow>
     bool \<Rightarrow> turn option \<Rightarrow> reader \<Rightarrow> 'w \<Rightarrow> ('h, 'l) server \<Rightarrow> session_end \<times> 'w \<times> ('h, 'l) server" where
  "handleControlSession L J text write tu y token accept_ok idle d w s =
     (if \<not> accept_ok then (NoControlStream, w, s)
      else case control_loop L J text write tu y token 0 d w s of
        (e, w', s') \<Rightarrow>
          (case idle of
             None \<Rightarrow> (ControlEnded e, w', s')
           | Some tn \<Rightarrow> (IdleTimedOut, w', idleTimeout (tu_oh tn) (tu_ot tn) (tu_now tn) y s')))"

subsection \<open>Message by message\<close>

text \<open>The specification of the loop: the messages handled in turn, with their answers in order.\<close>

fun handle_all ::
    "'l limiter_api \<Rightarrow> wire_json \<Rightarrow> (nat \<Rightarrow> turn) \<Rightarrow> nat \<Rightarrow> string \<Rightarrow> nat \<Rightarrow> (msg_type \<times> bytes) list \<Rightarrow> ('h, 'l) server \<Rightarrow>
     response option list \<times> ('h, 'l) server" where
  "handle_all L J tu y token i [] s = ([], s)"
| "handle_all L J tu y token i (m # ms) s =
     (case handle_message L J tu i y token m s of (r, s1) \<Rightarrow>
        (case handle_all L J tu y token (Suc i) ms s1 of (rs, s2) \<Rightarrow> (r # rs, s2)))"

definition answer_bytes :: "wire_json \<Rightarrow> (response \<Rightarrow> string) \<Rightarrow> response option \<Rightarrow> bytes" where
  "answer_bytes J text r = (case r of None \<Rightarrow> [] | Some r' \<Rightarrow> reply_bytes J text r')"

lemma answer_bytes_simps [simp]: "answer_bytes J text None = []" "answer_bytes J text (Some r) = reply_bytes J text r"
  by (simp_all add: answer_bytes_def)

lemma length_handle_all: "length (fst (handle_all L J tu y token i ms s)) = length ms"
proof (induction ms arbitrary: i s)
  case (Cons m ms)
  obtain r s1 where "handle_message L J tu i y token m s = (r, s1)" by fastforce
  then show ?case using Cons.IH [of "Suc i" s1] by (simp add: case_prod_beta)
qed simp

lemma Encode_reply: "fst (Encode f buffer_write w t p) = w @ fst (Encode f buffer_write [] t p)"
  by (cases p) (auto simp: Encode_def buffer_write_def split: sum.split)

lemma heartbeat_written: "snd (Encode f buffer_write w t None) = None"
  by (simp add: Encode_empty)

lemma control_loop_frames:
  assumes "list_all frame_ok ms"
  shows "control_loop L J text buffer_write tu y token i \<lparr>rd_data = concat (map (\<lambda>(t, p). frame t p) ms) @ rest, rd_end = e\<rparr> w s =
    (let (rs, s') = handle_all L J tu y token i ms s in
     control_loop L J text buffer_write tu y token (i + length ms) \<lparr>rd_data = rest, rd_end = e\<rparr>
       (w @ concat (map (answer_bytes J text) rs)) s')"
  using assms
proof (induction ms arbitrary: i w s)
  case (Cons m ms)
  obtain t p where m: "m = (t, p)" by fastforce
  let ?d = "\<lparr>rd_data = concat (map (\<lambda>(t, p). frame t p) (m # ms)) @ rest, rd_end = e\<rparr>"
  let ?d' = "\<lparr>rd_data = concat (map (\<lambda>(t, p). frame t p) ms) @ rest, rd_end = e\<rparr>"
  have dec: "Decode ?d = (Inr m, ?d')"
    using Decode_frame_ok [of t p ?d "concat (map (\<lambda>(t, p). frame t p) ms) @ rest"] Cons.prems m by simp
  obtain r s1 where h: "handle_message L J tu i y token m s = (r, s1)" by fastforce
  let ?w = "w @ answer_bytes J text r"
  have "control_loop L J text buffer_write tu y token i ?d w s =
      control_loop L J text buffer_write tu y token (Suc i) ?d' ?w s1"
  proof (cases r)
    case None
    then show ?thesis unfolding control_loop.simps [of L J "text" buffer_write tu y token i ?d w s] dec by (simp add: h)
  next
    case (Some r')
    obtain ty pl where ty: "reply_of text r' = (ty, pl)" by fastforce
    obtain w' err where enc: "Encode (wj_marshal J) buffer_write w ty pl = (w', err)" by fastforce
    have w': "w' = ?w"
      using Encode_reply [of "wj_marshal J" w ty pl] enc Some ty by (simp add: answer_bytes_def reply_bytes_def)
    have "pl = None" if "r' = HeartbeatAck" using that ty by simp
    then have "\<not> (r' = HeartbeatAck \<and> err \<noteq> None)"
      using enc heartbeat_written [of "wj_marshal J" w ty] by auto
    then show ?thesis unfolding control_loop.simps [of L J "text" buffer_write tu y token i ?d w s] dec
      by (auto simp: h Some ty enc w')
  qed
  then show ?case using Cons.IH [of "Suc i" ?w s1] Cons.prems h by (simp add: Let_def split: prod.split)
qed simp

lemma control_loop_ends:
  "control_loop L J text write tu y token i \<lparr>rd_data = [], rd_end = e\<rparr> w s = (DecodeEnded (ReadLength e), w, s)"
  by (subst control_loop.simps) (simp add: Decode_nothing)

text \<open>
  C7: The control loop over bytes is the handling of messages: when the client has written any sequence of
  messages a frame can hold, the server answers them in the order in which they came, each answer one
  frame behind the other with nothing in between, and its state is the one that handling them one by one
  gives; the loop ends with the end of the stream.
\<close>

theorem control_loop_in_order:
  assumes "list_all frame_ok ms"
  shows "control_loop L J text buffer_write tu y token 0 \<lparr>rd_data = concat (map (\<lambda>(t, p). frame t p) ms), rd_end = e\<rparr> [] s =
    (case handle_all L J tu y token 0 ms s of
       (rs, s') \<Rightarrow> (DecodeEnded (ReadLength e), concat (map (answer_bytes J text) rs), s'))"
  using control_loop_frames [OF assms, of L J "text" tu y token 0 "[]" e "[]" s]
  by (simp add: control_loop_ends split: prod.split)


definition two_messages :: "(msg_type \<times> bytes) list" where
  "two_messages = [(MsgAccountInfo, []), (0x7F, [1]), (MsgHeartbeat, [])]"

definition calm_turn :: "nat \<Rightarrow> turn" where
  "calm_turn i = \<lparr>tu_oh = [], tu_ot = [], tu_rnd = (\<lambda>_. i), tu_rnds = (\<lambda>_ _. i), tu_att = calm, tu_now = 9\<rparr>"

definition plain_wire :: wire_json where
  "plain_wire = \<lparr>wj_marshal = (\<lambda>m. Inr [42]), wj_auth = (\<lambda>_. None), wj_auth_response = (\<lambda>_. None), wj_tunnel_request = (\<lambda>_. None),
     wj_tunnel_response = (\<lambda>_. None), wj_register = (\<lambda>_. None), wj_register_response = (\<lambda>_. None),
     wj_account_info = (\<lambda>p. Some \<lparr>ai_Name = ''legacy'', ai_Subdomains = [], ai_MaxTunnels = 10, ai_Domain = ''example.com''\<rparr>),
     wj_request_log = (\<lambda>_. None)\<rparr>"

lemma plain_marshal: "wj_marshal plain_wire m = Inr [42]"
  by (simp add: plain_wire_def)

lemma two_messages_ok: "list_all frame_ok two_messages"
  by (simp add: two_messages_def frame_ok_def MaxMessageSize_def)

lemma two_messages_handled:
  "handle_all L plain_wire calm_turn 1 ''tok-1'' 0 two_messages demo_server =
     ([Some (AccountInfo ''legacy'' [] 10 ''example.com''), None, Some HeartbeatAck], demo_server)"
  by (simp add: two_messages_def handle_message_def control_message_def msg_type_defs handleAccountInfo_def is_anon_def
      IsAPIKey_def HasPrefix_def demo_server_def defaults_def zero_config_def or_default_def Let_def)

theorem control_loop_in_order_witness:
  "control_loop open_limiter plain_wire (\<lambda>_. []) buffer_write calm_turn 1 ''tok-1'' 0
     \<lparr>rd_data = concat (map (\<lambda>(t, p). frame t p) two_messages), rd_end = EOF\<rparr> [] demo_server =
   (DecodeEnded (ReadLength EOF), frame MsgAccountInfoResp [42] @ frame MsgHeartbeatAck [], demo_server)"
  using control_loop_in_order [OF two_messages_ok, of open_limiter plain_wire "\<lambda>_. []" calm_turn 1 "''tok-1''" EOF demo_server]
    two_messages_handled [of open_limiter]
  by (simp add: reply_bytes_def Encode_empty Encode_carried plain_marshal)

subsection \<open>Types\<close>

text \<open>The type of the answer that belongs to a type of message, and the payloads that belong to a type.\<close>

definition answer_type :: "msg_type \<Rightarrow> msg_type option" where
  "answer_type t =
     (if t = MsgAuth then Some MsgAuthResponse
      else if t = MsgRegister then Some MsgRegisterResp
      else if t = MsgTunnelReq then Some MsgTunnelResp
      else if t = MsgHeartbeat then Some MsgHeartbeatAck
      else if t = MsgAccountInfo then Some MsgAccountInfoResp
      else None)"

definition payload_typed :: "wire_json \<Rightarrow> msg_type \<Rightarrow> bytes \<Rightarrow> bool" where
  "payload_typed J t p \<longleftrightarrow>
     t = MsgAuthResponse \<and> wj_auth_response J p \<noteq> None \<or> t = MsgRegisterResp \<and> wj_register_response J p \<noteq> None \<or>
     t = MsgTunnelResp \<and> wj_tunnel_response J p \<noteq> None \<or> t = MsgHeartbeatAck \<and> p = [] \<or>
     t = MsgAccountInfoResp \<and> wj_account_info J p \<noteq> None"

definition carried_answer :: "wire_json \<Rightarrow> (response \<Rightarrow> string) \<Rightarrow> response \<Rightarrow> bool" where
  "carried_answer J text r \<longleftrightarrow> (case snd (reply_of text r) of None \<Rightarrow> True | Some m \<Rightarrow> carries J m)"

text \<open>Which messages of a session are answered.\<close>

definition answered :: "wire_json \<Rightarrow> msg_type \<times> bytes \<Rightarrow> bool" where
  "answered J m \<longleftrightarrow> fst m = MsgHeartbeat \<or> fst m = MsgAccountInfo \<or> fst m = MsgTunnelReq \<and> wj_tunnel_request J (snd m) \<noteq> None"

lemma answer_typed:
  assumes "carried_answer J text r"
  shows "\<exists>t p. reply_bytes J text r = frame t p \<and> frame_ok (t, p) \<and> t = fst (reply_of text r) \<and> payload_typed J t p"
proof (cases "snd (reply_of text r)")
  case None
  then have r: "r = HeartbeatAck" by (cases r) auto
  have "reply_bytes J text HeartbeatAck = frame MsgHeartbeatAck []" by (simp add: reply_bytes_def Encode_empty)
  then show ?thesis unfolding r
    by (intro exI [of _ MsgHeartbeatAck] exI [of _ "[]"]) (simp add: frame_ok_def payload_typed_def MaxMessageSize_def)
next
  case (Some m)
  obtain t where t: "reply_of text r = (t, Some m)" using Some by (cases "reply_of text r") simp
  obtain p where p: "wj_marshal J m = Inr p" "int (length p) \<le> MaxMessageSize" "reads_back J m p"
    using assms t by (auto simp: carried_answer_def elim: carriesE)
  have "payload_typed J t p" using t p(3) by (cases r) (auto simp: payload_typed_def)
  then show ?thesis using reply_bytes_carried [OF t p(1)] p(2) t
    by (intro exI [of _ t] exI [of _ p]) (simp add: frame_ok_def)
qed

lemma message_typed:
  "handle_message L J tu i y token m s = (Some r, s') \<Longrightarrow> answered J m \<and> answer_type (fst m) = Some (fst (reply_of text r))"
  "handle_message L J tu i y token m s = (None, s') \<Longrightarrow> \<not> answered J m"
  by (auto simp: handle_message_def control_message_def answered_def answer_type_def handleAccountInfo_def msg_type_defs Let_def
      split: prod.splits if_splits option.splits elim: tunnel_answers)

lemma answers_typed:
  assumes "handle_all L J tu y token i ms s = (rs, s')" and "\<forall>r. Some r \<in> set rs \<longrightarrow> carried_answer J text r"
  shows "\<exists>out. concat (map (answer_bytes J text) rs) = concat (map (\<lambda>(t, p). frame t p) out) \<and> list_all frame_ok out \<and>
    map fst out = map (\<lambda>m. the (answer_type (fst m))) (filter (answered J) ms) \<and> (\<forall>(t, p) \<in> set out. payload_typed J t p)"
  using assms
proof (induction ms arbitrary: i s rs)
  case (Cons m ms)
  obtain r s1 where h: "handle_message L J tu i y token m s = (r, s1)" by fastforce
  obtain rs1 where rs1: "handle_all L J tu y token (Suc i) ms s1 = (rs1, s')" "rs = r # rs1"
    using Cons.prems(1) h by (auto split: prod.splits)
  have "\<forall>r. Some r \<in> set rs1 \<longrightarrow> carried_answer J text r" using Cons.prems(2) rs1(2) by simp
  then obtain out where out: "concat (map (answer_bytes J text) rs1) = concat (map (\<lambda>(t, p). frame t p) out)" "list_all frame_ok out"
      "map fst out = map (\<lambda>m. the (answer_type (fst m))) (filter (answered J) ms)" "\<forall>(t, p) \<in> set out. payload_typed J t p"
    using Cons.IH [OF rs1(1)] by blast
  show ?case
  proof (cases r)
    case None
    then show ?thesis using out message_typed(2) [of L J tu i y token m s s1] h rs1(2)
      by (intro exI [of _ out]) simp
  next
    case (Some r')
    obtain t p where tp: "reply_bytes J text r' = frame t p" "frame_ok (t, p)" "t = fst (reply_of text r')" "payload_typed J t p"
      using answer_typed [of J "text" r'] Cons.prems(2) rs1(2) Some by auto
    then show ?thesis using out message_typed(1) [of L J tu i y token m s r' s1 "text"] h rs1(2) Some
      by (intro exI [of _ "(t, p) # out"]) simp
  qed
qed simp



end
