(* ===== verification/Session_Run.thy ===== *)
theory Session_Run
  imports Control_Loop
begin

text \<open>
  The whole life of one session on a server that is otherwise left alone: its control loop over whatever
  bytes the client sends, on a stream that may fail, the idle timer, and the clean-up. When it is over the
  registry and the counts are as before.
\<close>

section \<open>A session from its first byte to its clean-up\<close>

subsection \<open>What one request does\<close>

definition counts_nonneg :: "('h, 'l) server \<Rightarrow> bool" where
  "counts_nonneg s \<longleftrightarrow> (\<forall>t u. used_by s t = Some u \<longrightarrow> 0 \<le> u)"

text \<open>The three outcomes of a request, as changes of the registry and of the counts.\<close>

lemma handleTunnelRequest_cases:
  assumes h: "handleTunnelRequest L oh ot rnd rnds att now y token req s = (r, s')" and q: "quiet att"
    and tm: "tm_inv (sv_tunnelManager s)" and nn: "counts_nonneg s"
  obtains (refused) "sv_tunnelManager s' = sv_tunnelManager s" "used_by s' = used_by s"
  | (http) sub t where "httpTunnels (sv_tunnelManager s') = (httpTunnels (sv_tunnelManager s))(sub \<mapsto> t)"
      "tcpTunnels (sv_tunnelManager s') = tcpTunnels (sv_tunnelManager s)" "ts_Session t = Some y" "\<not> ts_Reserved t"
      "\<forall>e. httpTunnels (sv_tunnelManager s) sub = Some e \<longrightarrow> ts_Reserved e \<and> ts_Token e = token"
      "used_by s' = (used_by s)(token := map_option (\<lambda>u. u + 1) (used_by s token))" "tm_inv (sv_tunnelManager s')"
  | (tcp) port t where "tcpTunnels (sv_tunnelManager s') = (tcpTunnels (sv_tunnelManager s))(port \<mapsto> t)"
      "httpTunnels (sv_tunnelManager s') = httpTunnels (sv_tunnelManager s)" "ts_Session t = Some y"
      "tcpTunnels (sv_tunnelManager s) port = None"
      "used_by s' = (used_by s)(token := map_option (\<lambda>u. u + 1) (used_by s token))" "tm_inv (sv_tunnelManager s')"
proof (cases "\<exists>e. r = TunnelError e")
  case True
  then show thesis using refused_no_leak [of L oh ot rnd rnds att now y token req s] h q nn refused
    unfolding counts_nonneg_def by blast
next
  case False
  then obtain s1 where a: "admitTunnel L oh ot now token req s = (None, s1)"
    and o: "openTunnel rnd rnds att now y token req s1 = (r, s')"
    using h by (auto simp: handleTunnelRequest_def split: prod.splits option.splits)
  have ok: "sv_tunnelManager s1 = sv_tunnelManager s" using admitTunnel_ok [OF a] by blast
  have "used_by s token = None" if "is_anon token" using that by (simp add: used_by_def)
  then have u: "used_by s1 = (used_by s)(token := map_option (\<lambda>u. u + 1) (used_by s token))"
    using admitTunnel_ok [OF a] by (cases "is_anon token") (auto simp: fun_upd_idem)
  from o q show thesis
  proof (cases rule: openTunnel_cases)
    case (fails e)
    then show thesis using False by blast
  next
    case (http sub)
    let ?t = "(new_session y rnd token req)\<lparr>ts_Subdomain := sub\<rparr>"
    have "tm_inv (sv_tunnelManager s')"
      using tm_inv_RegisterHTTP [of "sv_tunnelManager s1" ?t sub now] tm ok http(1,4) by (simp add: new_session_def TunnelHTTP_def)
    moreover have "\<forall>e. httpTunnels (sv_tunnelManager s) sub = Some e \<longrightarrow> ts_Reserved e \<and> ts_Token e = token"
      using http(4) ok by (auto simp: RegisterHTTP_def new_session_def Let_def split: option.splits if_splits)
    moreover have "used_by s' = used_by s1" by (subst http(5)) simp
    ultimately show thesis using RegisterHTTP_stores [OF http(4)] ok u
      by (intro that(2) [of sub "?t\<lparr>ts_CreatedAt := now\<rparr>"]) (simp_all add: new_session_def)
  next
    case (tcp port)
    let ?t = "new_session y rnd token req"
    have "tm_inv (sv_tunnelManager s')"
      using tm_inv_RegisterTCP [OF quiet_env_ok [OF q], of "sv_tunnelManager s1" ?t now] tm ok tcp(1,3)
      by (simp add: new_session_def TunnelTCP_def)
    moreover have "used_by s' = used_by s1" by (subst tcp(4)) simp
    ultimately show thesis using register_tcp_stores [OF q tcp(3) [unfolded RegisterTCP_def]] ok u
      by (intro that(3) [of port "?t\<lparr>ts_Port := port, ts_Listener := Some port, ts_CreatedAt := now\<rparr>"])
         (simp_all add: new_session_def)
  qed
qed

subsection \<open>The invariant of a session\<close>

lemma count_entries_new:
  assumes "finite (dom m)" and "\<forall>e. m k = Some e \<longrightarrow> \<not> P e" and "P v"
  shows "count_entries P (m(k \<mapsto> v)) = Suc (count_entries P m)"
proof -
  have "k \<notin> entries_with P m" using assms(2) by (auto simp: entries_with_def)
  then show ?thesis using assms(1,3) by (simp add: count_entries_def entries_with_upd)
qed

definition mine :: "nat \<Rightarrow> tunnel_session \<Rightarrow> bool" where
  "mine y t \<longleftrightarrow> ts_Session t = Some y"

lemma mine_eq: "mine y = (\<lambda>t. ts_Session t = Some y)"
  by (rule ext) (simp add: mine_def)

definition tunnels_of :: "nat \<Rightarrow> ('h, 'l) server \<Rightarrow> nat" where
  "tunnels_of y s = count_entries (mine y) (httpTunnels (sv_tunnelManager s)) + count_entries (mine y) (tcpTunnels (sv_tunnelManager s))"

text \<open>
  Compared with the server \<open>s0\<close> before the session: what is not the session's is as it was, except that a
  name reserved for its token may have become its own, and its count is higher by its tunnels.
\<close>

definition others_kept :: "nat \<Rightarrow> string \<Rightarrow> ('h, 'l) server \<Rightarrow> ('h, 'l) server \<Rightarrow> bool" where
  "others_kept y token s0 s \<longleftrightarrow>
     keep_entries (\<lambda>t. \<not> mine y t) (tcpTunnels (sv_tunnelManager s)) = tcpTunnels (sv_tunnelManager s0) \<and>
     (\<forall>n. keep_entries (\<lambda>t. \<not> mine y t) (httpTunnels (sv_tunnelManager s)) n = httpTunnels (sv_tunnelManager s0) n \<or>
        keep_entries (\<lambda>t. \<not> mine y t) (httpTunnels (sv_tunnelManager s)) n = None \<and>
        (\<exists>t. httpTunnels (sv_tunnelManager s0) n = Some t \<and> ts_Reserved t \<and> ts_Token t = token))"

definition count_exact :: "nat \<Rightarrow> string \<Rightarrow> ('h, 'l) server \<Rightarrow> ('h, 'l) server \<Rightarrow> bool" where
  "count_exact y token s0 s \<longleftrightarrow>
     used_by s = (used_by s0)(token := map_option (\<lambda>u. u + int (tunnels_of y s)) (used_by s0 token))"

definition session_runs :: "nat \<Rightarrow> string \<Rightarrow> ('h, 'l) server \<Rightarrow> ('h, 'l) server \<Rightarrow> bool" where
  "session_runs y token s0 s \<longleftrightarrow>
     tm_inv (sv_tunnelManager s) \<and> others_kept y token s0 s \<and> count_exact y token s0 s \<and>
     (\<forall>n t. httpTunnels (sv_tunnelManager s) n = Some t \<longrightarrow> mine y t \<longrightarrow> \<not> ts_Reserved t)"

lemma keep_entries_upd: "keep_entries P (m(k \<mapsto> v)) = (keep_entries P m)(k := (if P v then Some v else None))"
  by (rule ext) (simp add: keep_entries_def)

lemma others_kept_cong: "sv_tunnelManager s' = sv_tunnelManager s \<Longrightarrow> others_kept y token s0 s' = others_kept y token s0 s"
  by (simp add: others_kept_def)

lemma count_exact_cong:
  "sv_tunnelManager s' = sv_tunnelManager s \<Longrightarrow> used_by s' = used_by s \<Longrightarrow> count_exact y token s0 s' = count_exact y token s0 s"
  by (simp add: count_exact_def tunnels_of_def)

lemma count_exact_nonneg:
  "count_exact y token s0 s \<Longrightarrow> counts_nonneg s0 \<Longrightarrow> counts_nonneg s"
  by (auto simp: count_exact_def counts_nonneg_def split: if_splits)

lemma count_exact_step:
  assumes "count_exact y token s0 s" and "tunnels_of y s' = Suc (tunnels_of y s)"
    and "used_by s' = (used_by s)(token := map_option (\<lambda>u. u + 1) (used_by s token))"
  shows "count_exact y token s0 s'"
  using assms by (cases "used_by s0 token") (auto simp: count_exact_def fun_eq_iff)

lemma session_runs_request:
  assumes h: "handleTunnelRequest L oh ot rnd rnds att now y token req s = (r, s')" and q: "quiet att"
    and inv: "session_runs y token s0 s" and nn: "counts_nonneg s0"
  shows "session_runs y token s0 s'"
proof -
  have I: "tm_inv (sv_tunnelManager s)" "others_kept y token s0 s" "count_exact y token s0 s"
      "\<And>n t. httpTunnels (sv_tunnelManager s) n = Some t \<Longrightarrow> mine y t \<Longrightarrow> \<not> ts_Reserved t"
    using inv by (auto simp: session_runs_def)
  have fin: "finite (dom (httpTunnels (sv_tunnelManager s)))" "finite (dom (tcpTunnels (sv_tunnelManager s)))"
    using tm_inv_finite [OF I(1)] by auto
  have pos: "counts_nonneg s" by (rule count_exact_nonneg [OF I(3) nn])
  from h q I(1) pos show ?thesis
  proof (cases rule: handleTunnelRequest_cases)
    case refused
    then show ?thesis using inv by (simp add: session_runs_def others_kept_def count_exact_cong [OF refused])
  next
    case (http sub t)
    have m: "mine y t" using http(3) by (simp add: mine_def)
    have old: "\<not> mine y e" if "httpTunnels (sv_tunnelManager s) sub = Some e" for e using I(4) [OF that] http(5) that by blast
    have "tunnels_of y s' = Suc (tunnels_of y s)"
      using count_entries_new [OF fin(1), of sub "mine y" t] old m by (simp add: tunnels_of_def http(1,2))
    then have "count_exact y token s0 s'" by (rule count_exact_step [OF I(3) _ http(6)])
    moreover have "others_kept y token s0 s'"
    proof -
      let ?K = "keep_entries (\<lambda>t. \<not> mine y t) (httpTunnels (sv_tunnelManager s))"
      let ?ok = "\<lambda>v n. v = httpTunnels (sv_tunnelManager s0) n \<or>
        v = None \<and> (\<exists>t. httpTunnels (sv_tunnelManager s0) n = Some t \<and> ts_Reserved t \<and> ts_Token t = token)"
      have K: "?ok (?K n) n" for n using I(2) by (simp add: others_kept_def)
      have "?ok None sub"
      proof (cases "httpTunnels (sv_tunnelManager s) sub")
        case None
        then have "?K sub = None" by (simp add: keep_entries_None)
        then show ?thesis using K [of sub] by simp
      next
        case (Some e)
        then have "?K sub = Some e" using old by simp
        then have "httpTunnels (sv_tunnelManager s0) sub = Some e" using K [of sub] by (metis option.distinct(1))
        then show ?thesis using http(5) Some by simp
      qed
      then show ?thesis using I(2) K m by (simp add: others_kept_def http(1,2) keep_entries_upd)
    qed
    ultimately show ?thesis using http(4,7) I(4) m by (simp add: session_runs_def http(1))
  next
    case (tcp port t)
    have m: "mine y t" using tcp(3) by (simp add: mine_def)
    have "tunnels_of y s' = Suc (tunnels_of y s)"
      using count_entries_new [OF fin(2), of port "mine y" t] tcp(4) m by (simp add: tunnels_of_def tcp(1,2))
    then have "count_exact y token s0 s'" by (rule count_exact_step [OF I(3) _ tcp(5)])
    moreover have "keep_entries (\<lambda>t. \<not> mine y t) (tcpTunnels (sv_tunnelManager s)) port = None"
      using tcp(4) by (simp add: keep_entries_None)
    then have "others_kept y token s0 s'"
      using I(2) m by (auto simp: others_kept_def tcp(1,2) keep_entries_upd fun_upd_idem)
    ultimately show ?thesis using tcp(6) I(4) by (simp add: session_runs_def tcp(2))
  qed
qed

lemma session_runs_message:
  assumes "handle_message L J tu i y token m s = (r, s')" and "quiet (tu_att (tu i))" and "session_runs y token s0 s"
    and "counts_nonneg s0"
  shows "session_runs y token s0 s'"
  using assms session_runs_request [OF _ assms(2-4)]
  by (auto simp: handle_message_def control_message_def split: prod.splits if_splits option.splits)

lemma session_runs_loop:
  assumes "\<And>i. quiet (tu_att (tu i))" and nn: "counts_nonneg s0"
  shows "session_runs y token s0 s \<Longrightarrow> session_runs y token s0 (snd (snd (control_loop L J text write tu y token i d w s)))"
proof (induction "length (rd_data d)" arbitrary: i d w s rule: less_induct)
  case less
  obtain m d' where D: "Decode d = (m, d')" by fastforce
  show ?case
  proof (cases m)
    case (Inl e)
    then show ?thesis using less.prems D by (subst control_loop.simps) simp
  next
    case (Inr mm)
    obtain r s1 where h: "handle_message L J tu i y token mm s = (r, s1)" by fastforce
    have "length (rd_data d') < length (rd_data d)" using Decode_consumes D Inr by blast
    moreover have s1: "session_runs y token s0 s1" by (rule session_runs_message [OF h assms(1) less.prems nn])
    ultimately have IH: "session_runs y token s0 (snd (snd (control_loop L J text write tu y token (Suc i) d' w1 s1)))" for w1
      using less.hyps by blast
    show ?thesis by (subst control_loop.simps) (simp add: D Inr h IH s1 split: option.split prod.split)
  qed
qed


subsection \<open>The end\<close>

lemma session_runs_start:
  assumes "tm_inv (sv_tunnelManager s)" and "\<forall>n t. httpTunnels (sv_tunnelManager s) n = Some t \<longrightarrow> \<not> mine y t"
    and "\<forall>p t. tcpTunnels (sv_tunnelManager s) p = Some t \<longrightarrow> \<not> mine y t"
  shows "session_runs y token s s"
proof -
  have "entries_with (mine y) (httpTunnels (sv_tunnelManager s)) = {}" "entries_with (mine y) (tcpTunnels (sv_tunnelManager s)) = {}"
    using assms(2,3) by (auto simp: entries_with_def)
  then have "tunnels_of y s = 0" by (simp add: tunnels_of_def count_entries_def)
  then have "count_exact y token s s" by (simp add: count_exact_def option.map_ident fun_upd_idem)
  moreover have "keep_entries (\<lambda>t. \<not> mine y t) (httpTunnels (sv_tunnelManager s)) = httpTunnels (sv_tunnelManager s)"
      "keep_entries (\<lambda>t. \<not> mine y t) (tcpTunnels (sv_tunnelManager s)) = tcpTunnels (sv_tunnelManager s)"
    using assms(2,3) by (auto intro!: keep_entries_id)
  ultimately show ?thesis using assms by (auto simp: session_runs_def others_kept_def)
qed

text \<open>The idle timer only marks the session's own entries.\<close>

lemma range_vals_ran: "t \<in> set (range_vals ord m) \<Longrightarrow> \<exists>k. m k = Some t"
  by (auto simp: range_vals_def List.map_filter_def)

lemma idle_names:
  assumes "tm_inv tm" and "n \<in> http_names_of (SessionTunnels oh ot y tm)"
  shows "\<exists>t. httpTunnels tm n = Some t \<and> mine y t"
proof -
  obtain t where t: "t \<in> set (SessionTunnels oh ot y tm)" "ts_Type t = ''http''" "ts_Subdomain t = n"
    using assms(2) by (auto simp: http_names_of_def)
  then have m: "mine y t" and "(\<exists>k. httpTunnels tm k = Some t) \<or> (\<exists>p. tcpTunnels tm p = Some t)"
    by (auto simp: SessionTunnels_def mine_def dest: range_vals_ran)
  then show ?thesis using t(2,3) tm_inv_http [OF assms(1)] tm_inv_tcp [OF assms(1)]
    by (fastforce simp: http_entry_ok_def tcp_entry_ok_def)
qed

lemma idle_entries:
  fixes s :: "('h, 'l) server"
  assumes "tm_inv (sv_tunnelManager s)"
  shows "keep_entries (\<lambda>t. \<not> mine y t) (httpTunnels (sv_tunnelManager (idleTimeout oh ot now y s))) =
      keep_entries (\<lambda>t. \<not> mine y t) (httpTunnels (sv_tunnelManager s))"
    and "entries_with (mine y) (httpTunnels (sv_tunnelManager (idleTimeout oh ot now y s))) =
      entries_with (mine y) (httpTunnels (sv_tunnelManager s))"
proof -
  let ?tm = "sv_tunnelManager s"
  let ?R = "SessionTunnels oh ot y ?tm"
  let ?h = "httpTunnels (sv_tunnelManager (idleTimeout oh ot now y s))"
  have same: "map_option ts_Session (?h n) = map_option ts_Session (httpTunnels ?tm n)" for n
    by (simp add: idleTimeout_def reserve_all_session)
  have "keep_entries (\<lambda>t. \<not> mine y t) ?h n = keep_entries (\<lambda>t. \<not> mine y t) (httpTunnels ?tm) n" for n
  proof (cases "n \<in> http_names_of ?R")
    case True
    then obtain t where t: "httpTunnels ?tm n = Some t" "mine y t" using idle_names [OF assms] by blast
    then obtain t' where "?h n = Some t'" "mine y t'" using same [of n] by (auto simp: mine_def)
    then show ?thesis using t by (simp add: keep_entries_def)
  next
    case False
    then show ?thesis using reserve_all_others [OF False, of now ?tm] by (simp add: idleTimeout_def keep_entries_def)
  qed
  then show "keep_entries (\<lambda>t. \<not> mine y t) ?h = keep_entries (\<lambda>t. \<not> mine y t) (httpTunnels ?tm)" by blast
  have "(\<exists>t. ?h n = Some t \<and> mine y t) \<longleftrightarrow> (\<exists>t. httpTunnels ?tm n = Some t \<and> mine y t)" for n
    using same [of n] by (cases "?h n"; cases "httpTunnels ?tm n") (auto simp: mine_def)
  then show "entries_with (mine y) ?h = entries_with (mine y) (httpTunnels ?tm)" by (simp add: entries_with_def)
qed

definition session_over :: "nat \<Rightarrow> string \<Rightarrow> ('h, 'l) server \<Rightarrow> ('h, 'l) server \<Rightarrow> bool" where
  "session_over y token s0 s \<longleftrightarrow> tm_inv (sv_tunnelManager s) \<and> others_kept y token s0 s \<and> count_exact y token s0 s"

lemma session_over_idle:
  assumes "session_over y token s0 s"
  shows "session_over y token s0 (idleTimeout oh ot now y s)"
proof -
  have tm: "tm_inv (sv_tunnelManager s)" using assms by (simp add: session_over_def)
  note e = idle_entries [OF tm, of y oh ot now]
  have t: "tcpTunnels (sv_tunnelManager (idleTimeout oh ot now y s)) = tcpTunnels (sv_tunnelManager s)"
    and u: "used_by (idleTimeout oh ot now y s) = used_by s" by (simp_all add: idleTimeout_def)
  have "tunnels_of y (idleTimeout oh ot now y s) = tunnels_of y s" by (simp add: tunnels_of_def t count_entries_def e(2))
  then show ?thesis using assms reserve_all_inv [OF tm]
    by (simp add: session_over_def others_kept_def count_exact_def e(1) t u) (simp add: idleTimeout_def)
qed

lemma cleanup_unknown:
  "used_by s token = None \<Longrightarrow> used_by (cleanupSession oh ot y token s) = used_by s"
proof -
  have "used_by s token = None \<Longrightarrow> used_by (fold (cleanup_one token) R s) = used_by s" for R
    by (induction R arbitrary: s) (auto simp: used_by_decrement fun_upd_idem)
  then show "used_by s token = None \<Longrightarrow> used_by (cleanupSession oh ot y token s) = used_by s"
    by (simp add: cleanupSession_def)
qed

lemma cleanup_entries:
  assumes "tm_inv (sv_tunnelManager s)" and "covers oh (httpTunnels (sv_tunnelManager s))"
    and "covers ot (tcpTunnels (sv_tunnelManager s))"
  shows "httpTunnels (sv_tunnelManager (cleanupSession oh ot y token s)) = keep_entries (\<lambda>t. \<not> mine y t) (httpTunnels (sv_tunnelManager s))"
    and "tcpTunnels (sv_tunnelManager (cleanupSession oh ot y token s)) = keep_entries (\<lambda>t. \<not> mine y t) (tcpTunnels (sv_tunnelManager s))"
  by (rule ext; auto simp: cleanupSession_def cleanup_fold_tunnels names_of_session [OF assms] keep_entries_def mine_def
      split: option.split)+

lemma session_over_clean:
  assumes "session_over y token s0 s" and "counts_nonneg s0" and "covers oh (httpTunnels (sv_tunnelManager s))"
    and "covers ot (tcpTunnels (sv_tunnelManager s))"
  shows "used_by (cleanupSession oh ot y token s) = used_by s0 \<and>
    tcpTunnels (sv_tunnelManager (cleanupSession oh ot y token s)) = tcpTunnels (sv_tunnelManager s0) \<and>
    (\<forall>n. httpTunnels (sv_tunnelManager (cleanupSession oh ot y token s)) n = httpTunnels (sv_tunnelManager s0) n \<or>
       httpTunnels (sv_tunnelManager (cleanupSession oh ot y token s)) n = None \<and>
         (\<exists>t. httpTunnels (sv_tunnelManager s0) n = Some t \<and> ts_Reserved t \<and> ts_Token t = token))"
proof -
  have I: "tm_inv (sv_tunnelManager s)" "others_kept y token s0 s" "count_exact y token s0 s"
    using assms(1) by (simp_all add: session_over_def)
  have "used_by (cleanupSession oh ot y token s) = used_by s0"
  proof (cases "used_by s0 token")
    case None
    then have "used_by s = used_by s0" using I(3) by (simp add: count_exact_def fun_upd_idem)
    then show ?thesis using cleanup_unknown [of s token oh ot y] None by simp
  next
    case (Some u)
    then have u: "used_by s = (used_by s0)(token \<mapsto> u + int (tunnels_of y s))" "0 \<le> u"
      using I(3) assms(2) by (auto simp: count_exact_def counts_nonneg_def)
    then have "used_by (cleanupSession oh ot y token s) = (used_by s)(token \<mapsto> max 0 (u + int (tunnels_of y s) - int (tunnels_of y s)))"
      using cleanup_exact [OF I(1) assms(3,4), of token "u + int (tunnels_of y s)" y]
      by (simp add: Let_def tunnels_of_def mine_eq)
    then show ?thesis using u Some by (simp add: fun_upd_idem)
  qed
  then show ?thesis using I(2) unfolding others_kept_def cleanup_entries [OF I(1) assms(3,4)] by blast
qed



lemma covers_exists:
  assumes "finite (dom m)"
  shows "\<exists>ord. covers ord m"
  using finite_distinct_list [OF assms] by (auto simp: covers_def)

definition shop_wire :: wire_json where
  "shop_wire = plain_wire\<lparr>wj_tunnel_request := (\<lambda>_. Some shop_request)\<rparr>"

definition first_turn :: "nat \<Rightarrow> turn" where
  "first_turn i = \<lparr>tu_oh = [], tu_ot = [], tu_rnd = (\<lambda>_. 0), tu_rnds = (\<lambda>_ _. 0), tu_att = calm, tu_now = 9\<rparr>"

text \<open>A client asks for a tunnel, gets it and disappears.\<close>

lemma shop_session:
  "\<exists>url w s1. handleControlSession open_limiter shop_wire (\<lambda>_. []) buffer_write first_turn 1 demo_user True None
      \<lparr>rd_data = frame MsgTunnelReq [1], rd_end = EOF\<rparr> [] demo_server = (ControlEnded (DecodeEnded (ReadLength EOF)), w, s1) \<and>
    handleTunnelRequest open_limiter [] [] (\<lambda>_. 0) (\<lambda>_ _. 0) calm 9 1 demo_user shop_request demo_server = (HTTPTunnel url, s1)"
proof -
  obtain url s1 where h: "handleTunnelRequest open_limiter [] [] (\<lambda>_. 0) (\<lambda>_ _. 0) calm 9 1 demo_user shop_request demo_server = (HTTPTunnel url, s1)"
    using demo_open_shop by blast
  have "list_all frame_ok [(MsgTunnelReq, [1])]" by (simp add: frame_ok_def MaxMessageSize_def)
  moreover have "handle_all open_limiter shop_wire first_turn 1 demo_user 0 [(MsgTunnelReq, [1])] demo_server = ([Some (HTTPTunnel url)], s1)"
    using h by (simp add: handle_message_def control_message_def msg_type_defs shop_wire_def first_turn_def)
  ultimately have "control_loop open_limiter shop_wire (\<lambda>_. []) buffer_write first_turn 1 demo_user 0
      \<lparr>rd_data = frame MsgTunnelReq [1], rd_end = EOF\<rparr> [] demo_server =
      (DecodeEnded (ReadLength EOF), answer_bytes shop_wire (\<lambda>_. []) (Some (HTTPTunnel url)), s1)"
    using control_loop_frames [of "[(MsgTunnelReq, [1])]" open_limiter shop_wire "\<lambda>_. []" first_turn 1 demo_user 0 "[]" EOF "[]" demo_server]
    by (simp add: control_loop_ends)
  then show ?thesis using h by (intro exI [of _ url] exI [of _ s1]) (simp add: handleControlSession_def)
qed


end
