(* ===== verification/Expiry.thy ===== *)
theory Expiry
  imports Server_Properties "HOL-Library.Word"
begin

text \<open>
  The lifetime of anonymous tunnels, from the setting to the goroutine: \<open>NewServer\<close> turns the seconds of
  \<open>anon_tunnel_ttl\<close> into a \<open>time.Duration\<close>, an \<open>int64\<close> of nanoseconds, by a multiplication that wraps.
\<close>

section \<open>The lifetime of anonymous tunnels\<close>

subsection \<open>From seconds to a duration\<close>

definition anon_ttl :: "int \<Rightarrow> duration" where
  "anon_ttl n = sint (word_of_int n * word_of_int second :: 64 word)"

text \<open>One tick of the goroutine that the server starts.\<close>

definition expiry_tick ::
    "string list \<Rightarrow> int list \<Rightarrow> (string \<Rightarrow> string list \<times> int list) \<Rightarrow> time \<Rightarrow> ('h, 'l) server \<Rightarrow> ('h, 'l) server" where
  "expiry_tick oh ot ords now s =
     s\<lparr>sv_tunnelManager := AnonymousExpiry oh ot ords (anon_ttl (sc_AnonTunnelTTL (sv_cfg s))) now (sv_tunnelManager s)\<rparr>"

lemma sint_word_in_range: "- (2 ^ 63) \<le> k \<Longrightarrow> k < 2 ^ 63 \<Longrightarrow> sint (word_of_int k :: 64 word) = k"
  by (simp add: signed_of_int signed_take_bit_int_eq_self)

lemma anon_ttl_exact: "0 \<le> n \<Longrightarrow> n \<le> 9223372036 \<Longrightarrow> anon_ttl n = n * second"
  using sint_word_in_range [of "n * second"] by (simp add: anon_ttl_def second_def)

lemma anon_ttl_wraps:
  assumes "9223372036 < n" and "n \<le> 18446744073"
  shows "anon_ttl n = n * second - 2 ^ 64"
proof -
  have w: "(word_of_int (n * second) :: 64 word) = word_of_int (n * second - 2 ^ 64)"
    by (simp only: word_of_int_eq_iff take_bit_eq_mod) simp
  have "anon_ttl n = sint (word_of_int (n * second - 2 ^ 64) :: 64 word)"
    by (simp only: anon_ttl_def of_int_mult [symmetric] w)
  also have "\<dots> = n * second - 2 ^ 64" using assms by (intro sint_word_in_range) (simp_all add: second_def)
  finally show ?thesis .
qed

subsection \<open>Who is killed\<close>

lemma expired_anon_mem:
  assumes "covers oh (httpTunnels tm)" and "covers ot (tcpTunnels tm)"
  shows "i \<in> set (expired_anon oh ot ttl now tm) \<longleftrightarrow>
    (\<exists>n t. httpTunnels tm n = Some t \<and> ts_ID t = i \<and> is_anon (ts_Token t) \<and> \<not> ts_Reserved t \<and> ttl < now - ts_CreatedAt t) \<or>
    (\<exists>p t. tcpTunnels tm p = Some t \<and> ts_ID t = i \<and> is_anon (ts_Token t) \<and> ttl < now - ts_CreatedAt t)"
  unfolding expired_anon_def set_append set_map set_filter set_range_vals [OF assms(1)] set_range_vals [OF assms(2)] ran_def by blast


definition young_tunnel :: tunnel_session where
  "young_tunnel = (new_session 1 (\<lambda>_. 0) ''anon:10.0.0.1'' shop_request)\<lparr>ts_Subdomain := ''shop'', ts_CreatedAt := 5\<rparr>"

definition young_manager :: tunnel_manager where
  "young_manager = (NewTunnelManager 1 2)\<lparr>httpTunnels := [''shop'' \<mapsto> young_tunnel]\<rparr>"


end
