(* ===== verification/Callback.thy ===== *)
theory Callback
  imports Cli
begin

text \<open>
  The local web server of the login (\<open>internal/client/auth_callback.go\<close>): the handler of the browser's request,
  the goroutine that shuts the server down, and the reader of the result run concurrently, so they are a step
  relation. The result that the login reads is the first one the browser brought, as \<open>callback_answer\<close> has it.
\<close>

section \<open>The callback server\<close>

subsection \<open>State\<close>

text \<open>
  The goroutine has not reached its \<open>select\<close>, waits in it, has been woken, or has closed the server. \<open>cs_busy\<close>
  are the requests that have been accepted and not yet handled, \<open>cs_handled\<close> those that have, in order;
  \<open>cs_ch\<close> is the channel with room for one result, and \<open>cs_received\<close> what the login has read from it.
\<close>

datatype waiter = Starting | Waiting | Woken | Finished

record callback_server =
  cs_ch :: "callback_result option"
  cs_waiter :: waiter
  cs_busy :: "callback_result list"
  cs_handled :: "callback_result list"
  cs_received :: "callback_result option"

definition callback_server_init :: callback_server where
  "callback_server_init = \<lparr>cs_ch = None, cs_waiter = Starting, cs_busy = [], cs_handled = [], cs_received = None\<rparr>"

definition StartCallbackServer :: "string + int \<Rightarrow> string + string \<times> callback_server" where
  "StartCallbackServer listen =
     (case listen of
        Inl e \<Rightarrow> Inl e
      | Inr port \<Rightarrow> Inr (''http://127.0.0.1:'' @ FormatInt port @ ''/cb'', callback_server_init))"

text \<open>
  The handler sends its result unless the channel is full, and then the signal to shut down if the goroutine is
  in its \<open>select\<close>: neither send ever blocks.
\<close>

definition callback_handler :: "callback_result \<Rightarrow> callback_server \<Rightarrow> callback_server" where
  "callback_handler r s =
     (let s1 = (if cs_ch s = None then s\<lparr>cs_ch := Some r\<rparr> else s) in
      (if cs_waiter s1 = Waiting then s1\<lparr>cs_waiter := Woken\<rparr> else s1)
        \<lparr>cs_handled := cs_handled s @ [r], cs_busy := remove1 r (cs_busy s)\<rparr>)"

inductive callback_step :: "callback_server \<Rightarrow> callback_server \<Rightarrow> bool" where
  browser: "cs_waiter s \<noteq> Finished \<Longrightarrow> callback_step s (s\<lparr>cs_busy := r # cs_busy s\<rparr>)"
| handler: "r \<in> set (cs_busy s) \<Longrightarrow> callback_step s (callback_handler r s)"
| waits: "cs_waiter s = Starting \<Longrightarrow> callback_step s (s\<lparr>cs_waiter := Waiting\<rparr>)"
| cancelled: "cs_waiter s = Waiting \<Longrightarrow> callback_step s (s\<lparr>cs_waiter := Woken\<rparr>)"
| closes: "cs_waiter s = Woken \<Longrightarrow> callback_step s (s\<lparr>cs_waiter := Finished\<rparr>)"
| reads: "cs_ch s = Some r \<Longrightarrow> cs_received s = None \<Longrightarrow> callback_step s (s\<lparr>cs_ch := None, cs_received := Some r\<rparr>)"

inductive_cases callback_stepE: "callback_step s s'"

subsection \<open>The first answer is the one that is read\<close>

definition callback_inv :: "callback_server \<Rightarrow> bool" where
  "callback_inv s \<longleftrightarrow>
     (case cs_received s of
        None \<Rightarrow> cs_ch s = callback_answer (cs_handled s)
      | Some r \<Rightarrow> callback_answer (cs_handled s) = Some r)"

lemma callback_answer_append:
  "callback_answer (rs @ [r]) = (case callback_answer rs of None \<Rightarrow> Some r | Some r' \<Rightarrow> Some r')"
  by (cases rs) (simp_all add: callback_answer_def)

lemma callback_inv_step: "callback_step s s' \<Longrightarrow> callback_inv s \<Longrightarrow> callback_inv s'"
  by (elim callback_stepE) (auto simp: callback_inv_def callback_handler_def callback_answer_append Let_def split: option.splits)

lemma callback_inv_init: "callback_inv callback_server_init"
  by (simp add: callback_inv_def callback_server_init_def callback_answer_def)

interpretation login_server: state_machine callback_server_init callback_step callback_inv
  by unfold_locales (rule callback_inv_init, rule callback_inv_step)

text \<open>
  What the login reads is what the first request that was handled brought, however many others came at the
  same time; and as soon as one was handled, there is something to read.
\<close>

lemma login_reads_first:
  assumes "callback_step\<^sup>*\<^sup>* callback_server_init s"
  shows "cs_received s = Some r \<Longrightarrow> callback_answer (cs_handled s) = Some r"
    and "cs_received s = None \<Longrightarrow> cs_handled s \<noteq> [] \<Longrightarrow>
      \<exists>s' r. callback_step s s' \<and> cs_received s' = Some r \<and> callback_answer (cs_handled s) = Some r"
proof -
  have inv: "callback_inv s" by (rule login_server.good_run [OF assms])
  show "cs_received s = Some r \<Longrightarrow> callback_answer (cs_handled s) = Some r" using inv by (simp add: callback_inv_def)
  show "\<exists>s' r. callback_step s s' \<and> cs_received s' = Some r \<and> callback_answer (cs_handled s) = Some r"
    if unread: "cs_received s = None" and some: "cs_handled s \<noteq> []"
  proof -
    have "cs_ch s = callback_answer (cs_handled s)" using inv unread by (simp add: callback_inv_def)
    moreover obtain r where "callback_answer (cs_handled s) = Some r"
      using some by (cases "cs_handled s") (simp_all add: callback_answer_def)
    ultimately show ?thesis using reads [of s r] unread by force
  qed
qed

text \<open>
  A request that is handled before the goroutine waits loses its signal: the server then stays open until the
  login cancels the context or another request comes.
\<close>

lemma early_request_keeps_server_open:
  "cs_waiter s = Starting \<Longrightarrow> cs_waiter (callback_handler r s) = Starting"
  "cs_waiter s = Waiting \<Longrightarrow> cs_waiter (callback_handler r s) = Woken"
  by (simp_all add: callback_handler_def Let_def)

subsection \<open>The browser\<close>

text \<open>The command for each platform; \<open>start\<close> says why a command could not be started.\<close>

definition OpenBrowser :: "(string \<Rightarrow> string list \<Rightarrow> string option) \<Rightarrow> string \<Rightarrow> string \<Rightarrow> string option" where
  "OpenBrowser start goos url =
     (if goos = ''linux'' then start ''xdg-open'' [url]
      else if goos = ''windows'' then start ''rundll32'' [''url.dll,FileProtocolHandler'', url]
      else if goos = ''darwin'' then start ''open'' [url]
      else Some (''unsupported platform '' @ goos))"

end
