(* ===== verification/Commands.thy ===== *)
theory Commands
  imports Lifecycle Wizard Cli_Properties Callback
begin

text \<open>
  The two programs from their arguments to their exit codes (\<open>cmd/server/main.go\<close>, \<open>cmd/htn-tunnel/main.go\<close> and
  the command constructors beside them). Flags are taken out of the arguments by cobra, which then finds the
  command by its name, checks the number of arguments the command admits and runs it; an error ends the process
  with 1. The help, completion and version commands that cobra adds are not listed.
\<close>

subsection \<open>Numbers of arguments\<close>

definition ExactArgs :: "nat \<Rightarrow> string list \<Rightarrow> bool" where
  "ExactArgs n args \<longleftrightarrow> length args = n"

definition MaximumNArgs :: "nat \<Rightarrow> string list \<Rightarrow> bool" where
  "MaximumNArgs n args \<longleftrightarrow> length args \<le> n"

subsection \<open>The server\<close>

definition version_dev :: string where
  "version_dev = ''dev''"

text \<open>\<open>None\<close> is a command line that is refused.\<close>

datatype server_command = Serve | Init | Health | Status | Upgrade | Backup string | Restore string

definition backupCmd :: "string list \<Rightarrow> server_command option" where
  "backupCmd args =
     (if MaximumNArgs 1 args then Some (Backup (if args \<noteq> [] then args ! 0 else ''htn-tunnel-backup.tar.gz'')) else None)"

definition restoreCmd :: "string list \<Rightarrow> server_command option" where
  "restoreCmd args = (if ExactArgs 1 args then Some (Restore (args ! 0)) else None)"

definition initCmd :: "string list \<Rightarrow> server_command option" where
  "initCmd args = Some Init"

definition statusCmd :: "string list \<Rightarrow> server_command option" where
  "statusCmd args = Some Status"

definition upgradeCmd :: "string list \<Rightarrow> server_command option" where
  "upgradeCmd args = Some Upgrade"

text \<open>\<open>serve\<close> and \<open>health\<close> are the functions \<open>serveCmd\<close> and \<open>healthCmd\<close>; like the three above they admit any arguments.\<close>

definition server_commands :: "(string \<times> (string list \<Rightarrow> server_command option)) list" where
  "server_commands =
     [(''serve'', \<lambda>args. Some Serve), (''init'', initCmd), (''health'', \<lambda>args. Some Health),
      (''status'', statusCmd), (''upgrade'', upgradeCmd),
      (''backup'', backupCmd), (''restore'', restoreCmd)]"

definition server_command_of :: "string list \<Rightarrow> server_command option" where
  "server_command_of argv =
     (case argv of
        [] \<Rightarrow> Some Serve
      | name # args \<Rightarrow> (case map_of server_commands name of None \<Rightarrow> None | Some cmd \<Rightarrow> cmd args))"

text \<open>What the commands meet: the flag, the machine and how the calls of the operating system end.\<close>

record server_world =
  sw_flagConfig :: string
  sw_machine :: machine
  sw_get :: "string \<Rightarrow> probe"
  sw_tls_error :: "string option"
  sw_listen_error :: "string option"
  sw_accepts :: "accept_event list"
  sw_wizard :: wizard_env
  sw_upgrade :: upgrade_env
  sw_backup :: backup_env
  sw_restore :: restore_env

definition exit_of :: "'e option \<Rightarrow> int" where
  "exit_of err = (case err of None \<Rightarrow> 0 | Some e \<Rightarrow> 1)"

definition exit_of_result :: "'e + 'a \<Rightarrow> int" where
  "exit_of_result r = (case r of Inl e \<Rightarrow> 1 | Inr v \<Rightarrow> 0)"

text \<open>\<open>runBackup\<close> goes on without a configuration it cannot load; \<open>None\<close> is a process that still runs.\<close>

definition run_server_command ::
    "'h bcrypt_api \<Rightarrow> 'l limiter_api \<Rightarrow> json_api \<Rightarrow> (string \<Rightarrow> string) \<Rightarrow> server_world \<Rightarrow> server_command \<Rightarrow> files \<Rightarrow>
     int option \<times> files" where
  "run_server_command B L J ulow w cmd fs =
     (let mc = sw_machine w; flag = sw_flagConfig w in
      case cmd of
        Serve \<Rightarrow> (serveCmd B L J mc flag (sw_tls_error w) (sw_listen_error w) (sw_accepts w), fs)
      | Init \<Rightarrow> (case runWizard ulow (mc_utrim mc) (sw_wizard w) fs of (r, fs1) \<Rightarrow> (Some (exit_of_result r), fs1))
      | Health \<Rightarrow> (Some (fst (healthCmd (sw_get w) mc flag)), fs)
      | Status \<Rightarrow> (Some (exit_of_result (runStatus (sw_get w) mc flag)), fs)
      | Upgrade \<Rightarrow> (case runUpgrade (sw_upgrade w) version_dev fs of (r, fs1) \<Rightarrow> (Some (exit_of_result r), fs1))
      | Backup out \<Rightarrow>
          (case runBackup (sw_backup w) (resolveConfigPath flag)
                  (case load_config mc (resolveConfigPath flag) of Inl e \<Rightarrow> None | Inr cfg \<Rightarrow> Some cfg) out fs of
             (e, fs1) \<Rightarrow> (Some (exit_of e), fs1))
      | Restore archive \<Rightarrow> (case runRestore (sw_restore w) archive fs of (e, fs1) \<Rightarrow> (Some (exit_of e), fs1)))"

definition server_main ::
    "'h bcrypt_api \<Rightarrow> 'l limiter_api \<Rightarrow> json_api \<Rightarrow> (string \<Rightarrow> string) \<Rightarrow> server_world \<Rightarrow> string list \<Rightarrow> files \<Rightarrow>
     int option \<times> files" where
  "server_main B L J ulow w argv fs =
     (case server_command_of argv of
        None \<Rightarrow> (Some 1, fs)
      | Some cmd \<Rightarrow> run_server_command B L J ulow w cmd fs)"

subsection \<open>The client\<close>

datatype client_command =
    Http string | Tcp string | AuthToken string | Login | Logout | OpenDashboard | ShowStatus | Setup

definition with_argument :: "(string \<Rightarrow> client_command) \<Rightarrow> string list \<Rightarrow> client_command option" where
  "with_argument cmd args = (if ExactArgs 1 args then Some (cmd (args ! 0)) else None)"

definition client_commands :: "(string \<times> (string list \<Rightarrow> client_command option)) list" where
  "client_commands =
     [(''http'', with_argument Http), (''tcp'', with_argument Tcp), (''auth'', with_argument AuthToken),
      (''login'', \<lambda>args. Some Login), (''logout'', \<lambda>args. Some Logout), (''dashboard'', \<lambda>args. Some OpenDashboard),
      (''status'', \<lambda>args. Some ShowStatus), (''setup'', \<lambda>args. Some Setup)]"

text \<open>Without a command the root, which has nothing to run, shows its help.\<close>

datatype client_request = ShowHelp | Refused | Command client_command

definition client_command_of :: "string list \<Rightarrow> client_request" where
  "client_command_of argv =
     (case argv of
        [] \<Rightarrow> ShowHelp
      | name # args \<Rightarrow>
          (case map_of client_commands name of
             None \<Rightarrow> Refused
           | Some cmd \<Rightarrow> (case cmd args of None \<Rightarrow> Refused | Some c \<Rightarrow> Command c)))"

record 'w client_world =
  cw_flags :: flags
  cw_subdomain :: string
  cw_http :: "'w http_env"
  cw_account :: "'w account_env"
  cw_write :: write_outcome
  cw_line :: "string option"
  cw_login :: login_env
  cw_start :: "string \<Rightarrow> string list \<Rightarrow> string option"
  cw_goos :: string

text \<open>The process ends with a code, panics, or runs a reconnecting client.\<close>

datatype client_run = Exit int | Panics | Connects reconnector

definition run_client_command ::
    "yaml_api \<Rightarrow> wire_json \<Rightarrow> (string \<Rightarrow> string) \<Rightarrow> (string \<Rightarrow> string) \<Rightarrow> 'w client_world \<Rightarrow> client_command \<Rightarrow> home \<Rightarrow>
     client_run \<times> home" where
  "run_client_command Y J ulow utrim w cmd h =
     (let fl = cw_flags w in
      case cmd of
        Http arg \<Rightarrow>
          (case httpCmd Y J ulow utrim fl (cw_subdomain w) (cw_http w) version_dev arg h of
             (Inl e, h1) \<Rightarrow> (Exit 1, h1)
           | (Inr r, h1) \<Rightarrow> (Connects r, h1))
      | Tcp arg \<Rightarrow> (case tcpCmd Y fl version_dev arg h of Inl e \<Rightarrow> (Exit 1, h) | Inr r \<Rightarrow> (Connects r, h))
      | AuthToken token \<Rightarrow> (case authCmd Y fl (cw_write w) token h of (e, h1) \<Rightarrow> (Exit (exit_of e), h1))
      | Login \<Rightarrow>
          (case loginCmd Y utrim fl (cw_write w) (cw_line w) (cw_login w) h of
             None \<Rightarrow> (Panics, h)
           | Some (e, h1) \<Rightarrow> (Exit (exit_of e), h1))
      | Logout \<Rightarrow> (case logoutCmd Y (cw_write w) h of (e, h1) \<Rightarrow> (Exit (exit_of e), h1))
      | OpenDashboard \<Rightarrow>
          (case dashboardCmd Y fl h of
             None \<Rightarrow> (Panics, h)
           | Some u \<Rightarrow> (Exit (exit_of (OpenBrowser (cw_start w) (cw_goos w) u)), h))
      | ShowStatus \<Rightarrow> (Exit (exit_of_result (client_statusCmd Y J fl (cw_account w) h)), h)
      | Setup \<Rightarrow>
          (case setupCmd Y utrim fl (cw_write w) (cw_line w) h of
             None \<Rightarrow> (Panics, h)
           | Some (e, h1) \<Rightarrow> (Exit (exit_of e), h1)))"

definition client_main ::
    "yaml_api \<Rightarrow> wire_json \<Rightarrow> (string \<Rightarrow> string) \<Rightarrow> (string \<Rightarrow> string) \<Rightarrow> 'w client_world \<Rightarrow> string list \<Rightarrow> home \<Rightarrow>
     client_run \<times> home" where
  "client_main Y J ulow utrim w argv h =
     (case client_command_of argv of
        ShowHelp \<Rightarrow> (Exit 0, h)
      | Refused \<Rightarrow> (Exit 1, h)
      | Command c \<Rightarrow> run_client_command Y J ulow utrim w c h)"

subsection \<open>What the command lines do\<close>

text \<open>Only four commands of the server touch files, and a refused command line touches none.\<close>

lemma server_main_reads_only:
  "server_command_of argv \<in> {None, Some Serve, Some Health, Some Status} \<Longrightarrow> snd (server_main B L J ulow w argv fs) = fs"
  by (auto simp: server_main_def run_server_command_def Let_def)

text \<open>The tunnels of the client are opened by two commands only, with the port of the command line.\<close>

lemma client_connects_port:
  assumes "client_main Y J ulow utrim w argv h = (Connects r, h')"
  shows "\<exists>arg. argv = [''http'', arg] \<or> argv = [''tcp'', arg]"
proof -
  obtain name args where argv: "argv = name # args" using assms
    by (cases argv) (simp_all add: client_main_def client_command_of_def)
  obtain c where c: "client_command_of argv = Command c" and run: "run_client_command Y J ulow utrim w c h = (Connects r, h')"
    using assms by (auto simp: client_main_def split: client_request.splits)
  have "\<exists>arg. c = Http arg \<or> c = Tcp arg"
    using run by (cases c) (auto simp: run_client_command_def Let_def split: option.splits prod.splits)
  then show ?thesis
    using c by (auto simp: argv client_command_of_def client_commands_def with_argument_def ExactArgs_def length_Suc_conv
        split: option.splits if_splits)
qed

text \<open>
  The server without a command serves; \<open>backup\<close> has a default for its archive and \<open>restore\<close> has none.
\<close>

lemma backup_default:
  "server_command_of [''backup''] = server_command_of [''backup'', ''htn-tunnel-backup.tar.gz'']"
  "server_command_of [''restore''] = None" "server_command_of [] = server_command_of [''serve'']"
  by (simp_all add: server_command_of_def server_commands_def backupCmd_def restoreCmd_def ExactArgs_def MaximumNArgs_def)

end
