(* ===== verification/Name_Owners.thy ===== *)
theory Name_Owners
  imports Dashboard_Properties
begin

text \<open>
  The interface through which the dashboard manages keys (\<open>KeyProvider\<close> of \<open>internal/dashboard/handler.go\<close>), as a
  locale with the laws a provider keeps, and its interpretation by the key store behind \<open>KeyStoreAdapter\<close>. What
  the endpoints do then refines a book of names: which keys are accepted and which key owns a name.
\<close>

subsection \<open>The book of names\<close>

record name_book =
  nb_valid :: "string \<Rightarrow> bool"
  nb_owner :: "string \<rightharpoonup> string"

definition book_claim :: "string \<Rightarrow> string \<Rightarrow> name_book \<Rightarrow> name_book" where
  "book_claim key sub b =
     (if nb_valid b key \<and> ValidateSubdomain sub = None \<and> nb_owner b sub = None
      then b\<lparr>nb_owner := (nb_owner b)(sub \<mapsto> key)\<rparr> else b)"

definition book_release :: "string \<Rightarrow> string \<Rightarrow> name_book \<Rightarrow> name_book" where
  "book_release key sub b = (if nb_owner b sub = Some key then b\<lparr>nb_owner := (nb_owner b)(sub := None)\<rparr> else b)"

definition book_retire :: "string \<Rightarrow> name_book \<Rightarrow> name_book" where
  "book_retire key b =
     b\<lparr>nb_valid := (nb_valid b)(key := False), nb_owner := (\<lambda>sub. if nb_owner b sub = Some key then None else nb_owner b sub)\<rparr>"

definition book_enrol :: "string \<Rightarrow> string list \<Rightarrow> name_book \<Rightarrow> name_book" where
  "book_enrol key subs b =
     b\<lparr>nb_valid := (nb_valid b)(key := True), nb_owner := (\<lambda>sub. if sub \<in> set subs then Some key else nb_owner b sub)\<rparr>"

definition represents ::
    "('ks \<Rightarrow> bool) \<Rightarrow> ('ks \<Rightarrow> string \<Rightarrow> bool) \<Rightarrow> ('ks \<Rightarrow> string \<Rightarrow> string \<Rightarrow> bool) \<Rightarrow> name_book \<Rightarrow> 'ks \<Rightarrow> bool" where
  "represents good valid holds b ks \<longleftrightarrow>
     good ks \<and> nb_valid b = valid ks \<and> (\<forall>key sub. nb_owner b sub = Some key \<longleftrightarrow> holds ks key sub)"

subsection \<open>The interface\<close>

text \<open>The calls as relations between the states before and after, whatever they answer.\<close>

locale key_provider =
  fixes good :: "'ks \<Rightarrow> bool"
    and valid :: "'ks \<Rightarrow> string \<Rightarrow> bool"
    and holds :: "'ks \<Rightarrow> string \<Rightarrow> string \<Rightarrow> bool"
    and claim :: "string \<Rightarrow> string \<Rightarrow> 'ks \<Rightarrow> 'ks \<Rightarrow> bool"
    and release :: "string \<Rightarrow> string \<Rightarrow> 'ks \<Rightarrow> 'ks \<Rightarrow> bool"
    and retire :: "string \<Rightarrow> 'ks \<Rightarrow> 'ks \<Rightarrow> bool"
    and enrol :: "string \<Rightarrow> string list \<Rightarrow> 'ks \<Rightarrow> 'ks \<Rightarrow> bool"
  assumes good_kept: "good ks \<Longrightarrow> claim i sub ks ks' \<or> release i sub ks ks' \<or> retire i ks ks' \<or> enrol i subs ks ks' \<Longrightarrow> good ks'"
    and single: "good ks \<Longrightarrow> holds ks i sub \<Longrightarrow> holds ks j sub \<Longrightarrow> i = j"
    and valid_kept: "good ks \<Longrightarrow> claim i sub ks ks' \<or> release i sub ks ks' \<Longrightarrow> valid ks' = valid ks"
    and claimed: "good ks \<Longrightarrow> claim i sub ks ks' \<Longrightarrow>
      holds ks' j s \<longleftrightarrow> holds ks j s \<or> j = i \<and> s = sub \<and> valid ks i \<and> ValidateSubdomain sub = None \<and> (\<forall>l. \<not> holds ks l sub)"
    and released: "release i sub ks ks' \<Longrightarrow> holds ks' j s \<longleftrightarrow> holds ks j s \<and> \<not> (j = i \<and> s = sub)"
    and retired: "retire i ks ks' \<Longrightarrow> holds ks' j s \<longleftrightarrow> holds ks j s \<and> j \<noteq> i"
      "retire i ks ks' \<Longrightarrow> valid ks' j \<longleftrightarrow> valid ks j \<and> j \<noteq> i"
    and enrolled: "good ks \<Longrightarrow> enrol i subs ks ks' \<Longrightarrow> holds ks' j s \<longleftrightarrow> holds ks j s \<or> j = i \<and> s \<in> set subs"
      "good ks \<Longrightarrow> enrol i subs ks ks' \<Longrightarrow> valid ks' j \<longleftrightarrow> valid ks j \<or> j = i"
      "good ks \<Longrightarrow> enrol i subs ks ks' \<Longrightarrow> s \<in> set subs \<Longrightarrow> \<not> holds ks j s"
begin

lemma claim_refines:
  assumes "represents good valid holds b ks" and "claim i sub ks ks'"
  shows "represents good valid holds (book_claim i sub b) ks'"
proof -
  have g: "good ks" "nb_valid b = valid ks" and o: "\<And>key s. nb_owner b s = Some key \<longleftrightarrow> holds ks key s"
    using assms(1) by (auto simp: represents_def)
  have free: "nb_owner b sub = None \<longleftrightarrow> (\<forall>l. \<not> holds ks l sub)" using o by (metis not_None_eq)
  show ?thesis unfolding represents_def
    using g o free good_kept [of ks i sub ks'] valid_kept [of ks i sub ks'] claimed [OF g(1) assms(2)] assms(2)
    by (auto simp: book_claim_def split: if_splits)
qed

lemma release_refines:
  "represents good valid holds b ks \<Longrightarrow> release i sub ks ks' \<Longrightarrow> represents good valid holds (book_release i sub b) ks'"
  using good_kept [of ks i sub ks'] valid_kept [of ks i sub ks'] released [of i sub ks ks']
  by (auto simp: represents_def book_release_def dest: single split: if_splits)

lemma retire_refines:
  "represents good valid holds b ks \<Longrightarrow> retire i ks ks' \<Longrightarrow> represents good valid holds (book_retire i b) ks'"
  using good_kept [of ks i _ ks'] retired [of i ks ks']
  by (auto simp: represents_def book_retire_def fun_eq_iff dest: single split: if_splits)

lemma enrol_refines:
  assumes "represents good valid holds b ks" and "enrol i subs ks ks'"
  shows "represents good valid holds (book_enrol i subs b) ks'"
proof -
  have g: "good ks" "nb_valid b = valid ks" and o: "\<And>key s. nb_owner b s = Some key \<longleftrightarrow> holds ks key s"
    using assms(1) by (auto simp: represents_def)
  show ?thesis unfolding represents_def
    using g o good_kept [of ks i _ ks' subs] assms(2) enrolled(3) [OF g(1) assms(2)]
    by (auto simp: book_enrol_def fun_eq_iff enrolled(1) [OF g(1) assms(2)] enrolled(2) [OF g(1) assms(2)] split: if_splits)
qed

end

subsection \<open>The key store provides it\<close>

definition store_claim :: "json_api \<Rightarrow> string \<Rightarrow> string \<Rightarrow> key_store \<Rightarrow> key_store \<Rightarrow> bool" where
  "store_claim J key sub ks ks' \<longleftrightarrow> (\<exists>ord w. covers ord (ks_keys ks) \<and> ks' = snd (adapter_AddSubdomain J ord w key sub ks))"

definition store_release :: "json_api \<Rightarrow> string \<Rightarrow> string \<Rightarrow> key_store \<Rightarrow> key_store \<Rightarrow> bool" where
  "store_release J key sub ks ks' \<longleftrightarrow> (\<exists>w. ks' = snd (adapter_RemoveSubdomain J w key sub ks))"

definition store_retire :: "json_api \<Rightarrow> string \<Rightarrow> key_store \<Rightarrow> key_store \<Rightarrow> bool" where
  "store_retire J key ks ks' \<longleftrightarrow>
     (\<exists>ord w i. findKeyByIDOrPreview ord ks i = Some key \<and> ks' = snd (adapter_RevokeKey J ord w i ks))"

text \<open>A new key is one that was not yet in use.\<close>

definition store_enrol :: "json_api \<Rightarrow> string \<Rightarrow> string list \<Rightarrow> key_store \<Rightarrow> key_store \<Rightarrow> bool" where
  "store_enrol J key subs ks ks' \<longleftrightarrow>
     (\<exists>ord rnd now w name n. covers ord (ks_keys ks) \<and> ks_keys ks key = None \<and>
        adapter_CreateKey J ord rnd now w name subs n ks = (Inr key, ks'))"

lemma find_preview_key: "find_preview p ord m = Some i \<Longrightarrow> m i \<noteq> None"
  by (induction ord) (auto split: if_splits)

lemma findKey_key: "findKeyByIDOrPreview ord ks i = Some key \<Longrightarrow> ks_keys ks key \<noteq> None"
  by (auto simp: findKeyByIDOrPreview_def split: if_splits dest: find_preview_key)

lemma retire_keys: "store_retire J key ks ks' \<Longrightarrow> ks_keys ks' = ks_keys (update_key key (ak_Active_update (\<lambda>_. False)) ks)"
  by (auto simp: store_retire_def RevokeKey_def)

lemma release_keys:
  "store_release J key sub ks ks' \<Longrightarrow>
     ks_keys ks' = ks_keys (update_key key (ak_Subdomains_update (filter (\<lambda>s. s \<noteq> sub))) ks)"
proof -
  assume "store_release J key sub ks ks'"
  then obtain w where ks': "ks' = snd (RemoveSubdomain J w key sub ks)" by (auto simp: store_release_def)
  show ?thesis by (cases "ks_keys ks key") (simp_all add: ks' RemoveSubdomain_def fun_upd_idem)
qed

lemma claim_keys:
  assumes "keys_inv (ks_keys ks)" and "store_claim J key sub ks ks'"
  shows "ks_keys ks' = (if key_Validate ks key \<and> ValidateSubdomain sub = None \<and> (\<forall>l. \<not> owns (ks_keys ks) l sub)
    then ks_keys (update_key key (ak_Subdomains_update (\<lambda>subs. subs @ [sub])) ks) else ks_keys ks)"
proof -
  obtain ord w where c: "covers ord (ks_keys ks)" and ks': "ks' = snd (AddSubdomain J ord w key sub ks)"
    using assms(2) by (auto simp: store_claim_def)
  have "FindSubdomainOwner ord ks sub = [] \<longleftrightarrow> (\<forall>l. \<not> owns (ks_keys ks) l sub)"
    using no_owner [OF assms(1) c] find_owner_owns [of sub ord "ks_keys ks"] by (auto simp: FindSubdomainOwner_def)
  then show ?thesis by (auto simp: ks' AddSubdomain_def key_Validate_def Let_def split: option.splits)
qed

lemma enrol_keys:
  assumes "keys_inv (ks_keys ks)" and "store_enrol J key subs ks ks'"
  shows "\<exists>k. ks_keys ks' = (ks_keys ks)(key \<mapsto> k) \<and> ks_keys ks key = None \<and> ak_Active k \<and> ak_Subdomains k = subs \<and>
    (\<forall>s \<in> set subs. \<forall>j. \<not> owns (ks_keys ks) j s)"
proof -
  obtain ord rnd now w name n where c: "covers ord (ks_keys ks)" "ks_keys ks key = None"
      and cr: "CreateKey J ord rnd now w name subs n ks = (Inr key, ks')"
    using assms(2) by (auto simp: store_enrol_def)
  have free: "check_subdomains ord ks subs = None" and key: "key = GenerateAPIKey rnd"
    using cr by (auto simp: CreateKey_def Let_def split: if_splits option.splits prod.splits)
  let ?k = "\<lparr>ak_Name = name, ak_Subdomains = subs, ak_MaxTunnels = (if n \<le> 0 then 10 else n),
    ak_CreatedAt = now, ak_Active = True, ak_tunnelCount = 0\<rparr>"
  have "ks_keys ks' = (ks_keys ks)(key \<mapsto> ?k)"
    using cr free key by (auto simp: CreateKey_def Let_def dest!: save_keys split: if_splits option.splits prod.splits)
  moreover have "\<forall>s \<in> set subs. \<forall>j. \<not> owns (ks_keys ks) j s"
    using free no_owner [OF assms(1) c(1)] by (auto simp: check_subdomains_None)
  ultimately show ?thesis using c(2) by (intro exI [of _ ?k]) simp
qed

text \<open>Who is accepted and who owns what depend on the map of keys only.\<close>

lemma store_valid:
  "keys_inv (ks_keys ks) \<Longrightarrow> store_claim J i sub ks ks' \<Longrightarrow> key_Validate ks' = key_Validate ks"
  "store_release J i sub ks ks' \<Longrightarrow> key_Validate ks' = key_Validate ks"
  "store_retire J i ks ks' \<Longrightarrow> key_Validate ks' j \<longleftrightarrow> key_Validate ks j \<and> j \<noteq> i"
  "keys_inv (ks_keys ks) \<Longrightarrow> store_enrol J i subs ks ks' \<Longrightarrow> key_Validate ks' j \<longleftrightarrow> key_Validate ks j \<or> j = i"
proof -
  show "key_Validate ks' = key_Validate ks" if "keys_inv (ks_keys ks)" "store_claim J i sub ks ks'"
    using claim_keys [OF that] by (auto simp: key_Validate_def fun_eq_iff split: option.splits if_splits)
  show "key_Validate ks' = key_Validate ks" if "store_release J i sub ks ks'"
    using release_keys [OF that] by (auto simp: key_Validate_def fun_eq_iff split: option.splits)
  show "key_Validate ks' j \<longleftrightarrow> key_Validate ks j \<and> j \<noteq> i" if "store_retire J i ks ks'"
    using retire_keys [OF that] by (auto simp: key_Validate_def split: option.splits)
  show "key_Validate ks' j \<longleftrightarrow> key_Validate ks j \<or> j = i" if "keys_inv (ks_keys ks)" "store_enrol J i subs ks ks'"
    using enrol_keys [OF that] by (auto simp: key_Validate_def)
qed

lemma store_owns:
  "keys_inv (ks_keys ks) \<Longrightarrow> store_claim J i sub ks ks' \<Longrightarrow> owns (ks_keys ks') j s \<longleftrightarrow> owns (ks_keys ks) j s \<or>
     j = i \<and> s = sub \<and> key_Validate ks i \<and> ValidateSubdomain sub = None \<and> (\<forall>l. \<not> owns (ks_keys ks) l sub)"
  "store_release J i sub ks ks' \<Longrightarrow> owns (ks_keys ks') j s \<longleftrightarrow> owns (ks_keys ks) j s \<and> \<not> (j = i \<and> s = sub)"
  "store_retire J i ks ks' \<Longrightarrow> owns (ks_keys ks') j s \<longleftrightarrow> owns (ks_keys ks) j s \<and> j \<noteq> i"
  "keys_inv (ks_keys ks) \<Longrightarrow> store_enrol J i subs ks ks' \<Longrightarrow>
     owns (ks_keys ks') j s \<longleftrightarrow> owns (ks_keys ks) j s \<or> j = i \<and> s \<in> set subs"
  "keys_inv (ks_keys ks) \<Longrightarrow> store_enrol J i subs ks ks' \<Longrightarrow> s \<in> set subs \<Longrightarrow> \<not> owns (ks_keys ks) j s"
proof -
  show "owns (ks_keys ks') j s \<longleftrightarrow> owns (ks_keys ks) j s \<or>
     j = i \<and> s = sub \<and> key_Validate ks i \<and> ValidateSubdomain sub = None \<and> (\<forall>l. \<not> owns (ks_keys ks) l sub)"
    if "keys_inv (ks_keys ks)" "store_claim J i sub ks ks'"
    unfolding claim_keys [OF that] by (auto simp: owns_def key_Validate_def split: option.splits)
  show "owns (ks_keys ks') j s \<longleftrightarrow> owns (ks_keys ks) j s \<and> \<not> (j = i \<and> s = sub)" if "store_release J i sub ks ks'"
    using release_keys [OF that] by (auto simp: owns_def)
  show "owns (ks_keys ks') j s \<longleftrightarrow> owns (ks_keys ks) j s \<and> j \<noteq> i" if "store_retire J i ks ks'"
    using retire_keys [OF that] by (auto simp: owns_def)
  show "owns (ks_keys ks') j s \<longleftrightarrow> owns (ks_keys ks) j s \<or> j = i \<and> s \<in> set subs"
    if "keys_inv (ks_keys ks)" "store_enrol J i subs ks ks'"
    using enrol_keys [OF that] by (auto simp: owns_def split: if_splits)
  show "\<not> owns (ks_keys ks) j s" if "keys_inv (ks_keys ks)" "store_enrol J i subs ks ks'" "s \<in> set subs"
    using enrol_keys [OF that(1,2)] that(3) by blast
qed

lemma store_inv:
  assumes "keys_inv (ks_keys ks)"
    and "store_claim J i sub ks ks' \<or> store_release J i sub ks ks' \<or> store_retire J i ks ks' \<or> store_enrol J i subs ks ks'"
  shows "keys_inv (ks_keys ks')"
proof -
  have "keys_inv (ks_keys ks')" if new: "store_enrol J i subs ks ks'"
  proof -
    obtain ord rnd now w name n where c: "covers ord (ks_keys ks)" "CreateKey J ord rnd now w name subs n ks = (Inr i, ks')"
      using new by (auto simp: store_enrol_def)
    show ?thesis using CreateKey_inv [OF assms(1) c(1), of J rnd now w name subs n] by (simp add: c(2))
  qed
  then show ?thesis using assms
    by (auto simp: store_claim_def store_release_def store_retire_def intro: inv_intros)
qed

interpretation stored: key_provider "\<lambda>ks. keys_inv (ks_keys ks)" key_Validate "\<lambda>ks. owns (ks_keys ks)"
    "store_claim J" "store_release J" "store_retire J" "store_enrol J" for J
proof (unfold_locales, goal_cases)
  case 1 then show ?case by (rule store_inv)
next
  case 2 then show ?case by (rule keys_inv_owner)
next
  case 3 then show ?case using store_valid(1,2) by blast
next
  case 4 then show ?case by (rule store_owns(1))
next
  case 5 then show ?case by (rule store_owns(2))
next
  case 6 then show ?case by (rule store_owns(3))
next
  case 7 then show ?case by (rule store_valid(3))
next
  case 8 then show ?case by (rule store_owns(4))
next
  case 9 then show ?case by (rule store_valid(4))
next
  case 10 then show ?case by (rule store_owns(5))
qed

subsection \<open>The dashboard keeps the book\<close>

abbreviation in_book :: "name_book \<Rightarrow> key_store \<Rightarrow> bool" where
  "in_book \<equiv> represents (\<lambda>ks. keys_inv (ks_keys ks)) key_Validate (\<lambda>ks. owns (ks_keys ks))"

text \<open>The book of a store, read off the keys; every reachable store has one.\<close>

definition book_of :: "string list \<Rightarrow> key_store \<Rightarrow> name_book" where
  "book_of ord ks = \<lparr>nb_valid = key_Validate ks,
     nb_owner = (\<lambda>sub. if FindSubdomainOwner ord ks sub = [] then None else Some (FindSubdomainOwner ord ks sub))\<rparr>"

lemma book_of_represents:
  assumes "keys_inv (ks_keys ks)" and "covers ord (ks_keys ks)"
  shows "in_book (book_of ord ks) ks"
proof -
  have "nb_owner (book_of ord ks) sub = Some key \<longleftrightarrow> owns (ks_keys ks) key sub" for key sub
    using owner_iff [OF assms, of key sub] owns_not_Nil [OF assms(1), of key sub] by (auto simp: book_of_def)
  then show ?thesis using assms(1) by (simp add: represents_def book_of_def)
qed

lemma reachable_has_book:
  assumes "(dash_step J yaml P)\<^sup>*\<^sup>* (start_dashboard lo hi path cp t dm v) d" and "covers ord (ks_keys (db_keys d))"
  shows "in_book (book_of ord (db_keys d)) (db_keys d)"
  using web.good_run [OF assms(1)] book_of_represents [OF _ assms(2)] by (simp add: dash_inv_def)

text \<open>
  What a request does to the book. \<open>resolve\<close> finds the key an administrator means; a registration counts when it
  is answered with a new key.
\<close>

definition book_after ::
    "dash_json \<Rightarrow> (string \<Rightarrow> string option) \<Rightarrow> string \<Rightarrow> dash_request \<Rightarrow> dash_response \<Rightarrow> name_book \<Rightarrow> name_book" where
  "book_after P resolve adminToken r resp b =
     (case endpoint_of (dq_Method r) (dq_Path r) of
        Some PostSubdomain \<Rightarrow>
          (case dj_subdomain P (dq_Body r) of None \<Rightarrow> b | Some sub \<Rightarrow> book_claim (bearer r) sub b)
      | Some (DeleteSubdomain name) \<Rightarrow> if nb_valid b (bearer r) then book_release (bearer r) name b else b
      | Some PostRegister \<Rightarrow> (case dr_body resp of NewKey key name subs domain \<Rightarrow> book_enrol key subs b | _ \<Rightarrow> b)
      | Some (AdminDeleteKey i) \<Rightarrow>
          if adminToken \<noteq> [] \<and> bearer r = adminToken
          then (case resolve i of None \<Rightarrow> b | Some key \<Rightarrow> book_retire key b) else b
      | _ \<Rightarrow> b)"

text \<open>Every list of names in an answer is what the book says of the key.\<close>

definition book_shown :: "dash_request \<Rightarrow> dash_response \<Rightarrow> name_book \<Rightarrow> bool" where
  "book_shown r resp b \<longleftrightarrow>
     (case dr_body resp of
        Me name subs n created domain \<Rightarrow> \<forall>s. s \<in> set subs \<longleftrightarrow> nb_owner b s = Some (bearer r)
      | OwnedSubs subs \<Rightarrow> \<forall>s. s \<in> set subs \<longleftrightarrow> nb_owner b s = Some (bearer r)
      | NewKey key name subs domain \<Rightarrow> \<forall>s. s \<in> set subs \<longrightarrow> nb_owner b s = Some key
      | _ \<Rightarrow> True)"

lemma owned_set: "key_Validate ks key \<Longrightarrow> s \<in> set (OwnedSubdomains ks key) \<longleftrightarrow> owns (ks_keys ks) key s"
  by (auto simp: key_Validate_def OwnedSubdomains_def owns_def split: option.splits)

lemma me_set:
  "key_Validate ks key \<Longrightarrow> adapter_GetKey ks key = Some info \<Longrightarrow> s \<in> set (ak_Subdomains info) \<longleftrightarrow> owns (ks_keys ks) key s"
  by (auto simp: key_Validate_def adapter_GetKey_def GetKey_def owns_def store_key_def stored_key.truncate_def
      split: option.splits)

lemma in_bookD:
  "in_book b ks \<Longrightarrow> keys_inv (ks_keys ks)" "in_book b ks \<Longrightarrow> nb_valid b key \<longleftrightarrow> key_Validate ks key"
  "in_book b ks \<Longrightarrow> nb_owner b s = Some key \<longleftrightarrow> owns (ks_keys ks) key s"
  by (simp_all add: represents_def)

lemma no_empty_key: "keys_inv (ks_keys ks) \<Longrightarrow> \<not> key_Validate ks []"
  by (simp add: keys_inv_def key_Validate_def)

lemma empty_label_refused: "ValidateSubdomain [] \<noteq> None"
  by code_simp

lemma stays_in_book:
  assumes "in_book b (db_keys d)" and "d' = d" and "b' = b" and "resp = writeError e c"
  shows "in_book b' (db_keys d') \<and> book_shown r resp b'"
  using assms by (simp add: book_shown_def writeError_def)

lemma post_subdomain_book:
  assumes "userAuth (handleAddSubdomain J P x) r d = (resp, d')" and b: "in_book b (db_keys d)"
    and "covers (dx_keys x) (ks_keys (db_keys d))"
    and b': "b' = (case dj_subdomain P (dq_Body r) of None \<Rightarrow> b | Some sub \<Rightarrow> book_claim (bearer r) sub b)"
  shows "in_book b' (db_keys d') \<and> book_shown r resp b'"
  using assms(1)
proof (cases rule: userAuth_cases)
  case (refused e)
  then have "\<not> nb_valid b (bearer r)" using in_bookD(1,2) [OF b] no_empty_key by metis
  then have "b' = b" by (simp add: b' book_claim_def split: option.split)
  then show ?thesis using stays_in_book [OF b refused(2) _ refused(1)] by blast
next
  case passed
  show ?thesis
  proof (cases "dj_subdomain P (dq_Body r)")
    case None
    then show ?thesis using passed(3) b by (auto simp: handleAddSubdomain_def b' book_shown_def writeError_def)
  next
    case (Some sub)
    show ?thesis
    proof (cases "sub = []")
      case True
      then show ?thesis using passed(3) Some b empty_label_refused
        by (auto simp: handleAddSubdomain_def b' book_claim_def book_shown_def writeError_def)
    next
      case False
      obtain e ks where a: "AddSubdomain J (dx_keys x) (dx_write x) (bearer r) sub (db_keys d) = (e, ks)" by fastforce
      then have c: "store_claim J (bearer r) sub (db_keys d) ks" unfolding store_claim_def adapter_calls using assms(3) by (metis snd_conv)
      have k: "in_book b' ks" using stored.claim_refines [OF b c] by (simp add: b' Some)
      have "key_Validate ks (bearer r)" using store_valid(1) [OF in_bookD(1) [OF b] c] passed(2) by simp
      then show ?thesis using passed(3) Some False a k owned_set [of ks "bearer r"] in_bookD(3) [OF k]
        by (auto simp: handleAddSubdomain_def book_shown_def writeError_def writeCreated_def split: option.splits)
    qed
  qed
qed

lemma delete_subdomain_book:
  assumes "userAuth (handleRemoveSubdomain J x name) r d = (resp, d')" and b: "in_book b (db_keys d)"
    and b': "b' = (if nb_valid b (bearer r) then book_release (bearer r) name b else b)"
  shows "in_book b' (db_keys d') \<and> book_shown r resp b'"
  using assms(1)
proof (cases rule: userAuth_cases)
  case (refused e)
  then have "\<not> nb_valid b (bearer r)" using in_bookD(1,2) [OF b] no_empty_key by metis
  then show ?thesis using stays_in_book [OF b refused(2) _ refused(1)] by (simp add: b')
next
  case passed
  obtain e ks where a: "RemoveSubdomain J (dx_write x) (bearer r) name (db_keys d) = (e, ks)" by fastforce
  then have c: "store_release J (bearer r) name (db_keys d) ks" unfolding store_release_def adapter_calls by (metis snd_conv)
  have k: "in_book b' ks" using stored.release_refines [OF b c] passed(2) in_bookD(2) [OF b] by (simp add: b')
  have "key_Validate ks (bearer r)" using store_valid(2) [OF c] passed(2) by simp
  then show ?thesis using passed(3) a k owned_set [of ks "bearer r"] in_bookD(3) [OF k]
    by (auto simp: handleRemoveSubdomain_def book_shown_def writeError_def writeJSON_def split: option.splits)
qed

lemma revoke_book:
  assumes "adminOnly (handleAdminRevokeKey J x i) r d = (resp, d')" and b: "in_book b (db_keys d)"
    and b': "b' = (if db_adminToken d \<noteq> [] \<and> bearer r = db_adminToken d
      then (case findKeyByIDOrPreview (dx_keys x) (db_keys d) i of None \<Rightarrow> b | Some key \<Rightarrow> book_retire key b) else b)"
  shows "in_book b' (db_keys d') \<and> book_shown r resp b'"
  using assms(1)
proof (cases rule: adminOnly_cases)
  case (refused e c)
  then show ?thesis using stays_in_book [OF b refused(3) _ refused(1)] by (auto simp: b')
next
  case passed
  obtain e ks where a: "RevokeKey J (dx_keys x) (dx_write x) i (db_keys d) = (e, ks)" by fastforce
  have "in_book b' ks"
  proof (cases "findKeyByIDOrPreview (dx_keys x) (db_keys d) i")
    case None
    then show ?thesis using a b by (simp add: RevokeKey_def b')
  next
    case (Some key)
    then have "store_retire J key (db_keys d) ks" unfolding store_retire_def adapter_calls using a by (metis snd_conv)
    then show ?thesis using stored.retire_refines [OF b] passed(1,2) Some by (simp add: b')
  qed
  then show ?thesis using passed(3) a
    by (auto simp: handleAdminRevokeKey_def book_shown_def writeError_def writeJSON_def split: option.splits)
qed

lemma register_book:
  assumes "dash_handleRegister J P x r d = (resp, d')" and b: "in_book b (db_keys d)"
    and "covers (dx_keys x) (ks_keys (db_keys d))" and fresh: "ks_keys (db_keys d) (GenerateAPIKey (dx_rnd x)) = None"
    and b': "b' = (case dr_body resp of NewKey key name subs domain \<Rightarrow> book_enrol key subs b | _ \<Rightarrow> b)"
  shows "in_book b' (db_keys d') \<and> book_shown r resp b'"
proof (cases "dj_register P (dq_Body r)")
  case None
  then show ?thesis using assms(1) b by (auto simp: dash_handleRegister_def b' book_shown_def writeError_def)
next
  case (Some p)
  obtain name sub where p: "p = (name, sub)" by fastforce
  let ?subs = "if sub \<noteq> [] then [sub] else []"
  obtain out ks where a: "CreateKey J (dx_keys x) (dx_rnd x) (dx_now x) (dx_write x) name ?subs 10 (db_keys d) = (out, ks)"
    by fastforce
  show ?thesis
  proof (cases out)
    case (Inl e)
    then have "ks_keys ks = ks_keys (db_keys d)" using a fresh
      by (auto simp: CreateKey_def Let_def fun_upd_idem dest!: save_keys split: if_splits option.splits prod.splits)
    moreover from this have "key_Validate ks = key_Validate (db_keys d)" by (simp add: key_Validate_def fun_eq_iff)
    ultimately have "in_book b ks" using b by (simp add: represents_def)
    then show ?thesis using assms(1) Some p a Inl b
      by (auto simp: dash_handleRegister_def b' book_shown_def writeError_def split: if_splits)
  next
    case (Inr key)
    then have "key = GenerateAPIKey (dx_rnd x)" using a
      by (auto simp: CreateKey_def Let_def split: if_splits option.splits prod.splits)
    then have c: "store_enrol J key ?subs (db_keys d) ks" unfolding store_enrol_def adapter_calls using assms(3) fresh a Inr by blast
    have "in_book (book_enrol key ?subs b) ks" by (rule stored.enrol_refines [OF b c])
    moreover have "name \<noteq> []" using a Inr by (auto simp: CreateKey_def)
    ultimately show ?thesis using assms(1) Some p a Inr
      by (auto simp: dash_handleRegister_def b' book_shown_def writeCreated_def book_enrol_def)
  qed
qed

lemma me_book:
  assumes "userAuth handleMe r d = (resp, d')" and b: "in_book b (db_keys d)"
  shows "in_book b (db_keys d') \<and> book_shown r resp b"
  using assms(1)
proof (cases rule: userAuth_cases)
  case (refused e)
  then show ?thesis using stays_in_book [OF b refused(2) _ refused(1)] by blast
next
  case passed
  then show ?thesis using me_set [OF passed(2)] in_bookD(3) [OF b] b
    by (auto simp: handleMe_def book_shown_def writeError_def writeJSON_def split: option.splits)
qed

lemma other_endpoints:
  assumes "serve_endpoint J yaml P x ep r d = (resp, d')"
    and "ep \<noteq> PostRegister" "ep \<noteq> PostSubdomain" "ep \<noteq> GetMe" "\<And>n. ep \<noteq> DeleteSubdomain n" "\<And>i. ep \<noteq> AdminDeleteKey i"
  shows "db_keys d' = db_keys d \<and> book_shown r resp b"
  using assms
  by (cases ep) (auto simp: serve_endpoint_def userAuth_def adminOnly_def handler_defs Let_def book_shown_def writeError_def
      writeJSON_def split: option.splits prod.splits bool.splits if_splits)

lemma dashboard_book:
  assumes "in_book b (db_keys d)" and "covers (dx_keys x) (ks_keys (db_keys d))"
    and "ks_keys (db_keys d) (GenerateAPIKey (dx_rnd x)) = None"
    and "ServeHTTP J yaml P x r d = (resp, d')"
    and "b' = book_after P (findKeyByIDOrPreview (dx_keys x) (db_keys d)) (db_adminToken d) r resp b"
  shows "in_book b' (db_keys d') \<and> book_shown r resp b'"
proof (cases "endpoint_of (dq_Method r) (dq_Path r)")
  case None
  then show ?thesis using assms by (auto simp: ServeHTTP_def book_after_def book_shown_def writeError_def)
next
  case (Some ep)
  then have serve: "serve_endpoint J yaml P x ep r d = (resp, d')" using assms(4) by (simp add: ServeHTTP_def)
  consider "ep = PostRegister" | "ep = PostSubdomain" | "ep = GetMe" | n where "ep = DeleteSubdomain n"
    | i where "ep = AdminDeleteKey i"
    | "ep \<noteq> PostRegister" "ep \<noteq> PostSubdomain" "ep \<noteq> GetMe" "\<And>n. ep \<noteq> DeleteSubdomain n" "\<And>i. ep \<noteq> AdminDeleteKey i"
    by blast
  then show ?thesis
  proof cases
    case 1
    then show ?thesis using register_book [OF _ assms(1-3)] serve Some by (simp add: serve_endpoint_def assms(5) book_after_def)
  next
    case 2
    then show ?thesis using post_subdomain_book [OF _ assms(1,2)] serve Some
      by (simp add: serve_endpoint_def assms(5) book_after_def)
  next
    case 3
    then show ?thesis using me_book [OF _ assms(1)] serve Some by (simp add: serve_endpoint_def assms(5) book_after_def)
  next
    case 4
    then show ?thesis using delete_subdomain_book [OF _ assms(1)] serve Some
      by (simp add: serve_endpoint_def assms(5) book_after_def)
  next
    case 5
    then show ?thesis using revoke_book [OF _ assms(1)] serve Some by (simp add: serve_endpoint_def assms(5) book_after_def)
  next
    case 6
    then have "b' = b" using Some by (cases ep) (auto simp: assms(5) book_after_def)
    then show ?thesis using other_endpoints [OF serve 6, of b] assms(1) by simp
  qed
qed

text \<open>
  C17: The endpoints of the dashboard keep a book of names: from any state of the key store that a book
  represents, which every reachable one does, a request to any endpoint leaves a state that the book after that
  request represents. A claim enters a valid name that is free for a key that is accepted, a release and a
  revocation strike out the names of that key only, a registration enters a new key with its name, and nothing
  else changes the book, whether or not the file could be written. And every list of names in an answer,
  of one's account or after a change, is exactly what the book says.
\<close>

theorem dashboard_keeps_book:
  assumes "in_book b (db_keys d)" and "covers (dx_keys x) (ks_keys (db_keys d))"
    and "ks_keys (db_keys d) (GenerateAPIKey (dx_rnd x)) = None"
    and "ServeHTTP J yaml P x r d = (resp, d')"
    and "b' = book_after P (findKeyByIDOrPreview (dx_keys x) (db_keys d)) (db_adminToken d) r resp b"
  shows "in_book b' (db_keys d') \<and> book_shown r resp b'"
  using assms by (rule dashboard_book)

definition blog_post :: dash_request where
  "blog_post = \<lparr>dq_Method = ''POST'', dq_Path = ''/_dashboard/api/subdomains'', dq_Authorization = ''Bearer tok'',
     dq_Query = (\<lambda>_. []), dq_Body = ''blog''\<rparr>"

definition shop_store :: key_store where
  "shop_store = \<lparr>ks_keys = [''tok'' \<mapsto> demo_key], ks_filePath = [], ks_file = NotExist\<rparr>"

definition shop_book :: name_book where
  "shop_book = \<lparr>nb_valid = (\<lambda>key. key = ''tok''), nb_owner = [''shop'' \<mapsto> ''tok'']\<rparr>"

lemma shop_in_book: "in_book shop_book shop_store"
  by (auto simp: represents_def shop_book_def shop_store_def demo_key_def keys_inv_def owns_def key_Validate_def fun_eq_iff
      split: if_splits)

theorem dashboard_keeps_book_witness:
  "\<exists>resp d'. ServeHTTP demo_json (\<lambda>_. Inl []) demo_bodies (demo_env\<lparr>dx_keys := [''tok'']\<rparr>) blog_post
       (demo_dashboard\<lparr>db_keys := shop_store\<rparr>) = (resp, d') \<and>
     owns (ks_keys (db_keys d')) ''tok'' ''blog'' \<and> owns (ks_keys (db_keys d')) ''tok'' ''shop''"
proof -
  let ?d = "demo_dashboard\<lparr>db_keys := shop_store\<rparr>" and ?x = "demo_env\<lparr>dx_keys := [''tok'']\<rparr>"
  obtain resp d' where h: "ServeHTTP demo_json (\<lambda>_. Inl []) demo_bodies ?x blog_post ?d = (resp, d')" by fastforce
  have b: "bearer blog_post = ''tok''" by code_simp
  have e: "endpoint_of (dq_Method blog_post) (dq_Path blog_post) = Some PostSubdomain"
    by (simp add: endpoint_of_def blog_post_def)
  have "length (GenerateAPIKey (dx_rnd ?x)) \<noteq> length ''tok''" by simp
  then have "GenerateAPIKey (dx_rnd ?x) \<noteq> ''tok''" by metis
  then have f: "ks_keys (db_keys ?d) (GenerateAPIKey (dx_rnd ?x)) = None" by (simp add: shop_store_def)
  have i: "in_book shop_book (db_keys ?d)" "covers (dx_keys ?x) (ks_keys (db_keys ?d))"
    using shop_in_book by (simp_all add: covers_def shop_store_def)
  let ?b = "book_after demo_bodies (findKeyByIDOrPreview (dx_keys ?x) (db_keys ?d)) (db_adminToken ?d) blog_post resp shop_book"
  have "dj_subdomain demo_bodies (dq_Body blog_post) = Some ''blog''" by (simp add: demo_bodies_def blog_post_def)
  then have after: "nb_owner ?b = [''shop'' \<mapsto> ''tok'', ''blog'' \<mapsto> ''tok'']"
    by (simp add: book_after_def e b book_claim_def shop_book_def valid_shop)
  have k: "in_book ?b (db_keys d')" using dashboard_keeps_book [OF i f h refl] by blast
  have "nb_owner ?b ''blog'' = Some ''tok''" "nb_owner ?b ''shop'' = Some ''tok''" unfolding after by simp_all
  then have "owns (ks_keys (db_keys d')) ''tok'' ''blog''" "owns (ks_keys (db_keys d')) ''tok'' ''shop''"
    using in_bookD(3) [OF k] by blast+
  then show ?thesis using h by blast
qed

end
