(* ===== verification/Dashboard_Server.thy ===== *)
theory Dashboard_Server
  imports Name_Owners Server_Properties
begin

text \<open>
  The two ports that share the key store: what the dashboard (\<open>internal/dashboard/handler.go\<close>) does to the keys is
  what the control port (\<open>internal/server/server.go\<close>) goes by when a client authenticates, and not when a session
  that is already there asks for tunnels.
\<close>

subsection \<open>Keys at the control port\<close>

lemma token_refused_or_started:
  assumes "fst (ip_Allow L (extractIP (cn_addr c)) (cn_now c) (sv_ipLimiter s))" and "cn_deadline_ok c"
    and "cn_reply_ok c" and "cn_yamux_ok c" and "cn_first c = Some (MsgAuth, raw)" and "un_auth raw = Some m"
    and "IsAPIKey (am_Token m)"
  shows "fst (handleConnection B L J un_auth un_reg ord rnd w c s) =
    (if key_Validate (sv_keyStore s) (am_Token m) then Session (am_Token m) else Answered (AuthResponse False))"
proof -
  have "MsgAuth \<noteq> MsgRegister" by (simp add: msg_type_defs)
  moreover have "am_Token m \<noteq> []" using assms(7) by (auto simp: IsAPIKey_def HasPrefix_def)
  ultimately show ?thesis using assms
    by (cases "ip_Allow L (extractIP (cn_addr c)) (cn_now c) (sv_ipLimiter s)")
       (simp add: handleConnection_def authenticate_def token_valid_def Let_def)
qed

text \<open>
  C11: The keys of the dashboard are the keys of the control port: after any request to the dashboard, a client whose
  connection is admitted and whose Auth message carries an API key gets a session if the book of names accepts
  the key and is refused otherwise. So a key that a registration has just handed out connects, a key that
  was revoked does not, and no other request changes who may connect.
\<close>

theorem dashboard_key_connects:
  assumes "in_book b (db_keys d)" and "covers (dx_keys x) (ks_keys (db_keys d))"
    and "ks_keys (db_keys d) (GenerateAPIKey (dx_rnd x)) = None"
    and "ServeHTTP J yaml P x r d = (resp, d')"
    and "sv_keyStore s = db_keys d'"
    and "fst (ip_Allow L (extractIP (cn_addr c)) (cn_now c) (sv_ipLimiter s))" and "cn_deadline_ok c"
    and "cn_reply_ok c" and "cn_yamux_ok c" and "cn_first c = Some (MsgAuth, raw)" and "un_auth raw = Some m"
    and "IsAPIKey (am_Token m)"
  shows "fst (handleConnection B L J un_auth un_reg ord rnd w c s) =
    (if nb_valid (book_after P (findKeyByIDOrPreview (dx_keys x) (db_keys d)) (db_adminToken d) r resp b) (am_Token m)
     then Session (am_Token m) else Answered (AuthResponse False))"
  using token_refused_or_started [where L = L and un_auth = un_auth and m = m and raw = raw, OF assms(6-12)] in_bookD(2) [OF conjunct1 [OF dashboard_book [OF assms(1-4) refl]]]
  by (simp add: assms(5))

definition auth_connection :: connection where
  "auth_connection = \<lparr>cn_addr = ''1.2.3.4:5'', cn_now = 0, cn_deadline_ok = True, cn_first = Some (MsgAuth, []),
     cn_reply_ok = True, cn_yamux_ok = True\<rparr>"

text \<open>A registration, and the key it hands out.\<close>

theorem dashboard_key_connects_witness:
  "\<exists>resp d'. ServeHTTP demo_json (\<lambda>_. Inl []) demo_bodies demo_env register_post demo_dashboard = (resp, d') \<and>
     sv_keyStore demo_server = db_keys d' \<and>
     fst (handleConnection rev_bcrypt open_limiter demo_json (\<lambda>_. Some \<lparr>am_Token = demo_user\<rparr>) (\<lambda>_. None) [] (\<lambda>_. 0) WriteOk
       auth_connection demo_server) = Session demo_user"
proof -
  let ?resp = "writeCreated (NewKey demo_user ''ann'' [''shop''] (db_domain demo_dashboard))"
  let ?b = "\<lparr>nb_valid = (\<lambda>_. False), nb_owner = Map.empty\<rparr>"
  have h: "ServeHTTP demo_json (\<lambda>_. Inl []) demo_bodies demo_env register_post demo_dashboard =
      (?resp, demo_dashboard\<lparr>db_keys := demo_store\<rparr>)"
    unfolding demo_user_def by (rule demo_register)
  have b: "in_book ?b (db_keys demo_dashboard)"
    by (simp add: represents_def demo_dash_keys no_keys_def keys_inv_def owns_def key_Validate_def fun_eq_iff)
  have k: "covers (dx_keys demo_env) (ks_keys (db_keys demo_dashboard))"
      "ks_keys (db_keys demo_dashboard) (GenerateAPIKey (dx_rnd demo_env)) = None"
      "sv_keyStore demo_server = db_keys (demo_dashboard\<lparr>db_keys := demo_store\<rparr>)"
    by (simp_all add: covers_def demo_env_def demo_dash_keys no_keys_def demo_server_def)
  have ip: "fst (ip_Allow open_limiter (extractIP (cn_addr auth_connection)) (cn_now auth_connection) (sv_ipLimiter demo_server))"
    by (simp add: ip_Allow_def open_limiter_def Let_def)
  have c: "cn_deadline_ok auth_connection" "cn_reply_ok auth_connection" "cn_yamux_ok auth_connection"
      "cn_first auth_connection = Some (MsgAuth, [])"
    by (simp_all add: auth_connection_def)
  have "endpoint_of (dq_Method register_post) (dq_Path register_post) = Some PostRegister"
    by (simp add: endpoint_of_def register_post_def)
  then have valid: "nb_valid (book_after demo_bodies resolve t register_post ?resp ?b) demo_user" for resolve t
    by (simp add: book_after_def writeCreated_def book_enrol_def)
  have "fst (handleConnection rev_bcrypt open_limiter demo_json (\<lambda>_. Some \<lparr>am_Token = demo_user\<rparr>) (\<lambda>_. None) [] (\<lambda>_. 0) WriteOk
      auth_connection demo_server) = Session demo_user"
    using dashboard_key_connects [OF b k(1,2) h k(3) ip c, of "\<lambda>_. Some \<lparr>am_Token = demo_user\<rparr>" "\<lparr>am_Token = demo_user\<rparr>"]
      demo_user_props(2) valid by simp
  then show ?thesis using h k(3) by blast
qed

text \<open>
  A session that was there before the revocation is not concerned: whether its next tunnel is admitted does
  not depend on whether the key is still accepted.
\<close>

lemma revoked_count: "RevokeKey J ord w i ks = (r, ks') \<Longrightarrow> fst (key_IncrementTunnels token ks') = fst (key_IncrementTunnels token ks)"
  by (auto simp: RevokeKey_def key_IncrementTunnels_def apfst_def map_prod_def update_key_def dest!: save_keys
      split: option.splits prod.splits if_splits)

lemma revoked_session_admitted:
  assumes "RevokeKey J ord w i (sv_keyStore s) = (r, ks')"
  shows "fst (admitTunnel L oh ot now token req (s\<lparr>sv_keyStore := ks'\<rparr>)) = fst (admitTunnel L oh ot now token req s)"
  using revoked_count [OF assms, of token]
  by (auto simp: admitTunnel_def incrementTunnels_def Let_def split: prod.splits)

end
