(* ===== verification/Spec2Isabelle.thy ===== *)
theory Spec2Isabelle
  imports Prelude Go_Strings Codec_Proofs Encoder_Lock Subdomain Masking Tunnel_Properties Auth
    Key_Properties Log_Properties Log_Adapter Config_Properties Server_Properties Session_Properties Http_Properties
    Http_Serving Wire Client_Server Cli_Properties Display Dashboard_Properties Maintenance_Properties Wizard
    Relay Ws_Relay Lifecycle Tls Session_Liveness Control_Loop Session_Run Expiry Callback Commands
    Name_Owners Dashboard_Server
begin

text \<open>
  A verification library for htn-tunnel, a self-hosted tunnel: a public server that gives a local
  service an HTTPS name or a TCP port, and a client that holds the connection.

  \<^bold>\<open>The program.\<close> A client connects to the control port and sends one frame, \<open>Auth\<close> or \<open>Register\<close>
  (\<open>internal/protocol\<close>). Once authenticated, the connection carries a yamux session; on its control
  stream the client asks for tunnels and sends heartbeats (\<open>internal/client\<close>, \<open>internal/server/server.go\<close>).
  The server enters tunnels into a registry (\<open>tunnel_manager.go\<close>), counts them per key or token
  (\<open>key_store.go\<close>, \<open>auth.go\<close>), and opens a stream to the client for every connection of a visitor
  (\<open>http_proxy.go\<close>, \<open>tcp_proxy.go\<close>). Requests are logged in a ring buffer (\<open>request_log.go\<close>) that the
  dashboard shows (\<open>internal/dashboard\<close>), which also manages keys, tunnels and the configuration
  (\<open>internal/config\<close>, \<open>config_provider.go\<close>). Beside them stand the command line client
  (\<open>cmd/htn-tunnel\<close>) and the commands of the server binary (\<open>cmd/server\<close>).

  \<^bold>\<open>The theories\<close>, in the order of their imports; state is a \<open>record\<close> with the fields of the struct,
  and every operation a function with the name of the source.

  \<^item> \<open>Prelude\<close>, \<open>Go_Strings\<close>: time and durations, truncated division, maps walked in any order, the
    locale of state machines with an invariant; the functions of \<open>strings\<close>, \<open>strconv\<close> and \<open>net\<close> used.
  \<^item> \<open>Protocol\<close>, \<open>Codec_Proofs\<close>, \<open>Encoder_Lock\<close>: \<open>message.go\<close> and \<open>codec.go\<close> over words of 8 and 32 bits. Round
    trip, exactness and boundedness of \<open>Decode\<close>, the locale \<open>framing\<close>, and the mutex of the encoder as a
    step relation in which frames never interleave.
  \<^item> \<open>Subdomain\<close>, \<open>Masking\<close>: \<open>ValidateSubdomain\<close> with its regular expression against the specification of
    a label; the three maskings of keys.
  \<^item> \<open>Tunnel_Manager\<close>, \<open>Tunnel_Proofs\<close>, \<open>Tunnel_Properties\<close>, \<open>Tunnel_Counter\<close>: the registry. Its invariant under
    every operation, names and reservations (locale \<open>name_registry\<close>), ports under interference, expiry and
    statistics; the locale \<open>tunnel_counter\<close> of a limit, interpreted for keys and for tokens.
  \<^item> \<open>Auth\<close>, \<open>Key_Store\<close>, \<open>Key_Proofs\<close>, \<open>Key_Properties\<close>: tokens, rate limiters and keys. One owner per
    subdomain, what a restart keeps, bounded counts.
  \<^item> \<open>Request_Log\<close>, \<open>Log_Proofs\<close>, \<open>Log_Properties\<close>, \<open>Log_Adapter\<close>: the ring buffer against the list of the newest
    entries (locale \<open>bounded_log\<close>), the statistics, and the channels of the subscribers.
  \<^item> \<open>Config\<close>, \<open>Config_Properties\<close>: loading, defaults, environment, and the edits of the dashboard.
  \<^item> \<open>Server\<close>, \<open>Server_Proofs\<close>, \<open>Server_Properties\<close>: the handlers of \<open>server.go\<close>, each in full.
    \<open>Server_Sessions\<close>, \<open>Session_Properties\<close>, \<open>Session_Liveness\<close>: all sessions at once, every lock region one step,
    with the invariant that ties counts to tunnels; the limit of a key holds in every interleaving, and the
    tunnels of a session that has ended are given back. \<open>Expiry\<close>: the lifetime of anonymous tunnels at 64 bits.
  \<^item> \<open>Control_Loop\<close>, \<open>Session_Run\<close>: the loop that reads the control stream (\<open>handleControlSession\<close>) over bytes, against
    the handling of the messages one by one; what comes back is typed, and after any stream of bytes and the
    clean-up the server is as it was before the session.
  \<^item> \<open>Http_Proxy\<close>, \<open>Http_Properties\<close>, \<open>Http_Serving\<close>: routing of hosts, recording of requests, the transport over a
    stream, WebSocket upgrades, the listener of one connection.
  \<^item> \<open>Relay\<close>: the four copying goroutines of a TCP connection at the two ends of a stream
    (\<open>handleTCPConn\<close>, \<open>handleStream\<close>) as a step relation over bytes; nothing is corrupted, and without
    failures everything is delivered. \<open>Ws_Relay\<close>: \<open>proxyBidirectional\<close>, which carries WebSockets, reaches the
    same states.
  \<^item> \<open>Tls\<close>: the self-signed and the managed certificates (\<open>buildTLSConfig\<close>, \<open>certmagicTLSConfig\<close>) with the fallback
    to the disk, and \<open>handleTLSConn\<close>: from the handshake of a visitor to the tunnel of the host asked for.
  \<^item> \<open>Wire\<close>, \<open>Client\<close>, \<open>Client_Proofs\<close>, \<open>Client_Properties\<close>, \<open>Client_Server\<close>: the client and its reconnecting; then both
    ends together, over the encoded bytes: they agree on who is connected and which tunnel exists.
  \<^item> \<open>Cli\<close>, \<open>Cli_Properties\<close>, \<open>Callback\<close>, \<open>Display\<close>: the commands of the client with its configuration file, the local
    web server of the login, and the box and the log lines it prints.
  \<^item> \<open>Dashboard\<close>, \<open>Dashboard_Properties\<close>: every route with its authentication and handler; what users and
    administrators can and cannot do; the invariants of the stores it shares with the server.
    \<open>Name_Owners\<close>: the interface to the keys (locale \<open>key_provider\<close>) and the book of names every request keeps;
    \<open>Dashboard_Server\<close>: the keys of the dashboard are the keys of the control port.
  \<^item> \<open>Maintenance\<close>, \<open>Maintenance_Properties\<close>, \<open>Wizard\<close>, \<open>Lifecycle\<close>: backup and restore, upgrade, the setup wizard,
    and the start of the server, its accept loops and the health commands. \<open>Commands\<close>: both programs from their
    arguments to their exit codes.

  This theory holds the property that spans the proxy, the log and the dashboard.

  \<^bold>\<open>Parameters.\<close> Code outside the repository is an argument with its documented laws as hypotheses: JSON
  and YAML (what is marshalled reads back), bcrypt, \<open>golang.org/x/time/rate\<close>, the non-ASCII part of
  \<open>unicode\<close>, the contents of archives. Random numbers, the clock, the order of map iteration, the
  outcome of every system call and what a user types are arguments too, so a theorem holds for all of
  them.

  \<^bold>\<open>Loops.\<close> Every function is total. Loops of the code with a bound have it here (ten random names, a
  hundred ports, three missed heartbeats). Loops that wait for the world (accepting, heartbeats,
  reconnecting) recurse over the list of what the world offers, and their result says whether they have
  returned; concurrent code is a step relation, and where it must come to an end this is proved by a
  measure. No fuel is used.

  \<^bold>\<open>Not modelled.\<close> yamux, \<open>net/http\<close>, \<open>crypto/tls\<close> and certmagic themselves, which are parameters; the static
  files of the dashboard, which are data; the parsing of flags and the help texts, which are cobra's; and the
  labels and messages that are printed around the values modelled. Integers of Go are
  unbounded here except in the codec and in the lifetime of anonymous tunnels: the others are counts, ports
  and times far from 64 bits.
\<close>

subsection \<open>From a proxied request to the user's dashboard\<close>

lemma maskKey_not_Nil: "maskKey k \<noteq> []"
  by (simp add: maskKey_def)

lemma query_limit_bounds: "0 < dflt \<Longrightarrow> dflt \<le> most \<Longrightarrow> 0 < query_limit dflt most r \<and> query_limit dflt most r \<le> most"
  by (auto simp: query_limit_def Let_def split: option.split)

lemma Recent_masked:
  "0 < limit \<Longrightarrow> Recent limit (maskKey key) r = take (nat limit) (filter (\<lambda>e. e_Token e = maskKey key) (snapshot [] r))"
  using snapshot_filter [of "maskKey key" r] maskKey_not_Nil [of key] by (simp add: Recent_def Let_def)

text \<open>
  C34: Users see their own traffic: when a request has been proxied through a tunnel of a key, the key's owner who
  asks the dashboard for the log gets it as the first entry, after at most 499 others of the same mask, and
  every entry shown carries the mask of that key.
\<close>

theorem user_sees_own_requests:
  assumes "serveRequest ufold ulow cfg tm hr sub calls start dur (la_log (db_log d)) = (ToTunnel ts, msg, Some rl)"
    and "ts_Token ts = key" and "log_inv (la_log (db_log d))" and "key \<noteq> []" and "key_Validate (db_keys d) key"
    and "bearer r = key" and "endpoint_of (dq_Method r) (dq_Path r) = Some GetLogs"
  shows "\<exists>rest. ServeHTTP J yaml P x r (d\<lparr>db_log := (db_log d)\<lparr>la_log := rl\<rparr>\<rparr>) =
      (writeJSON (Logs (toDBEntry (entry_of ts hr (run_writer calls) start dur) # rest)), d\<lparr>db_log := (db_log d)\<lparr>la_log := rl\<rparr>\<rparr>) \<and>
    length rest \<le> 499 \<and> (\<forall>e \<in> set rest. dbe_Token e = maskKey key)"
proof -
  let ?e = "entry_of ts hr (run_writer calls) start dur" and ?d = "d\<lparr>db_log := (db_log d)\<lparr>la_log := rl\<rparr>\<rparr>"
  let ?n = "query_limit 100 500 r" and ?own = "\<lambda>e. e_Token e = maskKey key"
  have n: "0 < ?n" "?n \<le> 500" using query_limit_bounds [of 100 500 r] by auto
  have "Add ?e (la_log (db_log d)) = Some rl"
    using assms(1) by (auto simp: serveRequest_def Let_def split: route.splits)
  then have "snapshot [] (rl_ring rl) = take maxLogEntries (?e # snapshot [] (rl_ring (la_log (db_log d))))"
    using assms(3) by (simp add: Add_ring snapshot_ring_add log_inv_def)
  then have "snapshot [] (rl_ring rl) = ?e # take 9999 (snapshot [] (rl_ring (la_log (db_log d))))"
    by (simp add: maxLogEntries_def)
  then obtain old where old: "snapshot [] (rl_ring rl) = ?e # old" by blast
  have own: "?own ?e" using assms(2) by (simp add: entry_of_def maskKey_maskToken)
  let ?rest = "take (nat ?n - 1) (filter ?own old)"
  have "Recent ?n (maskKey key) (rl_ring rl) = ?e # ?rest"
    using n own by (cases "nat ?n") (simp_all add: Recent_masked old)
  then have "ServeHTTP J yaml P x r ?d = (writeJSON (Logs (toDBEntry ?e # map toDBEntry ?rest)), ?d)"
    using assms(4-7) by (simp add: ServeHTTP_def serve_endpoint_def userAuth_def handleUserLogs_def adapter_Recent_def)
  moreover have "length ?rest \<le> 499" using n by auto
  moreover have "\<forall>e \<in> set (map toDBEntry ?rest). dbe_Token e = maskKey key"
    by (auto simp: toDBEntry_def dest!: in_set_takeD)
  ultimately show ?thesis by (intro exI [of _ "map toDBEntry ?rest"]) simp
qed

definition logs_get :: dash_request where
  "logs_get = \<lparr>dq_Method = ''GET'', dq_Path = ''/_dashboard/api/logs'', dq_Authorization = ''Bearer tok'', dq_Query = (\<lambda>_. []), dq_Body = []\<rparr>"

definition tok_dashboard :: dashboard where
  "tok_dashboard = demo_dashboard\<lparr>db_keys := demo_store\<lparr>ks_keys := [''tok'' \<mapsto> demo_key]\<rparr>\<rparr>"

theorem user_sees_own_requests_witness:
  "\<exists>rl e rest. snd (snd (serveRequest (\<lambda>_ _. False) id zero_config a_manager demo_http ''myapp'' [WriteHeader 200, WriteBytes 5]
       7 1000000 NewRequestLog)) = Some rl \<and>
     fst (ServeHTTP demo_json (\<lambda>_. Inl []) demo_bodies demo_env logs_get
       (tok_dashboard\<lparr>db_log := (db_log tok_dashboard)\<lparr>la_log := rl\<rparr>\<rparr>)) = writeJSON (Logs (e # rest))"
proof -
  have log: "la_log (db_log tok_dashboard) = NewRequestLog"
    by (simp add: tok_dashboard_def demo_dashboard_def start_dashboard_def NewHandler_def NewRequestLogAdapter_def)
  have inv: "log_inv NewRequestLog" by (simp add: log_inv_def NewRequestLog_def ring_ok_new chan_made_def)
  let ?ts = "a_session\<lparr>ts_CreatedAt := 5\<rparr>"
  have "header_Get ''Upgrade'' (hr_Header demo_http) = []" by (simp add: header_Get_def demo_http_def)
  then have plain: "\<not> isWebSocketUpgrade (\<lambda>_ _. False) id demo_http"
    by (simp add: isWebSocketUpgrade_def EqualFold_def)
  have found: "LookupHTTP a_manager ''myapp'' = Some ?ts" by (simp add: LookupHTTP_def a_manager_simps)
  have route: "route_request (\<lambda>_ _. False) id zero_config a_manager demo_http ''myapp'' = ToTunnel ?ts"
    using plain found by (simp add: route_request_def special_host_def)
  obtain rl where "Add (entry_of ?ts demo_http (run_writer [WriteHeader 200, WriteBytes 5]) 7 1000000) NewRequestLog = Some rl"
    using Add_inv [OF inv] by blast
  then obtain msg where h: "serveRequest (\<lambda>_ _. False) id zero_config a_manager demo_http ''myapp'' [WriteHeader 200, WriteBytes 5]
      7 1000000 (la_log (db_log tok_dashboard)) = (ToTunnel ?ts, msg, Some rl)"
    using route by (simp add: serveRequest_def log Let_def)
  have k: "key_Validate (db_keys tok_dashboard) ''tok''" by (simp add: tok_dashboard_def key_Validate_def demo_key_def)
  have b: "bearer logs_get = ''tok''" by code_simp
  have e: "endpoint_of (dq_Method logs_get) (dq_Path logs_get) = Some GetLogs"
    by (simp add: endpoint_of_def logs_get_def get_routes_def)
  have t: "ts_Token ?ts = ''tok''" "log_inv (la_log (db_log tok_dashboard))" "''tok'' \<noteq> []" using inv log by simp_all
  obtain rest where "fst (ServeHTTP demo_json (\<lambda>_. Inl []) demo_bodies demo_env logs_get
      (tok_dashboard\<lparr>db_log := (db_log tok_dashboard)\<lparr>la_log := rl\<rparr>\<rparr>)) =
      writeJSON (Logs (toDBEntry (entry_of ?ts demo_http (run_writer [WriteHeader 200, WriteBytes 5]) 7 1000000) # rest))"
    using user_sees_own_requests [OF h t k b e, where J = demo_json and yaml = "\<lambda>_. Inl []" and P = demo_bodies and x = demo_env]
    by (metis fst_conv)
  moreover have "snd (snd (serveRequest (\<lambda>_ _. False) id zero_config a_manager demo_http ''myapp'' [WriteHeader 200, WriteBytes 5]
       7 1000000 NewRequestLog)) = Some rl" using h by (simp only: log) simp
  ultimately show ?thesis by blast
qed

end
